(* ===== verification/Prelude.thy ===== *)
theory Prelude
  imports
    Main
    "HOL-Library.AList"
    "HOL-Library.Multiset"
    "HOL-Library.Word"
    "HOL-Library.Char_ord"
    "HOL-Library.List_Lexorder"
    "HOL-Library.Product_Lexorder"
begin

text \<open>
  What every component shares: the type of Go errors, Go maps, and the generic lemmas on
  association lists, folds and words that the component proofs use.

  A Go map is an association list with distinct keys. Reading is \<open>map_of\<close>, storing is
  \<open>AList.update\<close>, deleting is \<open>AList.delete\<close>, and the order of the list is the order in
  which a \<open>range\<close> loop visits the entries. Go leaves that order open, so a property that is
  proved for every association list is proved for every order. A Go error value is a
  \<open>goerror\<close>; a function that returns only an error returns \<open>goerror option\<close> (\<open>None\<close> is
  \<open>nil\<close>), a function that returns a value or an error returns \<open>goerror + 'a\<close>.
\<close>

named_theorems gomap_simps "lookups in maps that were just written"
named_theorems go_eval "equations that evaluate the models of the Go library on closed terms"

section \<open>Errors\<close>

text \<open>
  \<open>Errorf\<close> is \<open>fmt.Errorf\<close> without a wrapped error, \<open>Wrapf\<close> is \<open>fmt.Errorf\<close> with \<open>%w\<close> (or
  with an inner error printed by \<open>%v\<close>), \<open>MultiErr\<close> is the non-empty list that a
  \<open>multierror.Error\<close> or an error slice holds.
\<close>

datatype goerror =
    Errorf string
  | Wrapf string goerror
  | MultiErr "goerror list"

definition ErrorOrNil :: "goerror list \<Rightarrow> goerror option" where
  "ErrorOrNil es = (if es = [] then None else Some (MultiErr es))"

lemma ErrorOrNil_None_iff [simp]: "ErrorOrNil es = None \<longleftrightarrow> es = []"
  by (simp add: ErrorOrNil_def)

definition opt_list :: "'a option \<Rightarrow> 'a list" where
  "opt_list x = (case x of None \<Rightarrow> [] | Some y \<Rightarrow> [y])"

lemma opt_list_simps [simp]: "opt_list None = []" "opt_list (Some y) = [y]"
  by (simp_all add: opt_list_def)

section \<open>Loops\<close>

text \<open>A loop that returns from inside its body: the first result of the body, if any.\<close>

fun first_some :: "('a \<Rightarrow> 'b option) \<Rightarrow> 'a list \<Rightarrow> 'b option" where
  "first_some f [] = None"
| "first_some f (x # xs) = (case f x of Some y \<Rightarrow> Some y | None \<Rightarrow> first_some f xs)"

lemma first_some_None_iff: "first_some f xs = None \<longleftrightarrow> (\<forall>x \<in> set xs. f x = None)"
  by (induction xs) (auto split: option.splits)

lemma first_some_SomeD: "first_some f xs = Some y \<Longrightarrow> \<exists>x \<in> set xs. f x = Some y"
  by (induction xs) (auto split: option.splits)

lemma first_some_append:
  "first_some f (xs @ ys) = (case first_some f xs of Some y \<Rightarrow> Some y | None \<Rightarrow> first_some f ys)"
  by (induction xs) (auto split: option.split)

lemma first_some_concat: "first_some f (concat xss) = first_some (first_some f) xss"
  by (induction xss) (auto simp: first_some_append split: option.split)

lemma first_some_map: "first_some f (map g xs) = first_some (f \<circ> g) xs"
  by (induction xs) (auto split: option.split)

lemma first_some_filter:
  "first_some f (filter P xs) = first_some (\<lambda>x. if P x then f x else None) xs"
  by (induction xs) (auto split: option.split)

text \<open>Where all results of the body agree, the order of the loop does not matter.\<close>

lemma first_some_set_cong:
  assumes "set xs = set ys"
    and "\<And>x y. x \<in> set ys \<Longrightarrow> y \<in> set ys \<Longrightarrow> f x \<noteq> None \<Longrightarrow> f y \<noteq> None \<Longrightarrow> f x = f y"
  shows "first_some f xs = first_some f ys"
proof (cases "first_some f ys")
  case None
  with assms(1) show ?thesis by (metis first_some_None_iff)
next
  case (Some v)
  then have "first_some f xs \<noteq> None"
    using assms(1) by (metis first_some_None_iff option.distinct(1))
  then obtain w where "first_some f xs = Some w" by blast
  with Some assms show ?thesis by (metis first_some_SomeD option.distinct(1))
qed

text \<open>A loop that only returns errors, then the code after it.\<close>

definition and_then :: "goerror option \<Rightarrow> goerror option \<Rightarrow> goerror option" where
  "and_then a b = (case a of Some e \<Rightarrow> Some e | None \<Rightarrow> b)"

lemma and_then_None_iff [simp]: "and_then a b = None \<longleftrightarrow> a = None \<and> b = None"
  by (simp add: and_then_def split: option.split)

text \<open>A loop that carries a state along and may return an error from inside its body.\<close>

fun fold_err :: "('s \<Rightarrow> 'a \<Rightarrow> goerror + 's) \<Rightarrow> 's \<Rightarrow> 'a list \<Rightarrow> goerror + 's" where
  "fold_err f s [] = Inr s"
| "fold_err f s (x # xs) = (case f s x of Inl e \<Rightarrow> Inl e | Inr s' \<Rightarrow> fold_err f s' xs)"

text \<open>The error of such a loop, or what comes after it.\<close>

definition error_of :: "goerror + 's \<Rightarrow> goerror option" where
  "error_of r = (case r of Inl e \<Rightarrow> Some e | Inr _ \<Rightarrow> None)"

lemma error_of_simps [simp]: "error_of (Inl e) = Some e" "error_of (Inr s) = None"
  by (simp_all add: error_of_def)

text \<open>
  A loop that looks for a bad or a repeated element: it collects the keys it has seen in a map
  from strings to nothing, here the list of keys.
\<close>

definition unique_step ::
  "('a \<Rightarrow> goerror option) \<Rightarrow> ('a \<Rightarrow> string) \<Rightarrow> ('a \<Rightarrow> goerror) \<Rightarrow> string list \<Rightarrow> 'a \<Rightarrow>
    goerror + string list" where
  "unique_step check key dup seen x =
     (case check x of
        Some e \<Rightarrow> Inl e
      | None \<Rightarrow> if key x \<in> set seen then Inl (dup x) else Inr (key x # seen))"

lemma unique_loop_Inr_iff:
  "fold_err (unique_step check key dup) seen xs = Inr seen' \<longleftrightarrow>
     list_all (\<lambda>x. check x = None) xs \<and> distinct (map key xs) \<and> set (map key xs) \<inter> set seen = {} \<and>
     seen' = rev (map key xs) @ seen"
  by (induction xs arbitrary: seen) (auto simp: unique_step_def split: option.splits)

lemma unique_loop_ok_iff:
  "error_of (fold_err (unique_step check key dup) [] xs) = None \<longleftrightarrow>
     list_all (\<lambda>x. check x = None) xs \<and> distinct (map key xs)"
proof -
  have "error_of r = None \<longleftrightarrow> (\<exists>s. r = Inr s)" for r :: "goerror + string list"
    by (cases r) simp_all
  then show ?thesis
    by (simp add: unique_loop_Inr_iff)
qed

lemma unique_loop_then:
  "(case fold_err (unique_step check key dup) seen xs of Inl e \<Rightarrow> Some e | Inr seen' \<Rightarrow> rest seen') = None \<longleftrightarrow>
     list_all (\<lambda>x. check x = None) xs \<and> distinct (map key xs) \<and> set (map key xs) \<inter> set seen = {} \<and>
     rest (rev (map key xs) @ seen) = None"
proof (cases "fold_err (unique_step check key dup) seen xs")
  case (Inl e)
  then have "fold_err (unique_step check key dup) seen xs \<noteq> Inr (rev (map key xs) @ seen)" by simp
  with Inl show ?thesis unfolding unique_loop_Inr_iff by auto
next
  case (Inr s)
  then have "list_all (\<lambda>x. check x = None) xs \<and> distinct (map key xs) \<and>
      set (map key xs) \<inter> set seen = {} \<and> s = rev (map key xs) @ seen"
    by (simp only: unique_loop_Inr_iff)
  with Inr show ?thesis by simp
qed

text \<open>Two nested loops over the indices of a list, for every pair of different positions.\<close>

lemma pairs_iff:
  "(\<forall>(i, x) \<in> set (List.enumerate 0 xs). \<forall>(j, y) \<in> set (List.enumerate 0 xs). i \<noteq> j \<longrightarrow> P x y) \<longleftrightarrow>
     (\<forall>i < length xs. \<forall>j < length xs. i \<noteq> j \<longrightarrow> P (xs ! i) (xs ! j))"
proof -
  have "(i, x) \<in> set (List.enumerate 0 xs) \<longleftrightarrow> i < length xs \<and> x = xs ! i" for i x
    by (auto simp: in_set_enumerate_eq)
  then show ?thesis
    by (auto simp: Ball_def split_paired_All)
qed

lemma enumerate_all: "(\<forall>(i, x) \<in> set (List.enumerate 0 xs). P x) \<longleftrightarrow> list_all P xs"
proof -
  have "(i, x) \<in> set (List.enumerate 0 xs) \<longleftrightarrow> i < length xs \<and> x = xs ! i" for i x
    by (auto simp: in_set_enumerate_eq)
  then show ?thesis
    by (auto simp: Ball_def split_paired_All list_all_length)
qed

section \<open>Go maps\<close>

type_synonym ('k, 'v) gomap = "('k \<times> 'v) list"

text \<open>Reading a map of strings: a missing key reads as the empty string.\<close>

definition str_get :: "('k, string) gomap \<Rightarrow> 'k \<Rightarrow> string" where
  "str_get m k = (case map_of m k of None \<Rightarrow> '''' | Some v \<Rightarrow> v)"

text \<open>Reading a map of slices: a missing key reads as the nil slice.\<close>

definition slice_get :: "('k, 'v list) gomap \<Rightarrow> 'k \<Rightarrow> 'v list" where
  "slice_get m k = (case map_of m k of None \<Rightarrow> [] | Some v \<Rightarrow> v)"

definition has_key :: "('k, 'v) gomap \<Rightarrow> 'k \<Rightarrow> bool" where
  "has_key m k = (map_of m k \<noteq> None)"

lemma has_key_iff: "has_key m k \<longleftrightarrow> k \<in> fst ` set m"
  by (simp add: has_key_def map_of_eq_None_iff)

lemma has_key_set: "has_key m k \<longleftrightarrow> k \<in> dom (map_of m)"
  by (auto simp: has_key_def)

lemma map_of_update [gomap_simps, simp]: "map_of (AList.update k v m) = (map_of m)(k \<mapsto> v)"
  by (simp add: update_conv')

lemma map_of_delete [gomap_simps, simp]: "map_of (AList.delete k m) = (map_of m)(k := None)"
  by (simp add: delete_conv')

lemma has_key_update [gomap_simps, simp]:
  "has_key (AList.update k v m) j \<longleftrightarrow> j = k \<or> has_key m j"
  by (simp add: has_key_def)

lemma has_key_delete [gomap_simps, simp]:
  "has_key (AList.delete k m) j \<longleftrightarrow> j \<noteq> k \<and> has_key m j"
  by (simp add: has_key_def)

lemma map_of_filter_key:
  "map_of (filter (\<lambda>(k, v). P k) m) j = (if P j then map_of m j else None)"
  by (induction m) auto

lemma map_of_filter_entry:
  assumes "distinct (map fst m)"
  shows "map_of (filter P m) j =
    (case map_of m j of None \<Rightarrow> None | Some v \<Rightarrow> if P (j, v) then Some v else None)"
  using assms
proof (induction m)
  case Nil
  then show ?case by simp
next
  case (Cons e m)
  obtain k v where e: "e = (k, v)" by fastforce
  with Cons.prems have "map_of m k = None"
    by (simp add: map_of_eq_None_iff)
  with Cons e show ?case by auto
qed

lemma distinct_keys_filter:
  "distinct (map fst m) \<Longrightarrow> distinct (map fst (filter P m))"
  by (induction m) auto

lemma map_of_map_value:
  "map_of (map (\<lambda>(k, v). (k, f k v)) m) j = map_option (f j) (map_of m j)"
  by (induction m) auto

lemma map_of_mem_entry:
  "distinct (map fst m) \<Longrightarrow> (k, v) \<in> set m \<Longrightarrow> map_of m k = Some v"
  by simp

lemma set_update_subset: "set (AList.update k v m) \<subseteq> insert (k, v) (set m)"
  by (induction m) auto

lemma set_delete_subset: "set (AList.delete k m) \<subseteq> set m"
  by (induction m) auto

text \<open>
  An invariant of the entries of a map (\<open>entries_ok P m\<close>): the keys are distinct and every
  entry satisfies \<open>P\<close>. Storing a good entry, deleting and filtering keep it.
\<close>

definition entries_ok :: "('k \<Rightarrow> 'v \<Rightarrow> bool) \<Rightarrow> ('k, 'v) gomap \<Rightarrow> bool" where
  "entries_ok P m \<longleftrightarrow> distinct (map fst m) \<and> list_all (\<lambda>(k, v). P k v) m"

lemma entries_ok_Nil [simp]: "entries_ok P []"
  by (simp add: entries_ok_def)

lemma entries_ok_update [intro]:
  assumes "entries_ok P m" and "P k v"
  shows "entries_ok P (AList.update k v m)"
  using assms set_update_subset [of k v m]
  by (auto simp: entries_ok_def list_all_iff distinct_update)

lemma entries_ok_delete [intro]:
  "entries_ok P m \<Longrightarrow> entries_ok P (AList.delete k m)"
  using set_delete_subset [of k m]
  by (auto simp: entries_ok_def list_all_iff distinct_delete)

lemma entries_ok_filter [intro]:
  "entries_ok P m \<Longrightarrow> entries_ok P (filter Q m)"
  by (auto simp: entries_ok_def list_all_iff distinct_keys_filter)

lemma entries_ok_lookup:
  "entries_ok P m \<Longrightarrow> map_of m k = Some v \<Longrightarrow> P k v"
  by (auto simp: entries_ok_def list_all_iff dest: map_of_SomeD)

lemma entries_ok_distinct: "entries_ok P m \<Longrightarrow> distinct (map fst m)"
  by (simp add: entries_ok_def)

lemma entries_ok_member: "entries_ok P m \<Longrightarrow> (k, v) \<in> set m \<Longrightarrow> P k v"
  by (auto simp: entries_ok_def list_all_iff)

section \<open>Folds\<close>

lemma foldl_invariant:
  assumes "I a" and "\<And>s x. x \<in> set xs \<Longrightarrow> I s \<Longrightarrow> I (f s x)"
  shows "I (foldl f a xs)"
  using assms by (induction xs arbitrary: a) auto

lemma foldl_congruence:
  assumes "\<And>s x. x \<in> set xs \<Longrightarrow> f s x = g s x"
  shows "foldl f a xs = foldl g a xs"
  using assms by (induction xs arbitrary: a) auto

section \<open>Machine integers\<close>

text \<open>\<open>int32(x)\<close> of a 64-bit \<open>int\<close> keeps the low 32 bits; \<open>int\<close> is 64 bits wide.\<close>

definition to_int32 :: "int \<Rightarrow> 32 word" where
  "to_int32 z = word_of_int z"

lemma sint_to_int32:
  assumes "- (2 ^ 31) \<le> z" and "z < 2 ^ 31"
  shows "sint (to_int32 z) = z"
  using assms by (simp add: to_int32_def int_word_sint)

lemma sint_inject32: "sint (a :: 32 word) = sint b \<Longrightarrow> a = b"
  by (simp add: signed_word_eqI)

end
