(* ===== verification/GoStrings.thy ===== *)
theory GoStrings
  imports Prelude
begin

text \<open>
  The functions of Go's packages \<open>strings\<close>, \<open>strconv\<close> and \<open>fmt\<close> that the program calls,
  on byte strings (a \<open>string\<close> is a list of bytes, as in Go), with the facts the components
  use: printing and reading decimal numbers are inverse, an address \<open>ip:port\<close> determines
  its port, and splitting, trimming and field splitting on text the program writes itself.
\<close>

section \<open>Prefixes, suffixes and substrings\<close>

definition HasPrefix :: "string \<Rightarrow> string \<Rightarrow> bool" where
  "HasPrefix s p \<longleftrightarrow> take (length p) s = p"

definition HasSuffix :: "string \<Rightarrow> string \<Rightarrow> bool" where
  "HasSuffix s p \<longleftrightarrow> HasPrefix (rev s) (rev p)"

definition TrimPrefix :: "string \<Rightarrow> string \<Rightarrow> string" where
  "TrimPrefix s p = (if HasPrefix s p then drop (length p) s else s)"

definition TrimSuffix :: "string \<Rightarrow> string \<Rightarrow> string" where
  "TrimSuffix s p = (if HasSuffix s p then take (length s - length p) s else s)"

text \<open>\<open>strings.Contains\<close>, \<open>strings.Split\<close>, \<open>strings.Cut\<close> for a separator of one byte.\<close>

definition ContainsByte :: "string \<Rightarrow> char \<Rightarrow> bool" where
  "ContainsByte s c \<longleftrightarrow> c \<in> set s"

fun Split :: "string \<Rightarrow> char \<Rightarrow> string list" where
  "Split [] c = [[]]"
| "Split (x # xs) c =
     (if x = c then [] # Split xs c
      else (case Split xs c of [] \<Rightarrow> [[x]] | y # ys \<Rightarrow> (x # y) # ys))"

fun Cut :: "string \<Rightarrow> char \<Rightarrow> (string \<times> string) option" where
  "Cut [] c = None"
| "Cut (x # xs) c =
     (if x = c then Some ([], xs)
      else (case Cut xs c of None \<Rightarrow> None | Some (a, b) \<Rightarrow> Some (x # a, b)))"

text \<open>\<open>strings.LastIndex\<close> with the string cut there: what precedes and what follows.\<close>

definition CutLast :: "string \<Rightarrow> char \<Rightarrow> (string \<times> string) option" where
  "CutLast s c = (case Cut (rev s) c of None \<Rightarrow> None | Some (a, b) \<Rightarrow> Some (rev b, rev a))"

text \<open>\<open>strings.Trim\<close> with a set of one-byte characters.\<close>

definition Trim :: "string \<Rightarrow> string \<Rightarrow> string" where
  "Trim s cutset =
     rev (dropWhile (\<lambda>c. c \<in> set cutset) (rev (dropWhile (\<lambda>c. c \<in> set cutset) s)))"

section \<open>White space\<close>

text \<open>The UTF-8 encodings of the code points that \<open>unicode.IsSpace\<close> accepts.\<close>

definition go_spaces :: "string list" where
  "go_spaces =
    [[CHR 0x09],
     [CHR 0x0A],
     [CHR 0x0B],
     [CHR 0x0C],
     [CHR 0x0D],
     [CHR 0x20],
     [CHR 0xC2, CHR 0x85],
     [CHR 0xC2, CHR 0xA0],
     [CHR 0xE1, CHR 0x9A, CHR 0x80],
     [CHR 0xE2, CHR 0x80, CHR 0x80],
     [CHR 0xE2, CHR 0x80, CHR 0x81],
     [CHR 0xE2, CHR 0x80, CHR 0x82],
     [CHR 0xE2, CHR 0x80, CHR 0x83],
     [CHR 0xE2, CHR 0x80, CHR 0x84],
     [CHR 0xE2, CHR 0x80, CHR 0x85],
     [CHR 0xE2, CHR 0x80, CHR 0x86],
     [CHR 0xE2, CHR 0x80, CHR 0x87],
     [CHR 0xE2, CHR 0x80, CHR 0x88],
     [CHR 0xE2, CHR 0x80, CHR 0x89],
     [CHR 0xE2, CHR 0x80, CHR 0x8A],
     [CHR 0xE2, CHR 0x80, CHR 0xA8],
     [CHR 0xE2, CHR 0x80, CHR 0xA9],
     [CHR 0xE2, CHR 0x80, CHR 0xAF],
     [CHR 0xE2, CHR 0x81, CHR 0x9F],
     [CHR 0xE3, CHR 0x80, CHR 0x80]]"

text \<open>
  Remove the given byte sequences from the front as long as one of them is there. An empty
  sequence is never removed, so every step shortens the text.
\<close>

function strip_front :: "string list \<Rightarrow> string \<Rightarrow> string" where
  "strip_front ps s =
     (case find (\<lambda>p. p \<noteq> [] \<and> HasPrefix s p) ps of
        None \<Rightarrow> s
      | Some p \<Rightarrow> strip_front ps (drop (length p) s))"
  by pat_completeness auto
termination
proof (relation "measure (\<lambda>(ps, s). length s)")
  show "wf (measure (\<lambda>(ps, s). length s))" by simp
next
  fix ps s p
  assume "find (\<lambda>p. p \<noteq> [] \<and> HasPrefix s p) ps = Some p"
  then have "p \<noteq> []" and "HasPrefix s p" by (auto simp: find_Some_iff)
  then have "0 < length p" and "s \<noteq> []" by (auto simp: HasPrefix_def)
  then show "((ps, drop (length p) s), (ps, s)) \<in> measure (\<lambda>(ps, s). length s)" by simp
qed

declare strip_front.simps [simp del]

definition TrimSpace :: "string \<Rightarrow> string" where
  "TrimSpace s = rev (strip_front (map rev go_spaces) (rev (strip_front go_spaces s)))"

text \<open>
  \<open>strings.Fields\<close>: the maximal runs of bytes that are not white space. \<open>cur\<close> is the field
  being read. A white space code point of several bytes starts with a byte that no other
  code point contains, so looking for it byte by byte finds exactly the code points.
\<close>

function fields_from :: "string \<Rightarrow> string \<Rightarrow> string list" where
  "fields_from cur s =
     (case s of
        [] \<Rightarrow> (if cur = [] then [] else [cur])
      | c # cs \<Rightarrow>
          (case find (\<lambda>p. p \<noteq> [] \<and> HasPrefix s p) go_spaces of
             None \<Rightarrow> fields_from (cur @ [c]) cs
           | Some p \<Rightarrow>
               (if cur = [] then [] else [cur]) @ fields_from [] (drop (length p) s)))"
  by pat_completeness auto
termination
proof (relation "measure (\<lambda>(cur, s). length s)")
  show "wf (measure (\<lambda>(cur, s). length s))" by simp
next
  fix cur s c cs
  assume "s = c # cs"
  then show "((cur @ [c], cs), (cur, s)) \<in> measure (\<lambda>(cur, s). length s)" by simp
next
  fix cur s c cs p
  assume "s = c # cs" and "find (\<lambda>p. p \<noteq> [] \<and> HasPrefix s p) go_spaces = Some p"
  then have "p \<noteq> []" and "s \<noteq> []" by (auto simp: find_Some_iff)
  then show "(([], drop (length p) s), (cur, s)) \<in> measure (\<lambda>(cur, s). length s)" by simp
qed

declare fields_from.simps [simp del]

definition Fields :: "string \<Rightarrow> string list" where
  "Fields s = fields_from [] s"

section \<open>Decimal numbers\<close>

definition is_digit :: "char \<Rightarrow> bool" where
  "is_digit c \<longleftrightarrow> 48 \<le> (of_char c :: nat) \<and> (of_char c :: nat) \<le> 57"

definition digit_char :: "nat \<Rightarrow> char" where
  "digit_char d = char_of (48 + d)"

definition digit_value :: "char \<Rightarrow> nat" where
  "digit_value c = of_char c - 48"

fun nat_dec :: "nat \<Rightarrow> string" where
  "nat_dec n = (if n < 10 then [digit_char n] else nat_dec (n div 10) @ [digit_char (n mod 10)])"

declare nat_dec.simps [simp del]

text \<open>The \<open>%d\<close> verb, and \<open>strconv.Itoa\<close>.\<close>

definition int_dec :: "int \<Rightarrow> string" where
  "int_dec i = (if i < 0 then CHR ''-'' # nat_dec (nat (- i)) else nat_dec (nat i))"

definition dec_value :: "string \<Rightarrow> nat" where
  "dec_value s = foldl (\<lambda>a c. 10 * a + digit_value c) 0 s"

text \<open>\<open>strconv.ParseInt(s, 10, bits)\<close>: \<open>None\<close> where it returns an error.\<close>

definition ParseInt :: "nat \<Rightarrow> string \<Rightarrow> int option" where
  "ParseInt bits s =
     (let neg = (s \<noteq> [] \<and> hd s = CHR ''-'');
          ds = (if s \<noteq> [] \<and> (hd s = CHR ''-'' \<or> hd s = CHR ''+'') then tl s else s);
          v = dec_value ds
      in if ds = [] \<or> \<not> list_all is_digit ds then None
         else if neg then (if v \<le> 2 ^ (bits - 1) then Some (- int v) else None)
         else (if v < 2 ^ (bits - 1) then Some (int v) else None))"

text \<open>\<open>strconv.Atoi\<close>: \<open>int\<close> has 64 bits.\<close>

definition Atoi :: "string \<Rightarrow> int option" where
  "Atoi s = ParseInt 64 s"

section \<open>Case folding\<close>

text \<open>
  \<open>strings.ToLower\<close>: the ASCII letters, and the two other code points whose lower case is an
  ASCII letter (U+0130 and U+212A). Other code points stay outside ASCII; their own lower
  case is not modelled.
\<close>

definition lower_byte :: "char \<Rightarrow> char" where
  "lower_byte c =
     (if 65 \<le> (of_char c :: nat) \<and> (of_char c :: nat) \<le> 90 then char_of (of_char c + 32 :: nat) else c)"

function ToLower :: "string \<Rightarrow> string" where
  "ToLower s =
     (if s = [] then []
      else if HasPrefix s [CHR 0xC4, CHR 0xB0] then CHR ''i'' # ToLower (drop 2 s)
      else if HasPrefix s [CHR 0xE2, CHR 0x84, CHR 0xAA] then CHR ''k'' # ToLower (drop 3 s)
      else lower_byte (hd s) # ToLower (tl s))"
  by pat_completeness auto
termination
  by (relation "measure length") auto

declare ToLower.simps [simp del]

section \<open>Facts about decimal numbers\<close>

lemma of_digit_char [simp]: "d < 10 \<Longrightarrow> (of_char (digit_char d) :: nat) = 48 + d"
  by (simp add: digit_char_def)

lemma is_digit_digit_char [simp]: "d < 10 \<Longrightarrow> is_digit (digit_char d)"
  by (simp add: is_digit_def)

lemma digit_value_digit_char [simp]: "d < 10 \<Longrightarrow> digit_value (digit_char d) = d"
  by (simp add: digit_value_def)

lemma nat_dec_not_Nil [simp]: "nat_dec n \<noteq> []"
  by (subst nat_dec.simps) simp

lemma nat_dec_digits: "list_all is_digit (nat_dec n)"
proof (induction n rule: nat_dec.induct)
  case (1 n)
  then show ?case by (subst nat_dec.simps) auto
qed

lemma dec_value_snoc [simp]: "dec_value (s @ [c]) = 10 * dec_value s + digit_value c"
  by (simp add: dec_value_def)

lemma dec_value_nat_dec [simp]: "dec_value (nat_dec n) = n"
proof (induction n rule: nat_dec.induct)
  case (1 n)
  show ?case
  proof (cases "n < 10")
    case True
    then show ?thesis by (subst nat_dec.simps) (simp add: dec_value_def)
  next
    case False
    with 1 show ?thesis by (subst nat_dec.simps) simp
  qed
qed

lemma nat_dec_inject [simp]: "nat_dec m = nat_dec n \<longleftrightarrow> m = n"
  by (metis dec_value_nat_dec)

lemma not_digit_byte:
  "(of_char c :: nat) < 48 \<or> 57 < (of_char c :: nat) \<Longrightarrow> \<not> is_digit c"
  by (auto simp: is_digit_def)

lemma nat_dec_hd_digit: "is_digit (hd (nat_dec n))"
  using nat_dec_digits [of n] by (cases "nat_dec n") auto

lemma nat_dec_no_sign: "hd (nat_dec n) \<noteq> CHR ''-''" "hd (nat_dec n) \<noteq> CHR ''+''"
  using nat_dec_hd_digit [of n] by (auto simp: is_digit_def)

lemma int_dec_inject [simp]: "int_dec i = int_dec j \<longleftrightarrow> i = j"
proof
  assume eq: "int_dec i = int_dec j"
  have "(i < 0) = (j < 0)"
    using eq nat_dec_no_sign by (metis int_dec_def list.sel(1))
  with eq show "i = j"
    by (auto simp: int_dec_def split: if_splits)
qed simp

lemma int_dec_bytes: "c \<in> set (int_dec i) \<Longrightarrow> c = CHR ''-'' \<or> is_digit c"
  using nat_dec_digits by (auto simp: int_dec_def list_all_iff split: if_splits)

lemma int_dec_not_Nil [simp]: "int_dec i \<noteq> []"
  by (simp add: int_dec_def)

text \<open>Reading back what \<open>%d\<close> printed.\<close>

lemma ParseInt_int_dec:
  assumes "- (2 ^ (bits - 1)) \<le> i" and "i < 2 ^ (bits - 1)"
  shows "ParseInt bits (int_dec i) = Some i"
proof (cases "i < 0")
  case True
  have "nat (- i) \<le> 2 ^ (bits - 1)"
    using assms(1) True by (simp add: nat_le_iff)
  with True nat_dec_digits show ?thesis
    by (simp add: int_dec_def ParseInt_def)
next
  case False
  have "nat i < 2 ^ (bits - 1)"
    using assms(2) False by (simp add: nat_less_iff)
  with False nat_dec_digits nat_dec_no_sign show ?thesis
    by (simp add: int_dec_def ParseInt_def)
qed

lemma ParseInt_int_dec_Some:
  assumes "ParseInt bits (int_dec i) = Some v"
  shows "v = i"
proof (cases "i < 0")
  case True
  with assms nat_dec_digits show ?thesis
    by (auto simp: int_dec_def ParseInt_def split: if_splits)
next
  case False
  with assms nat_dec_digits nat_dec_no_sign show ?thesis
    by (auto simp: int_dec_def ParseInt_def split: if_splits)
qed

lemma ParseInt_range:
  assumes "ParseInt bits s = Some i"
  shows "- (2 ^ (bits - 1)) \<le> i \<and> i < 2 ^ (bits - 1)"
proof -
  define k :: nat where "k = 2 ^ (bits - 1)"
  have k: "(2::int) ^ (bits - 1) = int k" and pos: "0 < k"
    by (simp_all add: k_def)
  show ?thesis
    unfolding k using assms pos
    by (auto simp: ParseInt_def Let_def k_def [symmetric] simp del: One_nat_def split: if_splits)
qed

section \<open>Facts about separators\<close>

text \<open>
  A text that ends in a separator and a part without that separator splits in one way only.
  This is why keys such as \<open>ip:port\<close> and \<open>namespace/name\<close> determine their parts.
\<close>

lemma sep_append_inject:
  assumes "c \<notin> set q" and "c \<notin> set q'"
  shows "q @ c # p = q' @ c # p' \<longleftrightarrow> q = q' \<and> p = p'"
  using assms
proof (induction q arbitrary: q')
  case Nil
  then show ?case by (cases q') auto
next
  case (Cons x q)
  then show ?case by (cases q') auto
qed

lemma append_sep_inject:
  assumes "c \<notin> set q" and "c \<notin> set q'"
  shows "p @ c # q = p' @ c # q' \<longleftrightarrow> p = p' \<and> q = q'"
proof -
  have "p @ c # q = p' @ c # q' \<longleftrightarrow> rev q @ c # rev p = rev q' @ c # rev p'"
    by (metis append.assoc append_Cons append_Nil rev.simps(2) rev_append rev_is_rev_conv)
  also have "\<dots> \<longleftrightarrow> rev q = rev q' \<and> rev p = rev p'"
    using assms by (intro sep_append_inject) auto
  finally show ?thesis by auto
qed

lemma Split_no_sep: "c \<notin> set s \<Longrightarrow> Split s c = [s]"
  by (induction s) auto

lemma Split_not_Nil [simp]: "Split s c \<noteq> []"
  by (cases s) (auto split: list.splits)

lemma Split_append_sep: "c \<notin> set p \<Longrightarrow> Split (p @ c # s) c = p # Split s c"
  by (induction p) auto

lemma Split_Cons_iff:
  "Split s c = a # b # r \<longleftrightarrow> (\<exists>s'. s = a @ c # s' \<and> c \<notin> set a \<and> Split s' c = b # r)"
proof
  show "Split s c = a # b # r \<Longrightarrow> \<exists>s'. s = a @ c # s' \<and> c \<notin> set a \<and> Split s' c = b # r"
  proof (induction s arbitrary: a)
    case Nil
    then show ?case by simp
  next
    case (Cons x s)
    show ?case
    proof (cases "x = c")
      case True
      with Cons.prems show ?thesis by auto
    next
      case False
      with Cons.prems obtain a' where "Split s c = a' # b # r" "a = x # a'"
        by (auto split: list.splits)
      with Cons.IH [of a'] False show ?thesis by auto
    qed
  qed
qed (auto simp: Split_append_sep)

lemma Split_single_iff: "Split s c = [a] \<longleftrightarrow> s = a \<and> c \<notin> set s"
proof
  show "Split s c = [a] \<Longrightarrow> s = a \<and> c \<notin> set s"
    by (induction s arbitrary: a) (auto split: list.splits if_splits)
qed (auto simp: Split_no_sep)

lemma Split_pair_iff:
  "Split s c = [a, b] \<longleftrightarrow> s = a @ c # b \<and> c \<notin> set a \<and> c \<notin> set b"
  by (auto simp: Split_Cons_iff Split_single_iff)

lemma Cut_append_sep: "c \<notin> set p \<Longrightarrow> Cut (p @ c # s) c = Some (p, s)"
  by (induction p) auto

lemma Cut_None_iff: "Cut s c = None \<longleftrightarrow> c \<notin> set s"
  by (induction s) (auto split: option.splits)

lemma CutLast_append_sep: "c \<notin> set s \<Longrightarrow> CutLast (p @ c # s) c = Some (p, s)"
  by (simp add: CutLast_def Cut_append_sep)

lemma HasPrefix_append [simp]: "HasPrefix (p @ s) p"
  by (simp add: HasPrefix_def)

lemma TrimPrefix_append [simp]: "TrimPrefix (p @ s) p = s"
  by (simp add: TrimPrefix_def)

lemma HasSuffix_append [simp]: "HasSuffix (s @ p) p"
  by (simp add: HasSuffix_def)

lemma TrimSuffix_append: "TrimSuffix (s @ p) p = s"
  by (simp add: TrimSuffix_def)

lemma HasPrefix_iff: "HasPrefix s p \<longleftrightarrow> (\<exists>t. s = p @ t)"
  by (metis HasPrefix_append HasPrefix_def append_take_drop_id)

section \<open>Evaluation\<close>

lemmas string_eval [go_eval] =
  HasPrefix_def HasSuffix_def TrimPrefix_def TrimSuffix_def ContainsByte_def CutLast_def Trim_def
  TrimSpace_def strip_front.simps go_spaces_def Fields_def fields_from.simps
  is_digit_def digit_char_def digit_value_def nat_dec.simps int_dec_def dec_value_def
  ParseInt_def Atoi_def lower_byte_def ToLower.simps char_of_def bit_Suc_0_iff bit_0

end
