(* ===== verification/DomainModel.thy ===== *)
theory DomainModel
  imports GoStrings
begin

text \<open>
  The data of \<open>internal/domain/model\<close>, \<open>internal/domain/config\<close> and the event types of
  \<open>internal/ports/kubernetes\<close>: one record per struct, with the struct's fields in its order.
  Ports are \<open>int32\<close> (a 32-bit word read with \<open>sint\<close>), weights are \<open>int\<close> (64 bits), both with
  Go's wrap-around. Durations and the other \<open>int\<close> fields of the configuration are only
  compared, never computed with, and are integers.
\<close>

type_synonym labels = "(string, string) gomap"

section \<open>Configuration\<close>

record default_backend =
  db_IP :: string
  db_Port :: "32 word"
  db_Weight :: "64 word"

record net_config =
  net_Source :: string
  net_Target :: string
  net_Mask :: int

record ip_config =
  ip_Source :: string
  ip_Target :: string

record global_net_replacement =
  gnr_Name :: string
  gnr_Nets :: "net_config list"

record global_ip_replacement =
  gir_Name :: string
  gir_IPs :: "ip_config list"

record global_ip_replacement_list =
  grl_Net :: "global_net_replacement list"
  grl_IP :: "global_ip_replacement list"

record address_config =
  addr_IP :: string
  addr_Port :: int

record ip_replacement_list =
  irl_Nets :: "net_config list"
  irl_IPs :: "ip_config list"
  irl_GlobalNets :: "string list"
  irl_GlobalIPs :: "string list"

record nginx_config =
  ngx_Type :: string
  ngx_Name :: string
  ngx_IPReplacement :: bool
  ngx_IPReplacementList :: ip_replacement_list
  ngx_Addresses :: "address_config list"
  ngx_ListAPI :: string
  ngx_AddAPI :: string
  ngx_RemoveAPI :: string
  ngx_UpstreamSyncPeriod :: int
  ngx_FailTimeout :: int
  ngx_RequestTimeout :: int
  ngx_Protocol :: string
  ngx_Hostname :: string
  ngx_CertPath :: string
  ngx_KeyPath :: string
  ngx_CAPath :: string
  ngx_Cert :: string
  ngx_Key :: string
  ngx_CA :: string
  ngx_RequestPoolSize :: int
  ngx_PruneOrphans :: bool
  ngx_AllowEmptyUpstream :: bool
  ngx_DefaultBackend :: "default_backend option"

record envoy_config =
  env_Type :: string
  env_Name :: string
  env_IPReplacement :: bool
  env_IPReplacementList :: ip_replacement_list
  env_Addresses :: "address_config list"
  env_UpstreamSyncPeriod :: int
  env_RequestTimeout :: int
  env_Protocol :: string
  env_Hostname :: string
  env_CertPath :: string
  env_KeyPath :: string
  env_CAPath :: string
  env_Cert :: string
  env_Key :: string
  env_CA :: string
  env_RequestPoolSize :: int
  env_PruneOrphans :: bool
  env_AllowEmptyUpstream :: bool
  env_DefaultBackend :: "default_backend option"

text \<open>
  The values of the interface \<open>LoadBalancerConfig\<close>: a configuration, or a pointer to one.
  A nil pointer is left out: every method has a value receiver, so calling any of them on it
  panics, and \<open>ApplyDefaultValues\<close> calls \<open>SetDefaults\<close> on each element first.
\<close>

datatype lb_config =
    NginxConfig nginx_config
  | NginxPtr nginx_config
  | EnvoyConfig envoy_config
  | EnvoyPtr envoy_config

record leader_election_config =
  le_Enabled :: bool
  le_LeaseName :: string
  le_LeaseNamespace :: string
  le_LeaseDuration :: int
  le_RenewDeadline :: int
  le_RetryPeriod :: int

record log_config =
  log_Enabled :: bool
  log_Level :: string
  log_Format :: string

record metrics_config =
  met_Enabled :: bool
  met_Port :: int
  met_URI :: string

record kubernetes_config =
  kub_ResyncPeriod :: int
  kub_KubernetesConfig :: string

record config =
  cfg_GlobalUpstreamSyncPeriod :: int
  cfg_LeaderElection :: leader_election_config
  cfg_Log :: log_config
  cfg_Metrics :: metrics_config
  cfg_Kubernetes :: kubernetes_config
  cfg_GlobalIPReplacementList :: global_ip_replacement_list
  cfg_LoadBalancers :: "lb_config list"
  cfg_RequestPoolSize :: int
  cfg_AllowEmptyUpstream :: bool
  cfg_DefaultBackend :: "default_backend option"

text \<open>The getters of the interface, for the constructors of \<open>lb_config\<close>.\<close>

fun GetName :: "lb_config \<Rightarrow> string" where
  "GetName (NginxConfig c) = ngx_Name c"
| "GetName (NginxPtr c) = ngx_Name c"
| "GetName (EnvoyConfig c) = env_Name c"
| "GetName (EnvoyPtr c) = env_Name c"

fun GetAddresses :: "lb_config \<Rightarrow> address_config list" where
  "GetAddresses (NginxConfig c) = ngx_Addresses c"
| "GetAddresses (NginxPtr c) = ngx_Addresses c"
| "GetAddresses (EnvoyConfig c) = env_Addresses c"
| "GetAddresses (EnvoyPtr c) = env_Addresses c"

fun GetIPReplacement :: "lb_config \<Rightarrow> bool" where
  "GetIPReplacement (NginxConfig c) = ngx_IPReplacement c"
| "GetIPReplacement (NginxPtr c) = ngx_IPReplacement c"
| "GetIPReplacement (EnvoyConfig c) = env_IPReplacement c"
| "GetIPReplacement (EnvoyPtr c) = env_IPReplacement c"

fun GetIPReplacementList :: "lb_config \<Rightarrow> ip_replacement_list" where
  "GetIPReplacementList (NginxConfig c) = ngx_IPReplacementList c"
| "GetIPReplacementList (NginxPtr c) = ngx_IPReplacementList c"
| "GetIPReplacementList (EnvoyConfig c) = env_IPReplacementList c"
| "GetIPReplacementList (EnvoyPtr c) = env_IPReplacementList c"

fun GetType :: "lb_config \<Rightarrow> string" where
  "GetType (NginxConfig c) = ngx_Type c"
| "GetType (NginxPtr c) = ngx_Type c"
| "GetType (EnvoyConfig c) = env_Type c"
| "GetType (EnvoyPtr c) = env_Type c"

fun GetHostName :: "lb_config \<Rightarrow> string" where
  "GetHostName (NginxConfig c) = ngx_Hostname c"
| "GetHostName (NginxPtr c) = ngx_Hostname c"
| "GetHostName (EnvoyConfig c) = env_Hostname c"
| "GetHostName (EnvoyPtr c) = env_Hostname c"

fun GetRequestPoolSize :: "lb_config \<Rightarrow> int" where
  "GetRequestPoolSize (NginxConfig c) = ngx_RequestPoolSize c"
| "GetRequestPoolSize (NginxPtr c) = ngx_RequestPoolSize c"
| "GetRequestPoolSize (EnvoyConfig c) = env_RequestPoolSize c"
| "GetRequestPoolSize (EnvoyPtr c) = env_RequestPoolSize c"

fun GetRequestTimeOut :: "lb_config \<Rightarrow> int" where
  "GetRequestTimeOut (NginxConfig c) = ngx_RequestTimeout c"
| "GetRequestTimeOut (NginxPtr c) = ngx_RequestTimeout c"
| "GetRequestTimeOut (EnvoyConfig c) = env_RequestTimeout c"
| "GetRequestTimeOut (EnvoyPtr c) = env_RequestTimeout c"

fun GetUpstreamSyncPeriod :: "lb_config \<Rightarrow> int" where
  "GetUpstreamSyncPeriod (NginxConfig c) = ngx_UpstreamSyncPeriod c"
| "GetUpstreamSyncPeriod (NginxPtr c) = ngx_UpstreamSyncPeriod c"
| "GetUpstreamSyncPeriod (EnvoyConfig c) = env_UpstreamSyncPeriod c"
| "GetUpstreamSyncPeriod (EnvoyPtr c) = env_UpstreamSyncPeriod c"

fun GetAllowEmptyUpstream :: "lb_config \<Rightarrow> bool" where
  "GetAllowEmptyUpstream (NginxConfig c) = ngx_AllowEmptyUpstream c"
| "GetAllowEmptyUpstream (NginxPtr c) = ngx_AllowEmptyUpstream c"
| "GetAllowEmptyUpstream (EnvoyConfig c) = env_AllowEmptyUpstream c"
| "GetAllowEmptyUpstream (EnvoyPtr c) = env_AllowEmptyUpstream c"

fun GetDefaultBackend :: "lb_config \<Rightarrow> default_backend option" where
  "GetDefaultBackend (NginxConfig c) = ngx_DefaultBackend c"
| "GetDefaultBackend (NginxPtr c) = ngx_DefaultBackend c"
| "GetDefaultBackend (EnvoyConfig c) = env_DefaultBackend c"
| "GetDefaultBackend (EnvoyPtr c) = env_DefaultBackend c"

section \<open>Model\<close>

record backend =
  be_IP :: string
  be_Port :: "32 word"
  be_Weight :: "64 word"

record node =
  node_Name :: string
  node_ClusterIP :: string
  node_InternalIP :: string
  node_ExternalIP :: string

record pod =
  pod_Name :: string
  pod_Namespace :: string
  pod_NodeName :: string
  pod_IP :: string
  pod_Status :: string
  pod_Ready :: bool
  pod_Labels :: labels

record service =
  svc_Name :: string
  svc_Namespace :: string
  svc_Labels :: labels
  svc_Selector :: labels
  svc_ServiceType :: string
  svc_NodePort :: "32 word"

record upstream =
  up_Name :: string
  up_LoadBalancer :: string
  up_Backends :: "backend list"
  up_Type :: string
  up_Config :: "lb_config option"
  up_PreserveExistingBackends :: bool

section \<open>Events\<close>

datatype event_type = EventTypeAdd | EventTypeUpdate | EventTypeDelete

record service_event =
  se_Type :: event_type
  se_Service :: service

record pod_event =
  pe_Type :: event_type
  pe_Pod :: pod

record node_event =
  ne_Type :: event_type
  ne_Node :: node

end
