(* ===== verification/BackendMerge.thy ===== *)
theory BackendMerge
  imports DomainModel
begin

text \<open>
  Merging backends: \<open>mergeBackends\<close> of \<open>internal/controller/controller.go\<close>. Both the
  controller and the NGINX adapter collect backends in a map from an address key to a backend
  and add up the weights of those with the same key; the locale \<open>weight_table\<close> is that shared
  contract, with its consequences for a whole list of backends proved once. The abstract
  specification \<open>merged\<close> says what the result is: one backend per address, in the order
  of the \<open>sort.Slice\<close> comparison, whose weight is the sum of the weights.
\<close>

section \<open>The comparison of the sort\<close>

text \<open>The \<open>less\<close> function given to \<open>sort.Slice\<close>, as the order of the type of addresses.\<close>

datatype address = Address (ad_IP: string) (ad_Port: "32 word")

instantiation address :: linorder
begin

definition less_address :: "address \<Rightarrow> address \<Rightarrow> bool" where
  "less_address a b \<longleftrightarrow>
     (if ad_IP a \<noteq> ad_IP b then ad_IP a < ad_IP b else sint (ad_Port a) < sint (ad_Port b))"

definition less_eq_address :: "address \<Rightarrow> address \<Rightarrow> bool" where
  "less_eq_address a b \<longleftrightarrow> a < b \<or> a = b" for a b :: address

instance
proof
  fix a b c :: address
  show "(a < b) = (a \<le> b \<and> \<not> b \<le> a)"
    by (auto simp: less_eq_address_def less_address_def split: if_splits)
  show "a \<le> a"
    by (simp add: less_eq_address_def)
  show "a \<le> b \<Longrightarrow> b \<le> c \<Longrightarrow> a \<le> c"
    by (auto simp: less_eq_address_def less_address_def split: if_splits)
  show "a \<le> b \<Longrightarrow> b \<le> a \<Longrightarrow> a = b"
    by (auto simp: less_eq_address_def less_address_def split: if_splits)
  show "a \<le> b \<or> b \<le> a"
    by (cases a; cases b)
      (auto simp: less_eq_address_def less_address_def not_less_iff_gr_or_eq
        dest: sint_inject32 split: if_splits)
qed

end

definition address_of :: "backend \<Rightarrow> address" where
  "address_of b = Address (be_IP b) (be_Port b)"

section \<open>The code\<close>

text \<open>The map key \<open>fmt.Sprintf("%s:%d", be.IP, be.Port)\<close>.\<close>

definition be_key :: "backend \<Rightarrow> string" where
  "be_key be = be_IP be @ CHR '':'' # int_dec (sint (be_Port be))"

text \<open>One iteration of either loop of \<open>mergeBackends\<close>.\<close>

definition mergeBackends_add ::
  "(string, backend) gomap \<Rightarrow> backend \<Rightarrow> (string, backend) gomap" where
  "mergeBackends_add m be =
     (case map_of m (be_key be) of
        Some existing \<Rightarrow>
          AList.update (be_key be) (existing\<lparr>be_Weight := be_Weight existing + be_Weight be\<rparr>) m
      | None \<Rightarrow> AList.update (be_key be) be m)"

text \<open>
  The two loops, the collection of the map's values in the order of its range loop, and the
  sort. \<open>sort.Slice\<close> is not stable, but no two values have the same address.
\<close>

definition mergeBackends :: "backend list \<Rightarrow> backend list \<Rightarrow> backend list" where
  "mergeBackends a b =
     (let m = foldl mergeBackends_add [] a;
          m = foldl mergeBackends_add m b;
          res = map snd m
      in sort_key address_of res)"

section \<open>Tables of weights\<close>

text \<open>
  A loop that stores backends in a map by a key: the first backend with a key is stored by
  \<open>ini\<close>, a later one adds its contribution to the weight of the stored one by \<open>bump\<close>.
\<close>

locale weight_table =
  fixes key :: "backend \<Rightarrow> string"
    and contrib :: "backend \<Rightarrow> 64 word"
    and ini :: "backend \<Rightarrow> backend"
    and bump :: "backend \<Rightarrow> backend \<Rightarrow> backend"
    and add :: "(string, backend) gomap \<Rightarrow> backend \<Rightarrow> (string, backend) gomap"
  assumes add_lookup: "map_of (add m b) =
      (map_of m)(key b \<mapsto> (case map_of m (key b) of None \<Rightarrow> ini b | Some e \<Rightarrow> bump e b))"
    and add_distinct: "distinct (map fst m) \<Longrightarrow> distinct (map fst (add m b))"
    and ini_weight: "be_Weight (ini b) = contrib b"
    and ini_port: "be_Port (ini b) = be_Port b"
    and ini_ip: "be_IP (ini b) = be_IP b"
    and bump_weight: "be_Weight (bump e b) = be_Weight e + contrib b"
    and bump_port: "be_Port (bump e b) = be_Port e"
    and bump_ip: "be_IP (bump e b) = be_IP e"
begin

lemma table_distinct: "distinct (map fst m) \<Longrightarrow> distinct (map fst (foldl add m bs))"
  by (induction bs arbitrary: m) (auto simp: add_distinct)

lemma table_key:
  "map_of (foldl add m bs) k \<noteq> None \<longleftrightarrow> map_of m k \<noteq> None \<or> k \<in> key ` set bs"
  by (induction bs arbitrary: m) (auto simp: add_lookup split: if_splits)

text \<open>The weight stored for a key, 0 where there is none.\<close>

definition weight_at :: "(string, backend) gomap \<Rightarrow> string \<Rightarrow> 64 word" where
  "weight_at m k = (case map_of m k of None \<Rightarrow> 0 | Some e \<Rightarrow> be_Weight e)"

lemma add_weight: "weight_at (add m b) k = weight_at m k + (if key b = k then contrib b else 0)"
  by (auto simp: weight_at_def add_lookup ini_weight bump_weight split: option.splits)

lemma table_weight:
  "weight_at (foldl add m bs) k = weight_at m k + sum_list (map contrib (filter (\<lambda>b. key b = k) bs))"
  by (induction bs arbitrary: m) (auto simp: add_weight add.assoc)

lemma table_weight_empty:
  "map_of (foldl add [] bs) k = Some e \<Longrightarrow>
   be_Weight e = sum_list (map contrib (filter (\<lambda>b. key b = k) bs))"
  using table_weight [of "[]" bs k] by (simp add: weight_at_def)

text \<open>The other fields of a stored backend are those of one that was added with its key.\<close>

lemma table_origin:
  assumes "map_of (foldl add m bs) k = Some e"
  shows "(\<exists>e0. map_of m k = Some e0 \<and> be_IP e = be_IP e0 \<and> be_Port e = be_Port e0) \<or>
    (\<exists>b \<in> set bs. key b = k \<and> be_IP e = be_IP b \<and> be_Port e = be_Port b)"
  using assms
proof (induction bs arbitrary: m)
  case Nil
  then show ?case by simp
next
  case (Cons b bs)
  from Cons.IH [of "add m b"] Cons.prems show ?case
    by (auto simp: add_lookup ini_ip ini_port bump_ip bump_port split: if_splits option.splits)
qed

lemma table_origin_empty:
  "map_of (foldl add [] bs) k = Some e \<Longrightarrow>
   \<exists>b \<in> set bs. key b = k \<and> be_IP e = be_IP b \<and> be_Port e = be_Port b"
  using table_origin [of "[]" bs k e] by simp

end

text \<open>The controller's loop is such a table.\<close>

definition be_bump :: "backend \<Rightarrow> backend \<Rightarrow> backend" where
  "be_bump e b = e\<lparr>be_Weight := be_Weight e + be_Weight b\<rparr>"

interpretation merge_table:
  weight_table be_key be_Weight "\<lambda>b. b" be_bump mergeBackends_add
  by unfold_locales
    (auto simp: mergeBackends_add_def be_bump_def distinct_update split: option.splits)

section \<open>Keys\<close>

lemma colon_not_in_int_dec [simp]: "CHR '':'' \<notin> set (int_dec i)"
  using int_dec_bytes [of "CHR '':''" i] by (auto simp: is_digit_def)

text \<open>The key of the map determines the address: no two addresses are merged by accident.\<close>

lemma be_key_inject: "be_key a = be_key b \<longleftrightarrow> address_of a = address_of b"
  by (auto simp: be_key_def address_of_def append_sep_inject dest: sint_inject32)

section \<open>The specification\<close>

text \<open>One backend per address, in order, with the sum of the weights (as 64-bit integers).\<close>

definition weight_of :: "backend list \<Rightarrow> address \<Rightarrow> 64 word" where
  "weight_of bs x = sum_list (map be_Weight (filter (\<lambda>b. address_of b = x) bs))"

definition backend_at :: "backend list \<Rightarrow> address \<Rightarrow> backend" where
  "backend_at bs x = \<lparr>be_IP = ad_IP x, be_Port = ad_Port x, be_Weight = weight_of bs x\<rparr>"

definition merged :: "backend list \<Rightarrow> backend list" where
  "merged bs = map (backend_at bs) (sorted_list_of_set (address_of ` set bs))"

lemma address_of_backend_at [simp]: "address_of (backend_at bs x) = x"
  by (simp add: backend_at_def address_of_def)

lemma mergeBackends_entry:
  assumes "(k, e) \<in> set (foldl mergeBackends_add [] bs)"
  shows "k = be_key e \<and> e = backend_at bs (address_of e) \<and> address_of e \<in> address_of ` set bs"
proof -
  have "map_of (foldl mergeBackends_add [] bs) k = Some e"
    using assms merge_table.table_distinct [of "[]" bs] by simp
  then obtain b where b: "b \<in> set bs" "be_key b = k" "address_of e = address_of b"
    and w: "be_Weight e = sum_list (map be_Weight (filter (\<lambda>b. be_key b = k) bs))"
    using merge_table.table_origin_empty [of bs k e] merge_table.table_weight_empty [of bs k e]
    by (auto simp: address_of_def)
  then have k: "k = be_key e"
    using be_key_inject by metis
  then have "be_Weight e = weight_of bs (address_of e)"
    using w by (simp add: weight_of_def be_key_inject)
  then have "e = backend_at bs (address_of e)"
    by (cases e) (simp add: backend_at_def address_of_def)
  with k b show ?thesis by auto
qed

lemma mergeBackends_addresses:
  "address_of ` set (map snd (foldl mergeBackends_add [] bs)) = address_of ` set bs"
proof (intro equalityI subsetI)
  fix x
  assume "x \<in> address_of ` set (map snd (foldl mergeBackends_add [] bs))"
  then show "x \<in> address_of ` set bs"
    using mergeBackends_entry by force
next
  fix x
  assume "x \<in> address_of ` set bs"
  then obtain b where "b \<in> set bs" and x: "x = address_of b" by auto
  then have "map_of (foldl mergeBackends_add [] bs) (be_key b) \<noteq> None"
    using merge_table.table_key [of "[]" bs "be_key b"] by auto
  then obtain e where e: "(be_key b, e) \<in> set (foldl mergeBackends_add [] bs)"
    by (auto dest: map_of_SomeD)
  then have "address_of e = x"
    using mergeBackends_entry [OF e] x be_key_inject by metis
  with e show "x \<in> address_of ` set (map snd (foldl mergeBackends_add [] bs))"
    by force
qed

lemma mergeBackends_distinct:
  "distinct (map address_of (map snd (foldl mergeBackends_add [] bs)))"
proof -
  let ?m = "foldl mergeBackends_add [] bs"
  have keys: "map (be_key \<circ> snd) ?m = map fst ?m"
    using mergeBackends_entry by (auto simp: map_eq_conv)
  have "distinct (map (be_key \<circ> snd) ?m)"
    unfolding keys by (rule merge_table.table_distinct) simp
  then have "distinct (map be_key (map snd ?m))" by simp
  then show ?thesis
    by (auto simp: distinct_map inj_on_def be_key_inject)
qed

text \<open>
  Two lists with the same elements, sorted by a key that tells the elements apart, are the
  same: the order of the map's range loop does not matter.
\<close>

lemma sort_key_unique:
  fixes f :: "'a \<Rightarrow> 'b::linorder"
  assumes "distinct (map f xs)" and "set xs = g ` A" and "finite A" and "\<And>x. x \<in> A \<Longrightarrow> f (g x) = x"
  shows "sort_key f xs = map g (sorted_list_of_set A)"
proof -
  have fxs: "f ` set xs = A"
    using assms(2,4) by force
  have "map f (sort_key f xs) = sorted_list_of_set A"
    using assms(1) fxs
    by (intro sorted_distinct_set_unique) (auto simp: distinct_map distinct_sort inj_on_def)
  moreover have "map (g \<circ> f) (sort_key f xs) = sort_key f xs"
    using assms(2,4) by (intro map_idI) auto
  ultimately show ?thesis
    by (metis map_map)
qed

lemma mergeBackends_merged: "mergeBackends a b = merged (a @ b)"
proof -
  let ?m = "foldl mergeBackends_add [] (a @ b)"
  have "set (map snd ?m) = backend_at (a @ b) ` address_of ` set (a @ b)"
  proof -
    have "set (map snd ?m) = backend_at (a @ b) ` address_of ` set (map snd ?m)"
      using mergeBackends_entry [where bs = "a @ b"] by (force simp: image_iff)
    then show ?thesis
      by (simp only: mergeBackends_addresses)
  qed
  then have "sort_key address_of (map snd ?m) = merged (a @ b)"
    unfolding merged_def using mergeBackends_distinct [of "a @ b"]
    by (intro sort_key_unique) (auto simp del: map_map)
  then show ?thesis
    by (simp add: mergeBackends_def)
qed

section \<open>Consequences\<close>

lemma weight_of_append [simp]: "weight_of (xs @ ys) x = weight_of xs x + weight_of ys x"
  by (simp add: weight_of_def)

lemma weight_of_absent: "x \<notin> address_of ` set bs \<Longrightarrow> weight_of bs x = 0"
  by (induction bs) (auto simp: weight_of_def)

lemma address_of_merged [simp]: "map address_of (merged bs) = sorted_list_of_set (address_of ` set bs)"
  by (simp add: merged_def o_def)

lemma addresses_merged [simp]: "address_of ` set (merged bs) = address_of ` set bs"
  by (metis address_of_merged finite_imageI finite_set set_map set_sorted_list_of_set)

lemma merged_member: "b \<in> set (merged bs) \<longleftrightarrow> (\<exists>x \<in> address_of ` set bs. b = backend_at bs x)"
  by (auto simp: merged_def)

lemma weight_of_filter_distinct:
  assumes "distinct (map address_of bs)" and "b \<in> set bs"
  shows "weight_of bs (address_of b) = be_Weight b"
  using assms
proof (induction bs)
  case Nil
  then show ?case by simp
next
  case (Cons a bs)
  show ?case
  proof (cases "a = b")
    case True
    with Cons.prems have "address_of b \<notin> address_of ` set bs" by simp
    with True show ?thesis
      using weight_of_absent [of "address_of b" bs] by (simp add: weight_of_def)
  next
    case False
    with Cons have "address_of a \<noteq> address_of b" by force
    with Cons False show ?thesis by (simp add: weight_of_def)
  qed
qed

lemma weight_of_merged [simp]: "weight_of (merged bs) x = weight_of bs x"
proof (cases "x \<in> address_of ` set bs")
  case True
  then have "backend_at bs x \<in> set (merged bs)" by (auto simp: merged_member)
  moreover have "distinct (map address_of (merged bs))" by simp
  ultimately have "weight_of (merged bs) (address_of (backend_at bs x)) = be_Weight (backend_at bs x)"
    by (rule weight_of_filter_distinct [rotated])
  then show ?thesis by (simp add: backend_at_def address_of_def)
next
  case False
  then show ?thesis
    using weight_of_absent [of x bs] weight_of_absent [of x "merged bs"] by simp
qed

lemma merged_cong:
  assumes "address_of ` set xs = address_of ` set ys" and "\<And>x. weight_of xs x = weight_of ys x"
  shows "merged xs = merged ys"
  using assms by (simp add: merged_def backend_at_def)

lemma merged_empty_iff [simp]: "merged bs = [] \<longleftrightarrow> bs = []"
  by (simp add: merged_def sorted_list_of_set_eq_Nil_iff)

lemma mergeBackends_empty_iff [simp]: "mergeBackends a b = [] \<longleftrightarrow> a = [] \<and> b = []"
  by (simp add: mergeBackends_merged)

lemma addresses_merged_simps [simp]:
  "address_of ` set (merged xs @ ys) = address_of ` set (xs @ ys)"
  "address_of ` set (ys @ merged xs) = address_of ` set (ys @ xs)"
  by (simp_all add: image_Un)

lemma merged_merged [simp]:
  "merged (merged xs) = merged xs" "merged (merged xs @ ys) = merged (xs @ ys)"
  "merged (ys @ merged xs) = merged (ys @ xs)"
  by (rule merged_cong; simp add: image_Un)+

lemma merged_mset: "mset xs = mset ys \<Longrightarrow> merged xs = merged ys"
proof (rule merged_cong)
  assume same: "mset xs = mset ys"
  then show "address_of ` set xs = address_of ` set ys"
    by (metis set_mset_mset)
  show "weight_of xs x = weight_of ys x" for x
  proof -
    have "mset (map be_Weight (filter (\<lambda>b. address_of b = x) xs)) =
        mset (map be_Weight (filter (\<lambda>b. address_of b = x) ys))"
      using same by (simp add: mset_filter)
    then show ?thesis
      unfolding weight_of_def by (metis sum_mset_sum_list)
  qed
qed

lemma sum_weights_addresses:
  assumes "finite A" and "address_of ` set bs \<subseteq> A"
  shows "sum_list (map be_Weight bs) = (\<Sum>x\<in>A. weight_of bs x)"
  using assms
proof (induction bs)
  case Nil
  then show ?case by (simp add: weight_of_def)
next
  case (Cons b bs)
  have "(\<Sum>x\<in>A. weight_of (b # bs) x) =
      (\<Sum>x\<in>A. (if x = address_of b then be_Weight b else 0) + weight_of bs x)"
    by (intro sum.cong) (auto simp: weight_of_def)
  also have "\<dots> = be_Weight b + (\<Sum>x\<in>A. weight_of bs x)"
    using Cons.prems by (simp add: sum.distrib)
  finally show ?case using Cons by simp
qed

lemma sum_weights_merged: "sum_list (map be_Weight (merged bs)) = sum_list (map be_Weight bs)"
proof -
  let ?A = "address_of ` set bs"
  have "sum_list (map be_Weight (merged bs)) = (\<Sum>x\<in>?A. weight_of (merged bs) x)"
    by (rule sum_weights_addresses) auto
  also have "\<dots> = sum_list (map be_Weight bs)"
    using sum_weights_addresses [of ?A bs] by simp
  finally show ?thesis .
qed

section \<open>Properties\<close>

text \<open>
  C4: \<open>mergeBackends\<close> computes its specification: the result has one backend for each address
  (IP and port) that occurs in either argument, in the order of the sort, and the weight of
  each is the sum of the weights of the backends with that address, as 64-bit integers.
\<close>

theorem mergeBackends_correct:
  "mergeBackends a b =
     map (\<lambda>x. \<lparr>be_IP = ad_IP x, be_Port = ad_Port x, be_Weight = weight_of (a @ b) x\<rparr>)
       (sorted_list_of_set (address_of ` set (a @ b)))"
  by (simp add: mergeBackends_merged merged_def backend_at_def)

text \<open>
  The order in which Go's range loop visits the map inside \<open>mergeBackends\<close> does not
  matter: sorting the values of the map in any order gives the same list.
\<close>

lemma mergeBackends_range_order:
  assumes "mset entries = mset (foldl mergeBackends_add (foldl mergeBackends_add [] a) b)"
  shows "sort_key address_of (map snd entries) = mergeBackends a b"
proof -
  let ?m = "foldl mergeBackends_add (foldl mergeBackends_add [] a) b"
  have same: "mset (map snd entries) = mset (map snd ?m)"
    using assms by (metis mset_map)
  have "distinct (map address_of (map snd ?m))"
    using mergeBackends_distinct [of "a @ b"] by simp
  then have "inj_on address_of (set (map snd ?m))"
    by (simp only: distinct_map)
  then have "inj_on address_of (set (map snd entries))"
    using same by (metis mset_eq_setD)
  then show ?thesis
    unfolding mergeBackends_def Let_def
    using same by (intro sort_key_inj_key_eq) simp_all
qed

lemma mergeBackends_range_order_witness:
  "let x = \<lparr>be_IP = ''10.0.0.2'', be_Port = 80, be_Weight = 1\<rparr>;
       y = \<lparr>be_IP = ''10.0.0.1'', be_Port = 80, be_Weight = 1\<rparr>
   in sort_key address_of (map snd [(be_key y, y), (be_key x, x)]) = mergeBackends [x] [y]"
  unfolding Let_def
  by (rule mergeBackends_range_order) (simp add: mergeBackends_add_def be_key_def add_mset_commute)

text \<open>
  C5: merging does not depend on the order or the grouping of the merged services: it is
  commutative and associative, merging a merged list again changes nothing, and the total
  weight is the sum of the weights that went in.
\<close>

theorem mergeBackends_laws:
  "mergeBackends a b = mergeBackends b a \<and>
   mergeBackends (mergeBackends a b) c = mergeBackends a (mergeBackends b c) \<and>
   mergeBackends (mergeBackends a b) [] = mergeBackends a b \<and>
   sum_list (map be_Weight (mergeBackends a b)) =
     sum_list (map be_Weight a) + sum_list (map be_Weight b)"
proof (intro conjI)
  show "mergeBackends a b = mergeBackends b a"
    unfolding mergeBackends_merged by (rule merged_cong) (auto simp: add.commute)
  show "mergeBackends (mergeBackends a b) c = mergeBackends a (mergeBackends b c)"
    unfolding mergeBackends_merged by (rule merged_cong) (auto simp: image_Un add.assoc)
  show "mergeBackends (mergeBackends a b) [] = mergeBackends a b"
    unfolding mergeBackends_merged by (rule merged_cong) auto
  show "sum_list (map be_Weight (mergeBackends a b)) =
      sum_list (map be_Weight a) + sum_list (map be_Weight b)"
    by (simp add: mergeBackends_merged sum_weights_merged)
qed

end
