(* ===== verification/GoNet.thy ===== *)
theory GoNet
  imports GoStrings
begin

unbundle bit_operations_syntax

text \<open>
  The parts of Go's packages \<open>net\<close> and \<open>net/netip\<close> that the program uses: parsing and
  printing IP addresses, CIDR networks, masks and containment, and \<open>host:port\<close> strings. As in
  Go, an IP address is a list of 4 or 16 bytes and the nil address is the empty list. The
  lemmas describe masks and containment bit by bit, in network order.
\<close>

type_synonym ip = "8 word list"

section \<open>Parsing addresses\<close>

datatype netip_addr = Addr4 ip | Addr6 ip (zone: string)

definition parse_octet :: "string \<Rightarrow> nat option" where
  "parse_octet s =
     (if s \<noteq> [] \<and> list_all is_digit s \<and> (1 < length s \<longrightarrow> hd s \<noteq> CHR ''0'') \<and> dec_value s \<le> 255
      then Some (dec_value s) else None)"

definition parseIPv4 :: "string \<Rightarrow> ip option" where
  "parseIPv4 s =
     (case map parse_octet (Split s CHR ''.'') of
        [Some a, Some b, Some c, Some d] \<Rightarrow> Some [of_nat a, of_nat b, of_nat c, of_nat d]
      | _ \<Rightarrow> None)"

definition hex_digit :: "char \<Rightarrow> nat option" where
  "hex_digit c =
     (let n = of_char c :: nat in
      if 48 \<le> n \<and> n \<le> 57 then Some (n - 48)
      else if 97 \<le> n \<and> n \<le> 102 then Some (n - 87)
      else if 65 \<le> n \<and> n \<le> 70 then Some (n - 55)
      else None)"

definition is_hex :: "char \<Rightarrow> bool" where
  "is_hex c \<longleftrightarrow> hex_digit c \<noteq> None"

definition hex_value :: "string \<Rightarrow> nat" where
  "hex_value s = foldl (\<lambda>a c. 16 * a + (case hex_digit c of None \<Rightarrow> 0 | Some d \<Rightarrow> d)) 0 s"

text \<open>
  The loop of \<open>netip.parseIPv6\<close>: the bytes read so far, the position of the ellipsis if there
  was one, and the text that is left. Each round reads a group of two bytes.
\<close>

function parseIPv6_loop ::
  "ip \<Rightarrow> nat option \<Rightarrow> string \<Rightarrow> (ip \<times> nat option \<times> string) option" where
  "parseIPv6_loop ip ell s =
     (if 16 \<le> length ip then Some (ip, ell, s)
      else
        let h = takeWhile is_hex s;
            rest = dropWhile is_hex s;
            ip' = ip @ [of_nat (hex_value h div 256), of_nat (hex_value h mod 256)]
        in
          if h = [] \<or> 4 < length h then None
          else if rest \<noteq> [] \<and> hd rest = CHR ''.'' then
            (if (ell = None \<and> length ip \<noteq> 12) \<or> 16 < length ip + 4 then None
             else (case parseIPv4 s of None \<Rightarrow> None | Some q \<Rightarrow> Some (ip @ q, ell, [])))
          else if rest = [] then Some (ip', ell, [])
          else if hd rest \<noteq> CHR '':'' \<or> tl rest = [] then None
          else if hd (tl rest) = CHR '':'' then
            (if ell \<noteq> None then None
             else if tl (tl rest) = [] then Some (ip', Some (length ip'), [])
             else parseIPv6_loop ip' (Some (length ip')) (tl (tl rest)))
          else parseIPv6_loop ip' ell (tl rest))"
  by pat_completeness auto
termination
  by (relation "measure (\<lambda>(ip, ell, s). 16 - length ip)") auto

declare parseIPv6_loop.simps [simp del]

definition parseIPv6_groups :: "string \<Rightarrow> ip option" where
  "parseIPv6_groups s =
     (let ell = (if HasPrefix s ''::'' then Some 0 else None);
          s = (if HasPrefix s ''::'' then drop 2 s else s)
      in if ell = Some 0 \<and> s = [] then Some (replicate 16 0)
         else (case parseIPv6_loop [] ell s of
                 None \<Rightarrow> None
               | Some (ip, ell, s) \<Rightarrow>
                   if s \<noteq> [] then None
                   else if length ip < 16 then
                     (case ell of
                        None \<Rightarrow> None
                      | Some e \<Rightarrow> Some (take e ip @ replicate (16 - length ip) 0 @ drop e ip))
                   else if ell \<noteq> None then None
                   else Some ip))"

definition parseIPv6 :: "string \<Rightarrow> netip_addr option" where
  "parseIPv6 s =
     (case Cut s CHR ''%'' of
        None \<Rightarrow> map_option (\<lambda>ip. Addr6 ip '''') (parseIPv6_groups s)
      | Some (t, z) \<Rightarrow>
          if z = [] then None else map_option (\<lambda>ip. Addr6 ip z) (parseIPv6_groups t))"

definition ParseAddr :: "string \<Rightarrow> netip_addr option" where
  "ParseAddr s =
     (case find (\<lambda>c. c = CHR ''.'' \<or> c = CHR '':'' \<or> c = CHR ''%'') s of
        None \<Rightarrow> None
      | Some c \<Rightarrow>
          if c = CHR ''.'' then map_option Addr4 (parseIPv4 s)
          else if c = CHR '':'' then parseIPv6 s
          else None)"

section \<open>Addresses and masks\<close>

definition v4InV6Prefix :: ip where
  "v4InV6Prefix = [0, 0, 0, 0, 0, 0, 0, 0, 0, 0, 255, 255]"

text \<open>\<open>net.ParseIP\<close>: always 16 bytes; an address with a zone is refused.\<close>

definition ParseIP :: "string \<Rightarrow> ip option" where
  "ParseIP s =
     (case ParseAddr s of
        None \<Rightarrow> None
      | Some (Addr4 q) \<Rightarrow> Some (v4InV6Prefix @ q)
      | Some (Addr6 ip z) \<Rightarrow> if z = [] then Some ip else None)"

definition To4 :: "ip \<Rightarrow> ip option" where
  "To4 ip =
     (if length ip = 4 then Some ip
      else if length ip = 16 \<and> take 12 ip = v4InV6Prefix then Some (drop 12 ip)
      else None)"

definition To16 :: "ip \<Rightarrow> ip option" where
  "To16 ip =
     (if length ip = 4 then Some (v4InV6Prefix @ ip)
      else if length ip = 16 then Some ip
      else None)"

fun mask_bytes :: "nat \<Rightarrow> nat \<Rightarrow> ip" where
  "mask_bytes n 0 = []"
| "mask_bytes n (Suc l) =
     (if 8 \<le> n then 255 # mask_bytes (n - 8) l else NOT (drop_bit n 255) # mask_bytes 0 l)"

definition CIDRMask :: "int \<Rightarrow> nat \<Rightarrow> ip option" where
  "CIDRMask ones bits =
     (if (bits \<noteq> 32 \<and> bits \<noteq> 128) \<or> ones < 0 \<or> int bits < ones then None
      else Some (mask_bytes (nat ones) (bits div 8)))"

text \<open>\<open>IP.Mask\<close>, for a mask of 4 or 16 bytes.\<close>

definition IP_Mask :: "ip \<Rightarrow> ip \<Rightarrow> ip" where
  "IP_Mask ip msk =
     (let msk = (if length msk = 16 \<and> length ip = 4 \<and> take 12 msk = replicate 12 255
                  then drop 12 msk else msk);
          ip = (if length msk = 4 \<and> length ip = 16 \<and> take 12 ip = v4InV6Prefix
                then drop 12 ip else ip)
      in if length ip \<noteq> length msk then [] else map2 (AND) ip msk)"

record ipnet =
  ipn_IP :: ip
  ipn_Mask :: ip

text \<open>\<open>dtoi\<close>: the leading decimal number of a text, given up at \<open>0xFFFFFF\<close>.\<close>

definition dtoi :: "string \<Rightarrow> (nat \<times> nat) option" where
  "dtoi s =
     (let ds = takeWhile is_digit s in
      if ds = [] \<or> 16777215 \<le> dec_value ds then None else Some (dec_value ds, length ds))"

definition ParseCIDR :: "string \<Rightarrow> (ip \<times> ipnet) option" where
  "ParseCIDR s =
     (case Cut s CHR ''/'' of
        None \<Rightarrow> None
      | Some (addr, msk) \<Rightarrow>
          (case ParseAddr addr of
             None \<Rightarrow> None
           | Some a \<Rightarrow>
               (let bitlen = (case a of Addr4 _ \<Rightarrow> 32 | Addr6 _ _ \<Rightarrow> 128);
                    addr16 = (case a of Addr4 q \<Rightarrow> v4InV6Prefix @ q | Addr6 ip _ \<Rightarrow> ip);
                    noZone = (case a of Addr4 _ \<Rightarrow> True | Addr6 _ z \<Rightarrow> z = [])
                in if \<not> noZone then None
                   else (case dtoi msk of
                           None \<Rightarrow> None
                         | Some (n, i) \<Rightarrow>
                             if i \<noteq> length msk \<or> bitlen < n then None
                             else (case CIDRMask (int n) bitlen of
                                     None \<Rightarrow> None
                                   | Some m \<Rightarrow>
                                       Some (addr16, \<lparr>ipn_IP = IP_Mask addr16 m, ipn_Mask = m\<rparr>))))))"

definition networkNumberAndMask :: "ipnet \<Rightarrow> ip \<times> ip" where
  "networkNumberAndMask n =
     (case To4 (ipn_IP n) of
        None \<Rightarrow>
          if length (ipn_IP n) \<noteq> 16 then ([], [])
          else if length (ipn_Mask n) = 4 \<or> length (ipn_Mask n) \<noteq> 16 then ([], [])
          else (ipn_IP n, ipn_Mask n)
      | Some ip4 \<Rightarrow>
          if length (ipn_Mask n) = 4 then (ip4, ipn_Mask n)
          else if length (ipn_Mask n) = 16 then (ip4, drop 12 (ipn_Mask n))
          else ([], []))"

text \<open>\<open>IPNet.Contains\<close>.\<close>

definition Contains :: "ipnet \<Rightarrow> ip \<Rightarrow> bool" where
  "Contains n ip =
     (case networkNumberAndMask n of
        (nn, m) \<Rightarrow>
          (let ip = (case To4 ip of None \<Rightarrow> ip | Some x \<Rightarrow> x) in
           if length ip \<noteq> length nn then False
           else list_all (\<lambda>i. (nn ! i) AND (m ! i) = (ip ! i) AND (m ! i)) [0..<length ip]))"

section \<open>Printing addresses\<close>

definition hex_char :: "nat \<Rightarrow> char" where
  "hex_char d = (if d < 10 then char_of (48 + d) else char_of (87 + d))"

fun nat_hex :: "nat \<Rightarrow> string" where
  "nat_hex n = (if n < 16 then [hex_char n] else nat_hex (n div 16) @ [hex_char (n mod 16)])"

declare nat_hex.simps [simp del]

definition dotted :: "ip \<Rightarrow> string" where
  "dotted q =
     nat_dec (unat (q ! 0)) @ CHR ''.'' # nat_dec (unat (q ! 1)) @ CHR ''.'' #
     nat_dec (unat (q ! 2)) @ CHR ''.'' # nat_dec (unat (q ! 3))"

fun groups16 :: "ip \<Rightarrow> nat list" where
  "groups16 (a # b # r) = (256 * unat a + unat b) # groups16 r"
| "groups16 r = []"

text \<open>The first longest run of at least two zero groups, as the code's scan finds it.\<close>

definition zero_run :: "nat list \<Rightarrow> nat \<Rightarrow> nat" where
  "zero_run gs i = length (takeWhile (\<lambda>g. g = 0) (drop i gs))"

definition longest_zero_run :: "nat list \<Rightarrow> nat \<times> nat" where
  "longest_zero_run gs =
     foldl (\<lambda>(start, stop) i.
        if 2 \<le> zero_run gs i \<and> stop - start < zero_run gs i then (i, i + zero_run gs i)
        else (start, stop)) (255, 255) [0..<8]"

function print_groups :: "nat list \<Rightarrow> nat \<Rightarrow> nat \<Rightarrow> nat \<Rightarrow> string" where
  "print_groups gs start stop i =
     (if 8 \<le> i then []
      else if i = start \<and> i < stop then
        ''::'' @ (if 8 \<le> stop then [] else nat_hex (gs ! stop) @ print_groups gs start stop (Suc stop))
      else (if 0 < i then '':'' else []) @ nat_hex (gs ! i) @ print_groups gs start stop (Suc i))"
  by pat_completeness auto
termination
  by (relation "measure (\<lambda>(gs, start, stop, i). 8 - i)") auto

declare print_groups.simps [simp del]

text \<open>\<open>IP.String\<close>, for an address of 4 or 16 bytes, which is all the program prints.\<close>

definition IP_String :: "ip \<Rightarrow> string" where
  "IP_String ip =
     (case To4 ip of
        Some q \<Rightarrow> dotted q
      | None \<Rightarrow>
          (case longest_zero_run (groups16 ip) of
             (start, stop) \<Rightarrow> print_groups (groups16 ip) start stop 0))"

section \<open>Host and port\<close>

definition SplitHostPort :: "string \<Rightarrow> (string \<times> string) option" where
  "SplitHostPort hostport =
     (case CutLast hostport CHR '':'' of
        None \<Rightarrow> None
      | Some (before, port) \<Rightarrow>
          if hd hostport = CHR ''['' then
            (case Cut hostport CHR '']'' of
               None \<Rightarrow> None
             | Some (b, after) \<Rightarrow>
                 if length b + 1 = length hostport \<or> length b + 1 \<noteq> length before then None
                 else
                   let host = tl b in
                   if CHR ''['' \<in> set (tl hostport) \<or> CHR '']'' \<in> set after then None
                   else Some (host, port))
          else
            (if CHR '':'' \<in> set before then None
             else if CHR ''['' \<in> set hostport \<or> CHR '']'' \<in> set hostport then None
             else Some (before, port)))"

definition JoinHostPort :: "string \<Rightarrow> string \<Rightarrow> string" where
  "JoinHostPort host port =
     (if ContainsByte host CHR '':'' then ''['' @ host @ '']:'' @ port else host @ '':'' @ port)"

section \<open>Parsed addresses\<close>

lemma parseIPv4_length: "parseIPv4 s = Some q \<Longrightarrow> length q = 4"
  by (auto simp: parseIPv4_def split: list.splits option.splits)

lemma parseIPv6_loop_length:
  assumes "parseIPv6_loop ip ell s = Some (ip', ell', s')" and "even (length ip)" and "length ip \<le> 16"
  shows "even (length ip') \<and> length ip' \<le> 16"
  using assms
proof (induction ip ell s rule: parseIPv6_loop.induct)
  case (1 ip ell s)
  show ?case
  proof (cases "16 \<le> length ip")
    case True
    with "1.prems" show ?thesis by (subst (asm) parseIPv6_loop.simps) auto
  next
    case False
    with "1.prems"(2) have short: "length ip + 2 \<le> 16" by presburger
    note loop = "1.prems"(1) [unfolded parseIPv6_loop.simps [of ip ell s]]
    note IH = "1.IH" [OF False refl refl refl, simplified]
    show ?thesis
      using loop False short "1.prems"(2)
      by (auto simp: Let_def parseIPv4_length split: if_splits option.splits
          intro: IH(1) [THEN conjunct1] IH(1) [THEN conjunct2]
            IH(2) [THEN conjunct1] IH(2) [THEN conjunct2])
  qed
qed

lemma parseIPv6_groups_length: "parseIPv6_groups s = Some ip \<Longrightarrow> length ip = 16"
  using parseIPv6_loop_length [of "[]"]
  by (fastforce simp: parseIPv6_groups_def Let_def split: if_splits option.splits prod.splits)

lemma parseIPv6_Addr6:
  "parseIPv6 s = Some a \<Longrightarrow> \<exists>ip z. a = Addr6 ip z \<and> length ip = 16"
  using parseIPv6_groups_length
  by (fastforce simp: parseIPv6_def split: option.splits if_splits)

lemma ParseAddr_cases:
  assumes "ParseAddr s = Some a"
  obtains (v4) q where "a = Addr4 q" "length q = 4"
  | (v6) ip z where "a = Addr6 ip z" "length ip = 16"
  using assms
  by (auto simp: ParseAddr_def dest: parseIPv4_length parseIPv6_Addr6 split: option.splits if_splits)

lemma length_v4InV6Prefix [simp]: "length v4InV6Prefix = 12"
  by (simp add: v4InV6Prefix_def)

lemma ParseIP_length: "ParseIP s = Some ip \<Longrightarrow> length ip = 16"
  by (auto simp: ParseIP_def split: option.splits netip_addr.splits if_splits elim: ParseAddr_cases)

lemma To4_prefix [simp]: "length q = 4 \<Longrightarrow> To4 (v4InV6Prefix @ q) = Some q"
  by (simp add: To4_def)

lemma To4_length: "To4 ip = Some q \<Longrightarrow> length q = 4"
  by (auto simp: To4_def split: if_splits)

lemma To4_short [simp]: "length q = 4 \<Longrightarrow> To4 q = Some q"
  by (simp add: To4_def)

section \<open>Printing and parsing IPv4 addresses\<close>

lemma nat_dec_hd_zero: "hd (nat_dec n) = CHR ''0'' \<longleftrightarrow> n = 0"
proof (induction n rule: nat_dec.induct)
  case (1 n)
  show ?case
  proof (cases "n < 10")
    case True
    have "digit_char n = CHR ''0'' \<longleftrightarrow> n = 0"
      using of_digit_char [OF True] by (auto simp: digit_char_def char_of_def bit_Suc_0_iff bit_0)
    with True show ?thesis by (subst nat_dec.simps) simp
  next
    case False
    with 1 have "hd (nat_dec (n div 10)) \<noteq> CHR ''0''" by auto
    with False show ?thesis by (subst nat_dec.simps) simp
  qed
qed

lemma parse_octet_nat_dec:
  assumes "n \<le> 255"
  shows "parse_octet (nat_dec n) = Some n"
proof -
  have "length (nat_dec n) = 1 \<or> hd (nat_dec n) \<noteq> CHR ''0''"
    by (cases "n = 0") (auto simp: nat_dec_hd_zero nat_dec.simps [of 0])
  with assms nat_dec_digits show ?thesis
    by (auto simp: parse_octet_def)
qed

lemma dot_not_in_nat_dec [simp]: "CHR ''.'' \<notin> set (nat_dec n)"
  using nat_dec_digits [of n] by (auto simp: list_all_iff is_digit_def)

lemma parseIPv4_dotted:
  assumes "length q = 4"
  shows "parseIPv4 (dotted q) = Some q"
proof -
  from assms obtain a b c d where q: "q = [a, b, c, d]"
    by (auto simp: numeral_eq_Suc length_Suc_conv)
  have "unat x \<le> 255" for x :: "8 word"
    using unsigned_less [of x, where 'a = nat] by simp
  then show ?thesis
    by (simp add: q parseIPv4_def dotted_def Split_append_sep Split_no_sep parse_octet_nat_dec
        eval_nat_numeral)
qed

lemma find_append_skip: "\<forall>x \<in> set xs. \<not> P x \<Longrightarrow> find P (xs @ ys) = find P ys"
  by (induction xs) auto

lemma ParseIP_dotted:
  assumes "length q = 4"
  shows "ParseIP (dotted q) = Some (v4InV6Prefix @ q)"
proof -
  have "\<forall>x \<in> set (nat_dec n). \<not> (x = CHR ''.'' \<or> x = CHR '':'' \<or> x = CHR ''%'')" for n
    using nat_dec_digits [of n] by (auto simp: list_all_iff is_digit_def)
  then have "find (\<lambda>c. c = CHR ''.'' \<or> c = CHR '':'' \<or> c = CHR ''%'') (dotted q) = Some CHR ''.''"
    by (simp add: dotted_def find_append_skip)
  with assms parseIPv4_dotted show ?thesis
    by (simp add: ParseIP_def ParseAddr_def)
qed

section \<open>Evaluation\<close>

lemma mask_bytes_numeral [go_eval]:
  "mask_bytes n (numeral k) =
     (if 8 \<le> n then 255 # mask_bytes (n - 8) (pred_numeral k)
      else NOT (drop_bit n 255) # mask_bytes 0 (pred_numeral k))"
  by (simp add: numeral_eq_Suc)

lemma replicate_numeral_Cons [go_eval]:
  "replicate (numeral k) x = x # replicate (pred_numeral k) x"
  by (simp add: numeral_eq_Suc)

lemmas net_eval [go_eval] =
  ParseIP_def ParseAddr_def parseIPv4_def parse_octet_def v4InV6Prefix_def
  parseIPv6_def parseIPv6_groups_def parseIPv6_loop.simps is_hex_def hex_digit_def hex_value_def
  To4_def To16_def CIDRMask_def IP_Mask_def dtoi_def ParseCIDR_def networkNumberAndMask_def
  Contains_def IP_String_def dotted_def hex_char_def nat_hex.simps zero_run_def
  longest_zero_run_def print_groups.simps SplitHostPort_def JoinHostPort_def Let_def upt_rec

end
