(* ===== verification/IpReplacement.thy ===== *)
theory IpReplacement
  imports GoNet DomainModel
begin

text \<open>
  \<open>internal/util/ip_replacement.go\<close> and \<open>IsNetworkOverlap\<close> of \<open>internal/util/validation.go\<close>:
  rewriting a node address by the replacement rules of a load balancer. The lemmas read masks,
  containment and the rewriting bit by bit: a network contains the addresses that agree with
  it on the mask, rewriting takes the masked bits of the target and keeps the others, and two
  networks overlap exactly if some address lies in both.
\<close>

section \<open>The code\<close>

definition isIPInNet :: "string \<Rightarrow> string \<Rightarrow> int \<Rightarrow> bool" where
  "isIPInNet ip netIP msk =
     (case ParseIP ip of
        None \<Rightarrow> False
      | Some parsedIP \<Rightarrow>
          (case ParseCIDR (netIP @ ''/'' @ int_dec msk) of
             None \<Rightarrow> False
           | Some (_, cidrNet) \<Rightarrow> Contains cidrNet parsedIP))"

text \<open>The byte loops of \<open>replaceInNet\<close>: host part, then target network part with host part.\<close>

definition replace_bytes :: "ip \<Rightarrow> ip \<Rightarrow> ip \<Rightarrow> ip" where
  "replace_bytes ip dst maskBytes =
     (let host = map (\<lambda>i. (ip ! i) AND NOT (maskBytes ! i)) [0..<length ip]
      in map (\<lambda>i. ((dst ! i) AND (maskBytes ! i)) OR (host ! i)) [0..<length ip])"

definition bytes_or_nil :: "ip option \<Rightarrow> ip" where
  "bytes_or_nil x = (case x of None \<Rightarrow> [] | Some b \<Rightarrow> b)"

definition replaceInNet :: "string \<Rightarrow> string \<Rightarrow> string \<Rightarrow> int \<Rightarrow> string" where
  "replaceInNet ipStr sourceNetStr targetNetStr msk =
     (case (ParseIP ipStr, ParseIP sourceNetStr, ParseIP targetNetStr) of
        (Some ip, Some src, Some dst) \<Rightarrow>
          (let isIPv4 = (To4 ip \<noteq> None \<and> To4 src \<noteq> None \<and> To4 dst \<noteq> None);
               ip = bytes_or_nil (if isIPv4 then To4 ip else To16 ip);
               dst = bytes_or_nil (if isIPv4 then To4 dst else To16 dst);
               totalBits = (if isIPv4 then 32 else 128) :: nat
           in if msk < 0 \<or> int totalBits < msk then ipStr
              else (case CIDRMask msk totalBits of
                      None \<Rightarrow> ipStr
                    | Some maskBytes \<Rightarrow>
                        if length maskBytes \<noteq> length ip \<or> length dst \<noteq> length ip then ipStr
                        else IP_String (replace_bytes ip dst maskBytes)))
      | _ \<Rightarrow> ipStr)"

text \<open>The loop bodies of \<open>ApplyIPReplacement\<close>: a rule that applies returns its result.\<close>

definition try_ip :: "string \<Rightarrow> ip_config \<Rightarrow> string option" where
  "try_ip nodeIP ip = (if ip_Source ip = nodeIP then Some (ip_Target ip) else None)"

definition try_net :: "string \<Rightarrow> net_config \<Rightarrow> string option" where
  "try_net nodeIP net =
     (if isIPInNet nodeIP (net_Source net) (net_Mask net)
      then Some (replaceInNet nodeIP (net_Source net) (net_Target net) (net_Mask net)) else None)"

definition ApplyIPReplacement ::
  "string \<Rightarrow> lb_config \<Rightarrow> global_ip_replacement_list \<Rightarrow> string" where
  "ApplyIPReplacement nodeIP lbConfig globalList =
     (let replacementList = GetIPReplacementList lbConfig in
      case first_some (try_ip nodeIP) (irl_IPs replacementList) of
        Some r \<Rightarrow> r
      | None \<Rightarrow>
      (case first_some (\<lambda>globalIPName.
              first_some (\<lambda>gIP.
                if gir_Name gIP = globalIPName then first_some (try_ip nodeIP) (gir_IPs gIP)
                else None) (grl_IP globalList)) (irl_GlobalIPs replacementList) of
        Some r \<Rightarrow> r
      | None \<Rightarrow>
      (case first_some (try_net nodeIP) (irl_Nets replacementList) of
        Some r \<Rightarrow> r
      | None \<Rightarrow>
      (case first_some (\<lambda>globalNetName.
              first_some (\<lambda>gNet.
                if gnr_Name gNet = globalNetName then first_some (try_net nodeIP) (gnr_Nets gNet)
                else None) (grl_Net globalList)) (irl_GlobalNets replacementList) of
        Some r \<Rightarrow> r
      | None \<Rightarrow> nodeIP))))"

definition IsNetworkOverlap :: "string \<Rightarrow> int \<Rightarrow> string \<Rightarrow> int \<Rightarrow> bool" where
  "IsNetworkOverlap ip1 mask1 ip2 mask2 =
     (case ParseCIDR (ip1 @ ''/'' @ int_dec mask1) of
        None \<Rightarrow> False
      | Some (_, net1) \<Rightarrow>
          (case ParseCIDR (ip2 @ ''/'' @ int_dec mask2) of
             None \<Rightarrow> False
           | Some (_, net2) \<Rightarrow> Contains net1 (ipn_IP net2) \<or> Contains net2 (ipn_IP net1)))"

section \<open>Addresses as bits\<close>

text \<open>Bit \<open>i\<close> of an address in network order: bit 0 is the most significant one.\<close>

definition ip_bit :: "ip \<Rightarrow> nat \<Rightarrow> bool" where
  "ip_bit ip i = bit (ip ! (i div 8)) (7 - i mod 8)"

lemma bit_255 [simp]: "bit (255 :: 8 word) j \<longleftrightarrow> j < 8"
proof -
  have eq: "(255 :: 8 word) = NOT 0" by simp
  show ?thesis
    unfolding eq bit_not_iff by simp
qed

lemma length_mask_bytes [simp]: "length (mask_bytes n l) = l"
  by (induction l arbitrary: n) auto

lemma bit_mask_byte:
  "k < 8 \<Longrightarrow> bit (NOT (drop_bit n (255 :: 8 word))) (7 - k) \<longleftrightarrow> k < n"
  by (auto simp: bit_not_iff bit_drop_bit_eq not_less simp del: bit_numeral_word_iff)

lemma ip_bit_mask: "i < 8 * l \<Longrightarrow> ip_bit (mask_bytes n l) i \<longleftrightarrow> i < n"
proof (induction l arbitrary: n i)
  case 0
  then show ?case by simp
next
  case (Suc l)
  show ?case
  proof (cases "i < 8")
    case True
    then show ?thesis
      by (auto simp: ip_bit_def bit_mask_byte simp del: bit_numeral_word_iff)
  next
    case False
    then have div: "i div 8 = Suc ((i - 8) div 8)" and md: "i mod 8 = (i - 8) mod 8"
      by (simp_all add: le_div_geq le_mod_geq)
    have "ip_bit (mask_bytes n (Suc l)) i = ip_bit (mask_bytes (n - 8) l) (i - 8)"
      using False by (auto simp: ip_bit_def div md)
    also have "\<dots> \<longleftrightarrow> i - 8 < n - 8"
      using Suc.IH [of "i - 8" "n - 8"] Suc.prems False by simp
    finally show ?thesis using False by auto
  qed
qed

lemma byte_eq_iff: "(a :: 8 word) = b \<longleftrightarrow> (\<forall>k<8. bit a (7 - k) = bit b (7 - k))"
proof
  assume h: "\<forall>k<8. bit a (7 - k) = bit b (7 - k)"
  show "a = b"
  proof (rule bit_word_eqI)
    fix n
    assume "n < LENGTH(8)"
    then have "7 - n < 8" and "7 - (7 - n) = n" by auto
    with h show "bit a n = bit b n" by metis
  qed
qed simp

lemma all_bytes_bits:
  "(\<forall>j<l. \<forall>k<8. P (8 * j + k)) \<longleftrightarrow> (\<forall>i < 8 * l. P i)" for P :: "nat \<Rightarrow> bool"
proof
  assume h: "\<forall>j<l. \<forall>k<8. P (8 * j + k)"
  show "\<forall>i < 8 * l. P i"
  proof (intro allI impI)
    fix i
    assume "i < 8 * l"
    then have "i div 8 < l" and "i mod 8 < 8" by auto
    with h have "P (8 * (i div 8) + i mod 8)" by blast
    then show "P i" by simp
  qed
qed auto

lemma ip_bit_at [simp]: "k < 8 \<Longrightarrow> ip_bit x (8 * j + k) = bit (x ! j) (7 - k)"
  by (simp add: ip_bit_def)

lemma ip_eq_iff:
  assumes "length a = l" and "length b = l"
  shows "a = b \<longleftrightarrow> (\<forall>i < 8 * l. ip_bit a i = ip_bit b i)"
proof -
  have "a = b \<longleftrightarrow> (\<forall>j<l. a ! j = b ! j)"
    using assms by (auto simp: list_eq_iff_nth_eq)
  also have "\<dots> \<longleftrightarrow> (\<forall>j<l. \<forall>k<8. ip_bit a (8 * j + k) = ip_bit b (8 * j + k))"
    by (simp add: byte_eq_iff)
  finally show ?thesis
    using all_bytes_bits [of l "\<lambda>i. ip_bit a i = ip_bit b i"] by blast
qed

lemma ip_bit_replace_bytes:
  assumes "length ip = l" and "i < 8 * l"
  shows "ip_bit (replace_bytes ip dst (mask_bytes n l)) i = (if i < n then ip_bit dst i else ip_bit ip i)"
proof -
  have "i div 8 < l" and "7 - i mod 8 < 8" using assms(2) by auto
  then have "ip_bit (replace_bytes ip dst (mask_bytes n l)) i =
      (ip_bit dst i \<and> ip_bit (mask_bytes n l) i \<or> ip_bit ip i \<and> \<not> ip_bit (mask_bytes n l) i)"
    using assms(1) by (simp add: ip_bit_def replace_bytes_def bit_or_iff bit_and_iff bit_not_iff)
  with ip_bit_mask [OF assms(2)] show ?thesis by auto
qed

lemma length_replace_bytes [simp]: "length (replace_bytes ip dst m) = length ip"
  by (simp add: replace_bytes_def Let_def)

section \<open>Networks\<close>

text \<open>The form in which \<open>Contains\<close> compares addresses: 4 bytes if possible.\<close>

definition short_form :: "ip \<Rightarrow> ip" where
  "short_form ip = (case To4 ip of None \<Rightarrow> ip | Some q \<Rightarrow> q)"

lemma drop_mask_bytes: "drop j (mask_bytes n l) = mask_bytes (n - 8 * j) (l - j)"
proof (induction j arbitrary: n l)
  case 0
  then show ?case by simp
next
  case (Suc j)
  show ?case
  proof (cases l)
    case 0
    then show ?thesis by simp
  next
    case l: (Suc l')
    show ?thesis
    proof (cases "8 \<le> n")
      case True
      then have "n - 8 - 8 * j = n - 8 * Suc j" by simp
      with True l Suc show ?thesis by simp
    next
      case False
      with l Suc [of 0 l'] show ?thesis by simp
    qed
  qed
qed

text \<open>
  A parsed network is a prefix of \<open>k\<close> bits of an address \<open>nn\<close> of 4 or 16 bytes, and the
  address stored in it is that prefix.
\<close>

definition is_network :: "ipnet \<Rightarrow> ip \<Rightarrow> nat \<Rightarrow> bool" where
  "is_network n nn k \<longleftrightarrow>
     networkNumberAndMask n = (nn, mask_bytes k (length nn)) \<and>
     (length nn = 4 \<or> length nn = 16) \<and> short_form (ipn_IP n) = nn \<and>
     (length (ipn_IP n) = 4 \<or> length (ipn_IP n) = 16)"

lemma is_network_masked:
  assumes "length a = 16"
  shows "\<exists>nn k. is_network \<lparr>ipn_IP = map2 (AND) a (mask_bytes n 16), ipn_Mask = mask_bytes n 16\<rparr> nn k"
proof -
  let ?m = "map2 (AND) a (mask_bytes n 16)"
  have len: "length ?m = 16" using assms by simp
  show ?thesis
  proof (cases "To4 ?m")
    case None
    with len show ?thesis
      by (intro exI [of _ ?m] exI [of _ n])
        (simp add: is_network_def networkNumberAndMask_def short_form_def)
  next
    case (Some q)
    then have "length q = 4" by (rule To4_length)
    with Some len show ?thesis
      by (intro exI [of _ q] exI [of _ "n - 96"])
        (simp add: is_network_def networkNumberAndMask_def short_form_def drop_mask_bytes)
  qed
qed

lemma ParseCIDR_network:
  assumes "ParseCIDR s = Some (a, n)"
  obtains nn k where "is_network n nn k"
proof -
  from assms obtain t u b where b: "ParseAddr t = Some b"
    and n: "\<exists>i m. CIDRMask (int i) (case b of Addr4 _ \<Rightarrow> 32 | Addr6 _ _ \<Rightarrow> 128) = Some m \<and>
      n = \<lparr>ipn_IP = IP_Mask (case b of Addr4 q \<Rightarrow> v4InV6Prefix @ q | Addr6 ip _ \<Rightarrow> ip) m, ipn_Mask = m\<rparr>"
    by (auto simp: ParseCIDR_def Let_def split: option.splits if_splits prod.splits)
  from b show ?thesis
  proof (cases rule: ParseAddr_cases)
    case (v4 q)
    with n obtain i where "n = \<lparr>ipn_IP = map2 (AND) q (mask_bytes i 4), ipn_Mask = mask_bytes i 4\<rparr>"
      by (auto simp: CIDRMask_def IP_Mask_def split: if_splits)
    with v4 have "is_network n (map2 (AND) q (mask_bytes i 4)) i"
      by (simp add: is_network_def networkNumberAndMask_def short_form_def)
    then show ?thesis by (rule that)
  next
    case (v6 ip z)
    with n obtain i where "n = \<lparr>ipn_IP = map2 (AND) ip (mask_bytes i 16), ipn_Mask = mask_bytes i 16\<rparr>"
      by (auto simp: CIDRMask_def IP_Mask_def split: if_splits)
    with v6 that show ?thesis
      using is_network_masked [of ip i] by blast
  qed
qed

text \<open>Containment is agreement on the first \<open>k\<close> bits.\<close>

lemma Contains_bits:
  assumes "is_network n nn k"
  shows "Contains n a \<longleftrightarrow>
    length (short_form a) = length nn \<and>
    (\<forall>i < 8 * length nn. i < k \<longrightarrow> ip_bit nn i = ip_bit (short_form a) i)"
proof (cases "length (short_form a) = length nn")
  case True
  let ?l = "length nn" and ?m = "mask_bytes k (length nn)" and ?a = "short_form a"
  have net: "networkNumberAndMask n = (nn, ?m)"
    using assms by (simp add: is_network_def)
  have bytes: "(nn ! j) AND (?m ! j) = (?a ! j) AND (?m ! j) \<longleftrightarrow>
      (\<forall>b<8. ip_bit ?m (8 * j + b) \<longrightarrow> ip_bit nn (8 * j + b) = ip_bit ?a (8 * j + b))" for j
    by (auto simp: byte_eq_iff bit_and_iff)
  have "Contains n a \<longleftrightarrow> (\<forall>j < ?l. (nn ! j) AND (?m ! j) = (?a ! j) AND (?m ! j))"
    using True net by (auto simp: Contains_def short_form_def list_all_iff Let_def)
  also have "\<dots> \<longleftrightarrow> (\<forall>i < 8 * ?l. ip_bit ?m i \<longrightarrow> ip_bit nn i = ip_bit ?a i)"
    unfolding bytes
    using all_bytes_bits [of ?l "\<lambda>i. ip_bit ?m i \<longrightarrow> ip_bit nn i = ip_bit ?a i"] by blast
  also have "\<dots> \<longleftrightarrow> (\<forall>i < 8 * ?l. i < k \<longrightarrow> ip_bit nn i = ip_bit ?a i)"
    by (simp add: ip_bit_mask)
  finally show ?thesis using True by simp
next
  case False
  with assms show ?thesis
    by (auto simp: is_network_def Contains_def short_form_def Let_def)
qed

lemma Contains_itself:
  "is_network n nn k \<Longrightarrow> Contains n (ipn_IP n)"
  using Contains_bits [of n nn k "ipn_IP n"] by (simp add: is_network_def)

lemma Contains_short_form: "short_form a = short_form b \<Longrightarrow> Contains n a = Contains n b"
  by (simp add: Contains_def short_form_def)

lemma short_form_prefix: "length q = 4 \<Longrightarrow> short_form (v4InV6Prefix @ q) = short_form q"
  by (simp add: short_form_def)

lemma overlap_common_address:
  assumes n1: "is_network n1 nn1 k1" and n2: "is_network n2 nn2 k2"
  shows "Contains n1 (ipn_IP n2) \<or> Contains n2 (ipn_IP n1) \<longleftrightarrow>
    (\<exists>a. length a = 16 \<and> Contains n1 a \<and> Contains n2 a)"
proof
  have full: "\<exists>a. length a = 16 \<and> short_form a = short_form (ipn_IP n)"
    if "is_network n nn k" for n nn k
  proof (cases "length (ipn_IP n) = 4")
    case True
    then show ?thesis
      by (intro exI [of _ "v4InV6Prefix @ ipn_IP n"]) (simp add: short_form_prefix)
  next
    case False
    with that show ?thesis by (auto simp: is_network_def)
  qed
  assume "Contains n1 (ipn_IP n2) \<or> Contains n2 (ipn_IP n1)"
  then show "\<exists>a. length a = 16 \<and> Contains n1 a \<and> Contains n2 a"
    using full [OF n1] full [OF n2] Contains_itself [OF n1] Contains_itself [OF n2]
      Contains_short_form by metis
next
  assume "\<exists>a. length a = 16 \<and> Contains n1 a \<and> Contains n2 a"
  then obtain a where a: "Contains n1 a" "Contains n2 a" by blast
  then have len: "length nn1 = length nn2"
    using Contains_bits [OF n1] Contains_bits [OF n2] by metis
  have sf: "short_form (ipn_IP n1) = nn1" "short_form (ipn_IP n2) = nn2"
    using n1 n2 by (simp_all add: is_network_def)
  show "Contains n1 (ipn_IP n2) \<or> Contains n2 (ipn_IP n1)"
  proof (cases "k1 \<le> k2")
    case True
    then have "Contains n1 (ipn_IP n2)"
      using a len sf unfolding Contains_bits [OF n1] Contains_bits [OF n2] by auto
    then show ?thesis ..
  next
    case False
    then have "Contains n2 (ipn_IP n1)"
      using a len sf unfolding Contains_bits [OF n1] Contains_bits [OF n2] by auto
    then show ?thesis ..
  qed
qed

lemma IsNetworkOverlap_common:
  "IsNetworkOverlap ip1 mask1 ip2 mask2 \<longleftrightarrow>
     (\<exists>a1 net1 a2 net2 a.
        ParseCIDR (ip1 @ ''/'' @ int_dec mask1) = Some (a1, net1) \<and>
        ParseCIDR (ip2 @ ''/'' @ int_dec mask2) = Some (a2, net2) \<and>
        length a = 16 \<and> Contains net1 a \<and> Contains net2 a)"
proof (cases "ParseCIDR (ip1 @ ''/'' @ int_dec mask1)")
  case None
  then show ?thesis by (simp add: IsNetworkOverlap_def)
next
  case n1: (Some r1)
  obtain a1 net1 where r1: "r1 = (a1, net1)" by fastforce
  with n1 obtain nn1 k1 where net1: "is_network net1 nn1 k1" by (auto elim: ParseCIDR_network)
  show ?thesis
  proof (cases "ParseCIDR (ip2 @ ''/'' @ int_dec mask2)")
    case None
    with n1 r1 show ?thesis by (simp add: IsNetworkOverlap_def)
  next
    case n2: (Some r2)
    obtain a2 net2 where r2: "r2 = (a2, net2)" by fastforce
    with n2 obtain nn2 k2 where net2: "is_network net2 nn2 k2" by (auto elim: ParseCIDR_network)
    from overlap_common_address [OF net1 net2] n1 r1 n2 r2 show ?thesis
      by (simp add: IsNetworkOverlap_def)
  qed
qed

section \<open>Properties\<close>

text \<open>
  C12: \<open>IsNetworkOverlap\<close> is exactly the existence of a common address: it holds if and only if
  both texts parse as networks and some 16-byte address lies in both, so it is symmetric, and
  a pair of disjoint rules is never reported.
\<close>

theorem IsNetworkOverlap_iff_common_address:
  "IsNetworkOverlap ip1 mask1 ip2 mask2 \<longleftrightarrow>
     (\<exists>a1 net1 a2 net2 a.
        ParseCIDR (ip1 @ ''/'' @ int_dec mask1) = Some (a1, net1) \<and>
        ParseCIDR (ip2 @ ''/'' @ int_dec mask2) = Some (a2, net2) \<and>
        length a = 16 \<and> Contains net1 a \<and> Contains net2 a)"
  by (rule IsNetworkOverlap_common)



end
