(* ===== verification/Controller.thy ===== *)
theory Controller
  imports BackendMerge IpReplacement
begin

text \<open>
  \<open>internal/controller/controller.go\<close>: the controller's state, its event handlers, the sync of
  one service and the work item handler. The periodic reconciliation is in theory
  Reconciliation.

  The state is the record \<open>ctrl\<close>: the four maps of \<open>model.ControllerState\<close>, the last known
  services, the calls made so far to the metrics and to the work queue (both behind
  interfaces of other packages), and the world \<open>'w\<close> in which the load balancers live. What the
  controller is constructed with is the record \<open>deps\<close>: the Kubernetes port (one snapshot of
  the informer caches while a handler runs), the configuration, and the load balancer
  adapters, which act on the world. Log output is not modelled.
\<close>

section \<open>Ports\<close>

text \<open>\<open>kubernetes.KubernetesPort\<close>, as far as the handlers call it.\<close>

record k8s_port =
  k8s_GetService :: "string \<Rightarrow> string \<Rightarrow> goerror + service"
  k8s_ListServices :: "goerror + service list"
  k8s_GetPodsForSelector :: "string \<Rightarrow> labels \<Rightarrow> goerror + pod list"
  k8s_GetNodeByName :: "string \<Rightarrow> goerror + node"
  k8s_HasSynced :: bool

text \<open>\<open>loadbalancer.LoadBalancerAdapter\<close>: both operations act on the world.\<close>

record 'w adapter =
  lba_SyncUpstream :: "upstream \<Rightarrow> 'w \<Rightarrow> goerror option \<times> 'w"
  lba_SyncAllUpstreams :: "(string, upstream) gomap \<Rightarrow> 'w \<Rightarrow> goerror option \<times> 'w"

record 'w deps =
  dep_k8s :: k8s_port
  dep_config :: config
  dep_loadBalancers :: "(string, 'w adapter) gomap"

section \<open>State\<close>

datatype metric_op =
    UpdateBackendsTotal string nat
  | IncrementSyncErrors string
  | ObserveSyncDuration string
  | SyncUpstreamCtrInc

text \<open>What the work queue holds: keys, or a value of another type.\<close>

datatype queue_obj = QKey string | QOther

datatype queue_op =
    QAdd queue_obj
  | QDone queue_obj
  | QForget queue_obj
  | QAddRateLimited queue_obj

record 'w ctrl =
  st_Services :: "(string, service) gomap"
  st_Pods :: "(string, pod) gomap"
  st_Nodes :: "(string, node) gomap"
  st_Upstreams :: "(string, upstream) gomap"
  lastKnownServices :: "(string, service) gomap"
  metric_calls :: "metric_op list"
  queue_calls :: "queue_op list"
  world :: 'w

text \<open>\<open>NewController\<close>: every map is empty.\<close>

definition NewController :: "'w \<Rightarrow> 'w ctrl" where
  "NewController w =
     \<lparr>st_Services = [], st_Pods = [], st_Nodes = [], st_Upstreams = [],
      lastKnownServices = [], metric_calls = [], queue_calls = [], world = w\<rparr>"

definition metric :: "metric_op \<Rightarrow> 'w ctrl \<Rightarrow> 'w ctrl" where
  "metric m c = c\<lparr>metric_calls := metric_calls c @ [m]\<rparr>"

definition enqueue :: "queue_op \<Rightarrow> 'w ctrl \<Rightarrow> 'w ctrl" where
  "enqueue q c = c\<lparr>queue_calls := queue_calls c @ [q]\<rparr>"

text \<open>\<open>fmt.Sprintf("%s/%s", a, b)\<close>, the format of all keys.\<close>

definition slash_key :: "string \<Rightarrow> string \<Rightarrow> string" where
  "slash_key a b = a @ ''/'' @ b"

definition svc_key :: "service \<Rightarrow> string" where
  "svc_key s = slash_key (svc_Namespace s) (svc_Name s)"

definition lb_label :: "service \<Rightarrow> string" where
  "lb_label s = str_get (svc_Labels s) ''mlb-loadbalancer-name''"

definition upstream_label :: "service \<Rightarrow> string" where
  "upstream_label s = str_get (svc_Labels s) ''mlb-upstream-name''"

section \<open>Configuration lookups\<close>

definition getLoadBalancerConfig :: "config \<Rightarrow> string \<Rightarrow> lb_config option" where
  "getLoadBalancerConfig cfg lbName = find (\<lambda>lb. GetName lb = lbName) (cfg_LoadBalancers cfg)"

definition getLoadBalancerType :: "config \<Rightarrow> string \<Rightarrow> string" where
  "getLoadBalancerType cfg lbName =
     (case find (\<lambda>lb. GetName lb = lbName) (cfg_LoadBalancers cfg) of
        Some lb \<Rightarrow> GetType lb | None \<Rightarrow> '''')"

text \<open>
  The block that both sync paths run for an upstream without backends: the default backend of
  the load balancer or the global one, and whether an empty upstream is allowed.
\<close>

definition defBackend :: "config \<Rightarrow> lb_config option \<Rightarrow> default_backend option" where
  "defBackend cfg lbConfig =
     (case lbConfig of
        Some lb \<Rightarrow>
          (case GetDefaultBackend lb of Some d \<Rightarrow> Some d | None \<Rightarrow> cfg_DefaultBackend cfg)
      | None \<Rightarrow> cfg_DefaultBackend cfg)"

definition default_backends :: "config \<Rightarrow> lb_config option \<Rightarrow> backend list option" where
  "default_backends cfg lbConfig =
     (case defBackend cfg lbConfig of
        Some d \<Rightarrow>
          if db_IP d \<noteq> '''' then
            (let w = (if sint (db_Weight d) \<le> 0 then 1 else db_Weight d)
             in Some [\<lparr>be_IP = db_IP d, be_Port = db_Port d, be_Weight = w\<rparr>])
          else None
      | None \<Rightarrow> None)"

definition allow_empty :: "config \<Rightarrow> lb_config option \<Rightarrow> bool" where
  "allow_empty cfg lbConfig =
     (case lbConfig of
        Some lb \<Rightarrow> if GetAllowEmptyUpstream lb then True else cfg_AllowEmptyUpstream cfg
      | None \<Rightarrow> cfg_AllowEmptyUpstream cfg)"

section \<open>Building an upstream\<close>

text \<open>
  The body of the loop of \<open>buildUpstream\<close> for one pod: an error, nothing (\<open>continue\<close>), or the
  backend that is appended.
\<close>

definition pod_backend :: "k8s_port \<Rightarrow> config \<Rightarrow> service \<Rightarrow> pod \<Rightarrow> goerror + backend option" where
  "pod_backend k cfg svc pod =
     (if \<not> pod_Ready pod \<or> pod_NodeName pod = '''' then Inr None
      else
        (case k8s_GetNodeByName k (pod_NodeName pod) of
           Inl e \<Rightarrow>
             Inl (Wrapf (''failed to get node '' @ pod_NodeName pod @ '' for pod '' @ pod_Name pod) e)
         | Inr node \<Rightarrow>
             (let nodeIP = node_InternalIP node;
                  nodeIP = (if nodeIP = '''' then node_ExternalIP node else nodeIP)
              in if nodeIP = '''' then Inr None
                 else
                   (let nodeIP =
                      (case getLoadBalancerConfig cfg (lb_label svc) of
                         Some lb \<Rightarrow>
                           if GetIPReplacement lb
                           then ApplyIPReplacement nodeIP lb (cfg_GlobalIPReplacementList cfg)
                           else nodeIP
                       | None \<Rightarrow> nodeIP)
                    in Inr (Some \<lparr>be_IP = nodeIP, be_Port = svc_NodePort svc, be_Weight = 1\<rparr>)))))"

fun pods_backends ::
  "k8s_port \<Rightarrow> config \<Rightarrow> service \<Rightarrow> pod list \<Rightarrow> backend list \<Rightarrow> goerror + backend list" where
  "pods_backends k cfg svc [] backends = Inr backends"
| "pods_backends k cfg svc (pod # pods) backends =
     (case pod_backend k cfg svc pod of
        Inl e \<Rightarrow> Inl e
      | Inr None \<Rightarrow> pods_backends k cfg svc pods backends
      | Inr (Some be) \<Rightarrow> pods_backends k cfg svc pods (backends @ [be]))"

definition buildUpstream ::
  "k8s_port \<Rightarrow> config \<Rightarrow> service \<Rightarrow> pod list \<Rightarrow> goerror + upstream option" where
  "buildUpstream k cfg svc pods =
     (let lbName = lb_label svc; upstreamName = upstream_label svc in
      if svc_NodePort svc = 0 \<or> lbName = '''' \<or> upstreamName = '''' then Inr None
      else
        (case pods_backends k cfg svc pods [] of
           Inl e \<Rightarrow> Inl e
         | Inr backends \<Rightarrow>
             Inr (Some \<lparr>up_Name = upstreamName, up_LoadBalancer = lbName,
               up_Backends = mergeBackends backends [],
               up_Type = getLoadBalancerType cfg lbName,
               up_Config = getLoadBalancerConfig cfg lbName,
               up_PreserveExistingBackends = False\<rparr>)))"

section \<open>Syncing one service\<close>

definition syncLoadBalancerUpstream ::
  "'w deps \<Rightarrow> upstream \<Rightarrow> 'w ctrl \<Rightarrow> goerror option \<times> 'w ctrl" where
  "syncLoadBalancerUpstream d upstream c =
     (case map_of (dep_loadBalancers d) (up_LoadBalancer upstream) of
        None \<Rightarrow>
          (Some (Errorf (''load balancer adapter not found: '' @ up_LoadBalancer upstream)), c)
      | Some adapter \<Rightarrow>
          (case lba_SyncUpstream adapter upstream (world c) of
             (Some e, w) \<Rightarrow>
               (Some (Wrapf (''failed to sync upstream '' @
                  slash_key (up_LoadBalancer upstream) (up_Name upstream)) e), c\<lparr>world := w\<rparr>)
           | (None, w) \<Rightarrow> (None, c\<lparr>world := w\<rparr>)))"

text \<open>The loop that merges the backends of the other services with the same upstream.\<close>

fun merge_services ::
  "k8s_port \<Rightarrow> config \<Rightarrow> service \<Rightarrow> service list \<Rightarrow> upstream \<Rightarrow> goerror + upstream" where
  "merge_services k cfg svc [] upstream = Inr upstream"
| "merge_services k cfg svc (otherSvc # rest) upstream =
     (if svc_Namespace otherSvc = svc_Namespace svc \<and> svc_Name otherSvc = svc_Name svc
      then merge_services k cfg svc rest upstream
      else if lb_label otherSvc = lb_label svc \<and> upstream_label otherSvc = upstream_label svc then
        (case k8s_GetPodsForSelector k (svc_Namespace otherSvc) (svc_Selector otherSvc) of
           Inl e \<Rightarrow> Inl (Wrapf (''failed to get pods for shared service '' @ svc_key otherSvc) e)
         | Inr otherPods \<Rightarrow>
             (case buildUpstream k cfg otherSvc otherPods of
                Inl e \<Rightarrow>
                  Inl (Wrapf (''failed to build upstream for shared service '' @ svc_key otherSvc) e)
              | Inr None \<Rightarrow> merge_services k cfg svc rest upstream
              | Inr (Some otherUp) \<Rightarrow>
                  merge_services k cfg svc rest
                    (upstream\<lparr>up_Backends :=
                       mergeBackends (up_Backends upstream) (up_Backends otherUp)\<rparr>)))
      else merge_services k cfg svc rest upstream)"

text \<open>
  The check for an empty upstream: the upstream with the default backend, the upstream as it
  is, or \<open>None\<close> where the safety net returns without syncing.
\<close>

definition fill_empty_upstream ::
  "config \<Rightarrow> lb_config option \<Rightarrow> upstream \<Rightarrow> upstream option" where
  "fill_empty_upstream cfg lbConfig upstream =
     (if up_Backends upstream = [] then
        (case default_backends cfg lbConfig of
           Some bs \<Rightarrow> Some (upstream\<lparr>up_Backends := bs\<rparr>)
         | None \<Rightarrow> if allow_empty cfg lbConfig then Some upstream else None)
      else Some upstream)"

definition syncUpstreamsForService ::
  "'w deps \<Rightarrow> service \<Rightarrow> 'w ctrl \<Rightarrow> goerror option \<times> 'w ctrl" where
  "syncUpstreamsForService d svc c =
     (let k = dep_k8s d; cfg = dep_config d;
          upstreamName = upstream_label svc; lbName = lb_label svc in
      if lbName = '''' \<or> upstreamName = '''' then (None, c)
      else
      (case k8s_GetPodsForSelector k (svc_Namespace svc) (svc_Selector svc) of
         Inl e \<Rightarrow>
           (Some (Wrapf (''failed to get pods for service '' @ svc_key svc) e),
            metric (IncrementSyncErrors upstreamName) c)
       | Inr pods \<Rightarrow>
      (case buildUpstream k cfg svc pods of
         Inl e \<Rightarrow>
           (Some (Wrapf (''failed to build upstream for service '' @ svc_key svc) e),
            metric (IncrementSyncErrors upstreamName) c)
       | Inr None \<Rightarrow> (None, c)
       | Inr (Some upstream) \<Rightarrow>
      (case k8s_ListServices k of
         Inl e \<Rightarrow>
           (Some (Wrapf (''failed to list services for upstream merge ('' @
              slash_key lbName upstreamName @ '')'') e),
            metric (IncrementSyncErrors upstreamName) c)
       | Inr allServices \<Rightarrow>
      (case merge_services k cfg svc allServices upstream of
         Inl e \<Rightarrow> (Some e, metric (IncrementSyncErrors upstreamName) c)
       | Inr upstream \<Rightarrow>
      (case fill_empty_upstream cfg (getLoadBalancerConfig cfg lbName) upstream of
         None \<Rightarrow> (None, c)
       | Some upstream \<Rightarrow>
           (let c = metric (UpdateBackendsTotal upstreamName (length (up_Backends upstream))) c;
                c = c\<lparr>st_Upstreams :=
                      AList.update (slash_key lbName upstreamName) upstream (st_Upstreams c)\<rparr>
            in (case syncLoadBalancerUpstream d upstream c of
                  (Some e, c) \<Rightarrow> (Some e, metric (IncrementSyncErrors upstreamName) c)
                | (None, c) \<Rightarrow> (None, metric (ObserveSyncDuration upstreamName) c)))))))))"

section \<open>Deleting and changing services\<close>

definition handleServiceDeletion ::
  "'w deps \<Rightarrow> string \<Rightarrow> service \<Rightarrow> 'w ctrl \<Rightarrow> goerror option \<times> 'w ctrl" where
  "handleServiceDeletion d key svc c =
     (let lbName = lb_label svc; upstreamName = upstream_label svc; cfg = dep_config d in
      if lbName = '''' \<or> upstreamName = '''' then (None, c)
      else
      (case k8s_ListServices (dep_k8s d) of
         Inl e \<Rightarrow>
           (Some (Wrapf (''failed to list services during service deletion check for '' @ key) e), c)
       | Inr services \<Rightarrow>
      (case find (\<lambda>s. svc_key s \<noteq> key \<and> lb_label s = lbName \<and> upstream_label s = upstreamName)
              services of
         Some otherSvc \<Rightarrow> syncUpstreamsForService d otherSvc c
       | None \<Rightarrow>
           (let emptyUpstream =
                  \<lparr>up_Name = upstreamName, up_LoadBalancer = lbName, up_Backends = [],
                   up_Type = getLoadBalancerType cfg lbName,
                   up_Config = getLoadBalancerConfig cfg lbName,
                   up_PreserveExistingBackends = False\<rparr>;
                c = c\<lparr>st_Upstreams := AList.delete (slash_key lbName upstreamName) (st_Upstreams c)\<rparr>;
                c = metric (UpdateBackendsTotal upstreamName 0) c
            in (case syncLoadBalancerUpstream d emptyUpstream c of
                  (Some e, c) \<Rightarrow> (Some e, metric (IncrementSyncErrors upstreamName) c)
                | (None, c) \<Rightarrow> (None, c))))))"

text \<open>Forgetting and recording a service, under the state lock.\<close>

definition forget_service :: "string \<Rightarrow> 'w ctrl \<Rightarrow> 'w ctrl" where
  "forget_service key c =
     c\<lparr>lastKnownServices := AList.delete key (lastKnownServices c),
       st_Services := AList.delete key (st_Services c)\<rparr>"

definition record_service :: "string \<Rightarrow> service \<Rightarrow> 'w ctrl \<Rightarrow> 'w ctrl" where
  "record_service key svc c =
     c\<lparr>lastKnownServices := AList.update key svc (lastKnownServices c),
       st_Services := AList.update key svc (st_Services c)\<rparr>"

text \<open>Whether the old upstream of a service must be drained because its labels changed.\<close>

definition target_changed :: "service \<Rightarrow> service \<Rightarrow> bool" where
  "target_changed lastSvc svc \<longleftrightarrow>
     (lb_label lastSvc \<noteq> lb_label svc \<or> upstream_label lastSvc \<noteq> upstream_label svc) \<and>
     (lb_label lastSvc \<noteq> '''' \<and> upstream_label lastSvc \<noteq> '''')"

definition syncHandler :: "'w deps \<Rightarrow> string \<Rightarrow> 'w ctrl \<Rightarrow> goerror option \<times> 'w ctrl" where
  "syncHandler d key c =
     (case Split key CHR ''/'' of
        [namespace, name] \<Rightarrow>
          (case k8s_GetService (dep_k8s d) namespace name of
             Inl _ \<Rightarrow>
               (case map_of (lastKnownServices c) key of
                  None \<Rightarrow> (None, c)
                | Some lastSvc \<Rightarrow>
                    (case handleServiceDeletion d key lastSvc c of
                       (Some e, c) \<Rightarrow> (Some e, c)
                     | (None, c) \<Rightarrow> (None, forget_service key c)))
           | Inr svc \<Rightarrow>
               (let (drained, c) =
                  (case map_of (lastKnownServices c) key of
                     Some lastSvc \<Rightarrow>
                       if target_changed lastSvc svc then handleServiceDeletion d key lastSvc c
                       else (None, c)
                   | None \<Rightarrow> (None, c))
                in case drained of
                     Some e \<Rightarrow> (Some e, c)
                   | None \<Rightarrow> syncUpstreamsForService d svc (record_service key svc c)))
      | _ \<Rightarrow> (Some (Errorf (''invalid resource key: '' @ key)), c))"

text \<open>
  One round of a worker: what \<open>queue.Get\<close> returned (\<open>None\<close> after a shutdown), and whether the
  worker goes on.
\<close>

definition processNextItem :: "'w deps \<Rightarrow> queue_obj option \<Rightarrow> 'w ctrl \<Rightarrow> bool \<times> 'w ctrl" where
  "processNextItem d item c =
     (case item of
        None \<Rightarrow> (False, c)
      | Some QOther \<Rightarrow> (True, enqueue (QDone QOther) (enqueue (QForget QOther) c))
      | Some (QKey key) \<Rightarrow>
          (case syncHandler d key c of
             (None, c) \<Rightarrow> (True, enqueue (QDone (QKey key)) (enqueue (QForget (QKey key)) c))
           | (Some e, c) \<Rightarrow>
               (True, enqueue (QDone (QKey key)) (enqueue (QAddRateLimited (QKey key)) c))))"

section \<open>Events\<close>

definition matchLabels :: "labels \<Rightarrow> labels \<Rightarrow> bool" where
  "matchLabels podLabels svcSelector =
     (if svcSelector = [] then False
      else list_all (\<lambda>(k, v). str_get podLabels k = v) svcSelector)"

definition enqueueUpstreamsForPod :: "pod \<Rightarrow> 'w ctrl \<Rightarrow> 'w ctrl" where
  "enqueueUpstreamsForPod pod c =
     foldl (\<lambda>c (key, svc).
        if svc_Namespace svc = pod_Namespace pod \<and> matchLabels (pod_Labels pod) (svc_Selector svc)
        then enqueue (QAdd (QKey (svc_key svc))) c else c)
      c (st_Services c)"

definition enqueueUpstreamsForNode :: "node \<Rightarrow> 'w ctrl \<Rightarrow> 'w ctrl" where
  "enqueueUpstreamsForNode node c =
     (let affectedPods = filter (\<lambda>p. pod_NodeName p = node_Name node) (map snd (st_Pods c))
      in foldl (\<lambda>c p. enqueueUpstreamsForPod p c) c affectedPods)"

definition handleServiceEvent :: "service_event \<Rightarrow> 'w ctrl \<Rightarrow> 'w ctrl" where
  "handleServiceEvent event c =
     (let svc = se_Service event; key = svc_key svc;
          c = (case se_Type event of
                 EventTypeAdd \<Rightarrow>
                   c\<lparr>st_Services := AList.update key svc (st_Services c),
                     lastKnownServices :=
                       (if has_key (lastKnownServices c) key then lastKnownServices c
                        else AList.update key svc (lastKnownServices c))\<rparr>
               | EventTypeUpdate \<Rightarrow> c\<lparr>st_Services := AList.update key svc (st_Services c)\<rparr>
               | EventTypeDelete \<Rightarrow> c\<lparr>st_Services := AList.delete key (st_Services c)\<rparr>)
      in enqueue (QAdd (QKey key)) c)"

definition handlePodEvent :: "pod_event \<Rightarrow> 'w ctrl \<Rightarrow> 'w ctrl" where
  "handlePodEvent event c =
     (let pod = pe_Pod event; key = slash_key (pod_Namespace pod) (pod_Name pod);
          oldPod = map_of (st_Pods c) key;
          c = (case pe_Type event of
                 EventTypeDelete \<Rightarrow> c\<lparr>st_Pods := AList.delete key (st_Pods c)\<rparr>
               | _ \<Rightarrow> c\<lparr>st_Pods := AList.update key pod (st_Pods c)\<rparr>);
          c = (case oldPod of
                 Some old \<Rightarrow> if pe_Type event = EventTypeUpdate then enqueueUpstreamsForPod old c else c
               | None \<Rightarrow> c)
      in enqueueUpstreamsForPod pod c)"

definition handleNodeEvent :: "node_event \<Rightarrow> 'w ctrl \<Rightarrow> 'w ctrl" where
  "handleNodeEvent event c =
     (let node = ne_Node event; key = node_Name node;
          c = (case ne_Type event of
                 EventTypeDelete \<Rightarrow> c\<lparr>st_Nodes := AList.delete key (st_Nodes c)\<rparr>
               | _ \<Rightarrow> c\<lparr>st_Nodes := AList.update key node (st_Nodes c)\<rparr>)
      in enqueueUpstreamsForNode node c)"

text \<open>\<open>GetState\<close>: a copy of the four maps.\<close>

record controller_state =
  gs_Services :: "(string, service) gomap"
  gs_Pods :: "(string, pod) gomap"
  gs_Nodes :: "(string, node) gomap"
  gs_Upstreams :: "(string, upstream) gomap"

definition GetState :: "'w ctrl \<Rightarrow> controller_state" where
  "GetState c =
     \<lparr>gs_Services = st_Services c, gs_Pods = st_Pods c, gs_Nodes = st_Nodes c,
      gs_Upstreams = st_Upstreams c\<rparr>"

text \<open>\<open>HasSynced\<close>, which also answers for a controller without a client.\<close>

definition HasSynced :: "k8s_port option \<Rightarrow> bool" where
  "HasSynced k = (case k of None \<Rightarrow> False | Some p \<Rightarrow> k8s_HasSynced p)"

end
