(* ===== verification/KubernetesAdapter.thy ===== *)
theory KubernetesAdapter
  imports Controller
begin

text \<open>
  \<open>internal/adapters/kubernetes/client.go\<close>: mapping Kubernetes objects to the model, the event
  handlers that filter and translate informer notifications, and the queries on the listers.

  The listers of \<open>client-go\<close> are not part of the repository: they are the record \<open>listers\<close>,
  a parameter. What the adapter relies on is the predicate \<open>listers_ok\<close>: an object is found
  under its own namespace and name, the list holds exactly the objects that can be found,
  a selector returns pods of the namespace whose labels match, and names hold no slash. The
  locale \<open>kubernetes_port\<close> is what the controller needs from the port, and the adapter's port
  over well-behaved listers is an interpretation of it.
\<close>

section \<open>Kubernetes objects\<close>

text \<open>The fields of \<open>corev1.Service\<close>, \<open>Pod\<close> and \<open>Node\<close> that the adapter reads.\<close>

record core_service =
  cs_Name :: string
  cs_Namespace :: string
  cs_Labels :: labels
  cs_Selector :: labels
  cs_Type :: string
  cs_NodePorts :: "32 word list"

record core_pod =
  cp_Name :: string
  cp_Namespace :: string
  cp_Labels :: labels
  cp_NodeName :: string
  cp_PodIP :: string
  cp_Phase :: string
  cp_Deleting :: bool
  cp_Conditions :: "(string \<times> string) list"
  cp_ContainersReady :: "bool list"

record core_node =
  cn_Name :: string
  cn_Addresses :: "(string \<times> string) list"

section \<open>Mapping to the model\<close>

definition isMLBService :: "core_service \<Rightarrow> bool" where
  "isMLBService svc \<longleftrightarrow>
     has_key (cs_Labels svc) ''mlb-loadbalancer-name'' \<and>
     has_key (cs_Labels svc) ''mlb-upstream-name'' \<and>
     has_key (cs_Labels svc) ''mlb-port'' \<and>
     (cs_Type svc = ''LoadBalancer'' \<or> cs_Type svc = ''NodePort'')"

definition isPodReady :: "core_pod \<Rightarrow> bool" where
  "isPodReady pod =
     (if cp_Deleting pod then False
      else (case find (\<lambda>(t, s). t = ''Ready'') (cp_Conditions pod) of
              Some (t, s) \<Rightarrow> s = ''True''
            | None \<Rightarrow>
                if cp_Phase pod \<noteq> ''Running'' then False
                else if cp_ContainersReady pod = [] then False
                else list_all (\<lambda>r. r) (cp_ContainersReady pod)))"

definition getNodePort :: "core_service \<Rightarrow> 32 word" where
  "getNodePort svc =
     (case map_of (cs_Labels svc) ''mlb-port'' of
        Some nodePortStr \<Rightarrow>
          (case ParseInt 32 nodePortStr of
             Some num64 \<Rightarrow> if 1 \<le> num64 \<and> num64 \<le> 65535 then to_int32 num64 else 0
           | None \<Rightarrow> 0)
      | None \<Rightarrow>
          (case cs_NodePorts svc of
             np # _ \<Rightarrow>
               if (cs_Type svc = ''NodePort'' \<or> cs_Type svc = ''LoadBalancer'') \<and>
                  1 \<le> sint np \<and> sint np \<le> 65535 then np else 0
           | [] \<Rightarrow> 0))"

definition node_address :: "string \<Rightarrow> core_node \<Rightarrow> string" where
  "node_address t node =
     (case find (\<lambda>(a, _). a = t) (cn_Addresses node) of Some (_, ip) \<Rightarrow> ip | None \<Rightarrow> '''')"

definition getNodeInternalIP :: "core_node \<Rightarrow> string" where
  "getNodeInternalIP node = node_address ''InternalIP'' node"

definition getNodeExternalIP :: "core_node \<Rightarrow> string" where
  "getNodeExternalIP node = node_address ''ExternalIP'' node"

definition mapService :: "core_service \<Rightarrow> service" where
  "mapService svc =
     \<lparr>svc_Name = cs_Name svc, svc_Namespace = cs_Namespace svc, svc_Labels = cs_Labels svc,
      svc_Selector = cs_Selector svc, svc_ServiceType = cs_Type svc,
      svc_NodePort = getNodePort svc\<rparr>"

definition mapPod :: "core_pod \<Rightarrow> pod" where
  "mapPod pod =
     \<lparr>pod_Name = cp_Name pod, pod_Namespace = cp_Namespace pod, pod_NodeName = cp_NodeName pod,
      pod_IP = cp_PodIP pod, pod_Status = cp_Phase pod, pod_Ready = isPodReady pod,
      pod_Labels = cp_Labels pod\<rparr>"

definition mapNode :: "core_node \<Rightarrow> node" where
  "mapNode node =
     \<lparr>node_Name = cn_Name node, node_ClusterIP = '''', node_InternalIP = getNodeInternalIP node,
      node_ExternalIP = getNodeExternalIP node\<rparr>"

section \<open>Event handlers\<close>

text \<open>
  What an informer passes to a handler: an object, a tombstone holding the last known object,
  or something else. Each handler returns the event that it sends, if any.
\<close>

datatype core_obj =
    ObjService core_service
  | ObjPod core_pod
  | ObjNode core_node
  | Tombstone core_obj
  | ObjOther

text \<open>\<open>DeletedFinalStateUnknown\<close> is unwrapped once.\<close>

fun untombstone :: "core_obj \<Rightarrow> core_obj" where
  "untombstone (Tombstone obj) = obj"
| "untombstone obj = obj"

definition service_AddFunc :: "core_obj \<Rightarrow> service_event option" where
  "service_AddFunc obj =
     (case obj of
        ObjService svc \<Rightarrow>
          if isMLBService svc then Some \<lparr>se_Type = EventTypeAdd, se_Service = mapService svc\<rparr> else None
      | _ \<Rightarrow> None)"

definition service_UpdateFunc :: "core_obj \<Rightarrow> core_obj \<Rightarrow> service_event option" where
  "service_UpdateFunc oldObj newObj =
     (case newObj of
        ObjService newSvc \<Rightarrow>
          (let wasMLB = (case oldObj of ObjService oldSvc \<Rightarrow> isMLBService oldSvc | _ \<Rightarrow> False);
               isMLB = isMLBService newSvc
           in if wasMLB \<and> \<not> isMLB then
                (case oldObj of
                   ObjService oldSvc \<Rightarrow>
                     Some \<lparr>se_Type = EventTypeDelete, se_Service = mapService oldSvc\<rparr>
                 | _ \<Rightarrow> None)
              else if isMLB then Some \<lparr>se_Type = EventTypeUpdate, se_Service = mapService newSvc\<rparr>
              else None)
      | _ \<Rightarrow> None)"

definition service_DeleteFunc :: "core_obj \<Rightarrow> service_event option" where
  "service_DeleteFunc obj =
     (case untombstone obj of
        ObjService svc \<Rightarrow>
          if isMLBService svc then Some \<lparr>se_Type = EventTypeDelete, se_Service = mapService svc\<rparr>
          else None
      | _ \<Rightarrow> None)"

definition pod_event_of :: "event_type \<Rightarrow> core_obj \<Rightarrow> pod_event option" where
  "pod_event_of t obj =
     (case obj of ObjPod pod \<Rightarrow> Some \<lparr>pe_Type = t, pe_Pod = mapPod pod\<rparr> | _ \<Rightarrow> None)"

definition pod_AddFunc :: "core_obj \<Rightarrow> pod_event option" where
  "pod_AddFunc obj = pod_event_of EventTypeAdd obj"

definition pod_UpdateFunc :: "core_obj \<Rightarrow> core_obj \<Rightarrow> pod_event option" where
  "pod_UpdateFunc oldObj newObj = pod_event_of EventTypeUpdate newObj"

definition pod_DeleteFunc :: "core_obj \<Rightarrow> pod_event option" where
  "pod_DeleteFunc obj = pod_event_of EventTypeDelete (untombstone obj)"

definition node_event_of :: "event_type \<Rightarrow> core_obj \<Rightarrow> node_event option" where
  "node_event_of t obj =
     (case obj of ObjNode node \<Rightarrow> Some \<lparr>ne_Type = t, ne_Node = mapNode node\<rparr> | _ \<Rightarrow> None)"

definition node_AddFunc :: "core_obj \<Rightarrow> node_event option" where
  "node_AddFunc obj = node_event_of EventTypeAdd obj"

definition node_UpdateFunc :: "core_obj \<Rightarrow> core_obj \<Rightarrow> node_event option" where
  "node_UpdateFunc oldObj newObj = node_event_of EventTypeUpdate newObj"

definition node_DeleteFunc :: "core_obj \<Rightarrow> node_event option" where
  "node_DeleteFunc obj = node_event_of EventTypeDelete (untombstone obj)"

text \<open>
  \<open>sendServiceEvent\<close> and its two siblings: the \<open>select\<close> either sends on the channel or, once
  the context is done, may give up. \<open>sent\<close> is which of the two it took.
\<close>

definition sendServiceEvent :: "bool \<Rightarrow> service_event list \<Rightarrow> service_event \<Rightarrow> service_event list" where
  "sendServiceEvent sent events event = (if sent then events @ [event] else events)"

definition sendPodEvent :: "bool \<Rightarrow> pod_event list \<Rightarrow> pod_event \<Rightarrow> pod_event list" where
  "sendPodEvent sent events event = (if sent then events @ [event] else events)"

definition sendNodeEvent :: "bool \<Rightarrow> node_event list \<Rightarrow> node_event \<Rightarrow> node_event list" where
  "sendNodeEvent sent events event = (if sent then events @ [event] else events)"

text \<open>The handlers that are registered: what the informer notifies of, and the channel.\<close>

datatype informer_call = AddFunc core_obj | UpdateFunc core_obj core_obj | DeleteFunc core_obj

fun service_event_of :: "informer_call \<Rightarrow> service_event option" where
  "service_event_of (AddFunc obj) = service_AddFunc obj"
| "service_event_of (UpdateFunc oldObj newObj) = service_UpdateFunc oldObj newObj"
| "service_event_of (DeleteFunc obj) = service_DeleteFunc obj"

definition service_handler :: "bool \<Rightarrow> service_event list \<Rightarrow> informer_call \<Rightarrow> service_event list" where
  "service_handler sent events call =
     (case service_event_of call of None \<Rightarrow> events | Some e \<Rightarrow> sendServiceEvent sent events e)"

fun pod_call :: "informer_call \<Rightarrow> pod_event option" where
  "pod_call (AddFunc obj) = pod_AddFunc obj"
| "pod_call (UpdateFunc oldObj newObj) = pod_UpdateFunc oldObj newObj"
| "pod_call (DeleteFunc obj) = pod_DeleteFunc obj"

definition pod_handler :: "bool \<Rightarrow> pod_event list \<Rightarrow> informer_call \<Rightarrow> pod_event list" where
  "pod_handler sent events call =
     (case pod_call call of None \<Rightarrow> events | Some e \<Rightarrow> sendPodEvent sent events e)"

fun node_call :: "informer_call \<Rightarrow> node_event option" where
  "node_call (AddFunc obj) = node_AddFunc obj"
| "node_call (UpdateFunc oldObj newObj) = node_UpdateFunc oldObj newObj"
| "node_call (DeleteFunc obj) = node_DeleteFunc obj"

definition node_handler :: "bool \<Rightarrow> node_event list \<Rightarrow> informer_call \<Rightarrow> node_event list" where
  "node_handler sent events call =
     (case node_call call of None \<Rightarrow> events | Some e \<Rightarrow> sendNodeEvent sent events e)"

text \<open>While the context is live, every event arrives, in the order of the notifications.\<close>

lemma handlers_in_order:
  "foldl (service_handler True) sevents calls = sevents @ List.map_filter service_event_of calls"
  "foldl (pod_handler True) pevents calls = pevents @ List.map_filter pod_call calls"
  "foldl (node_handler True) nevents calls = nevents @ List.map_filter node_call calls"
  by (induction calls arbitrary: sevents pevents nevents)
    (auto simp: service_handler_def pod_handler_def node_handler_def sendServiceEvent_def
      sendPodEvent_def sendNodeEvent_def List.map_filter_simps split: option.split)

section \<open>Queries on the listers\<close>

record listers =
  lst_Services :: "goerror + core_service list"
  lst_Service :: "string \<Rightarrow> string \<Rightarrow> goerror + core_service"
  lst_Pods :: "string \<Rightarrow> labels \<Rightarrow> goerror + core_pod list"
  lst_Node :: "string \<Rightarrow> goerror + core_node"
  lst_ServicesSynced :: bool
  lst_PodsSynced :: bool
  lst_NodesSynced :: bool

definition GetPodsForSelector :: "listers \<Rightarrow> string \<Rightarrow> labels \<Rightarrow> goerror + pod list" where
  "GetPodsForSelector L namespace selector =
     (if selector = [] then Inr []
      else (case lst_Pods L namespace selector of
              Inl e \<Rightarrow> Inl (Wrapf ''failed to list pods from cache'' e)
            | Inr pods \<Rightarrow> Inr (map mapPod pods)))"

definition GetService :: "listers \<Rightarrow> string \<Rightarrow> string \<Rightarrow> goerror + service" where
  "GetService L namespace name =
     (case lst_Service L namespace name of
        Inl e \<Rightarrow> Inl e
      | Inr svc \<Rightarrow>
          if \<not> isMLBService svc
          then Inl (Errorf (''service '' @ slash_key namespace name @ '' is not an MLB service''))
          else Inr (mapService svc))"

definition ListServices :: "listers \<Rightarrow> goerror + service list" where
  "ListServices L =
     (case lst_Services L of
        Inl e \<Rightarrow> Inl (Wrapf ''failed to list services'' e)
      | Inr svcs \<Rightarrow> Inr (map mapService (filter isMLBService svcs)))"

definition GetNodeByName :: "listers \<Rightarrow> string \<Rightarrow> goerror + node" where
  "GetNodeByName L name =
     (case lst_Node L name of
        Inl e \<Rightarrow> Inl (Wrapf (''failed to get node '' @ name @ '' from cache'') e)
      | Inr node \<Rightarrow> Inr (mapNode node))"

text \<open>\<open>HasSynced\<close>, for an adapter with or without an informer factory.\<close>

definition adapter_HasSynced :: "listers option \<Rightarrow> bool" where
  "adapter_HasSynced factory =
     (case factory of
        None \<Rightarrow> False
      | Some L \<Rightarrow> lst_ServicesSynced L \<and> lst_PodsSynced L \<and> lst_NodesSynced L)"

text \<open>The adapter as the controller's port.\<close>

definition adapter_port :: "listers \<Rightarrow> k8s_port" where
  "adapter_port L =
     \<lparr>k8s_GetService = GetService L, k8s_ListServices = ListServices L,
      k8s_GetPodsForSelector = GetPodsForSelector L, k8s_GetNodeByName = GetNodeByName L,
      k8s_HasSynced = adapter_HasSynced (Some L)\<rparr>"

lemma adapter_port_simps [simp]:
  "k8s_GetService (adapter_port L) = GetService L"
  "k8s_ListServices (adapter_port L) = ListServices L"
  "k8s_GetPodsForSelector (adapter_port L) = GetPodsForSelector L"
  "k8s_GetNodeByName (adapter_port L) = GetNodeByName L"
  by (simp_all add: adapter_port_def)

section \<open>What the controller needs from the port\<close>

text \<open>
  The contract of the port over snapshots of the caches: services are found under their own
  namespace and name, the list holds each service that can be found once, names hold no slash
  (so keys determine them), selected pods belong to the namespace and match the selector.
\<close>

locale kubernetes_port =
  fixes invar :: "'s \<Rightarrow> bool"
    and port :: "'s \<Rightarrow> k8s_port"
  assumes get_service_id: "invar s \<Longrightarrow> k8s_GetService (port s) ns n = Inr svc \<Longrightarrow>
      svc_Namespace svc = ns \<and> svc_Name svc = n"
    and get_service_listed: "invar s \<Longrightarrow> k8s_GetService (port s) ns n = Inr svc \<Longrightarrow>
      k8s_ListServices (port s) = Inr svcs \<Longrightarrow> svc \<in> set svcs"
    and list_services_found: "invar s \<Longrightarrow> k8s_ListServices (port s) = Inr svcs \<Longrightarrow>
      svc \<in> set svcs \<Longrightarrow> k8s_GetService (port s) (svc_Namespace svc) (svc_Name svc) = Inr svc"
    and list_services_distinct: "invar s \<Longrightarrow> k8s_ListServices (port s) = Inr svcs \<Longrightarrow> distinct svcs"
    and list_services_names: "invar s \<Longrightarrow> k8s_ListServices (port s) = Inr svcs \<Longrightarrow>
      svc \<in> set svcs \<Longrightarrow> CHR ''/'' \<notin> set (svc_Name svc)"
    and pods_selected: "invar s \<Longrightarrow> k8s_GetPodsForSelector (port s) ns sel = Inr pods \<Longrightarrow>
      pod \<in> set pods \<Longrightarrow> pod_Namespace pod = ns \<and> matchLabels (pod_Labels pod) sel"
begin

lemma list_services_same_name:
  assumes "invar s" and "k8s_ListServices (port s) = Inr svcs"
    and "a \<in> set svcs" and "b \<in> set svcs"
    and "svc_Namespace a = svc_Namespace b" and "svc_Name a = svc_Name b"
  shows "a = b"
proof -
  have "Inr a = (Inr b :: goerror + service)"
    using list_services_found [OF assms(1,2,3)] list_services_found [OF assms(1,2,4)]
    unfolding assms(5,6) by (rule trans [OF sym])
  then show ?thesis by (rule sum.inject(2) [THEN iffD1])
qed

lemma list_services_same_key:
  assumes "invar s" and "k8s_ListServices (port s) = Inr svcs"
    and "a \<in> set svcs" and "b \<in> set svcs" and "svc_key a = svc_key b"
  shows "a = b"
proof -
  have "CHR ''/'' \<notin> set (svc_Name a)" "CHR ''/'' \<notin> set (svc_Name b)"
    using list_services_names assms by metis+
  then have "svc_Namespace a = svc_Namespace b \<and> svc_Name a = svc_Name b"
    using assms(5) by (simp add: svc_key_def slash_key_def append_sep_inject)
  then show ?thesis
    using list_services_same_name [OF assms(1-4)] by simp
qed

lemma list_services_distinct_keys:
  assumes "invar s" and "k8s_ListServices (port s) = Inr svcs"
  shows "distinct (map svc_key svcs)"
proof -
  have "inj_on svc_key (set svcs)"
    by (rule inj_onI) (rule list_services_same_key [OF assms])
  with list_services_distinct [OF assms] show ?thesis
    by (simp add: distinct_map)
qed

end

section \<open>The adapter provides it\<close>

text \<open>The documented behaviour of the listers and of Kubernetes names.\<close>

definition listers_ok :: "listers \<Rightarrow> bool" where
  "listers_ok L \<longleftrightarrow>
     (\<forall>ns n svc. lst_Service L ns n = Inr svc \<longrightarrow> cs_Namespace svc = ns \<and> cs_Name svc = n) \<and>
     (\<forall>svcs. lst_Services L = Inr svcs \<longrightarrow>
        distinct (map (\<lambda>s. (cs_Namespace s, cs_Name s)) svcs) \<and>
        (\<forall>ns n svc. lst_Service L ns n = Inr svc \<longrightarrow> svc \<in> set svcs) \<and>
        (\<forall>svc \<in> set svcs. lst_Service L (cs_Namespace svc) (cs_Name svc) = Inr svc \<and>
           CHR ''/'' \<notin> set (cs_Name svc))) \<and>
     (\<forall>ns sel pods. lst_Pods L ns sel = Inr pods \<longrightarrow>
        (\<forall>pod \<in> set pods. cp_Namespace pod = ns \<and>
           (\<forall>(k, v) \<in> set sel. map_of (cp_Labels pod) k = Some v)))"

lemma mapService_simps [simp]:
  "svc_Name (mapService s) = cs_Name s" "svc_Namespace (mapService s) = cs_Namespace s"
  "svc_Labels (mapService s) = cs_Labels s" "svc_Selector (mapService s) = cs_Selector s"
  "svc_NodePort (mapService s) = getNodePort s"
  by (simp_all add: mapService_def)

lemma mapPod_simps [simp]:
  "pod_Name (mapPod p) = cp_Name p" "pod_Namespace (mapPod p) = cp_Namespace p"
  "pod_Labels (mapPod p) = cp_Labels p" "pod_Ready (mapPod p) = isPodReady p"
  "pod_NodeName (mapPod p) = cp_NodeName p"
  by (simp_all add: mapPod_def)

lemma ListServices_Inr:
  "ListServices L = Inr svcs \<longleftrightarrow>
     (\<exists>cs. lst_Services L = Inr cs \<and> svcs = map mapService (filter isMLBService cs))"
  by (auto simp: ListServices_def split: sum.splits)

lemma GetService_Inr:
  "GetService L ns n = Inr svc \<longleftrightarrow>
     (\<exists>cs. lst_Service L ns n = Inr cs \<and> isMLBService cs \<and> svc = mapService cs)"
  by (auto simp: GetService_def split: sum.splits)

lemma distinct_map_through:
  "distinct (map f xs) \<Longrightarrow> (\<And>x. h (g x) = f x) \<Longrightarrow> distinct (map g xs)"
  by (auto simp: distinct_map inj_on_def) metis

interpretation adapter: kubernetes_port listers_ok adapter_port
proof unfold_locales
  fix L ns n svc svcs
  assume ok: "listers_ok L"
  {
    assume "k8s_GetService (adapter_port L) ns n = Inr svc"
    with ok show "svc_Namespace svc = ns \<and> svc_Name svc = n"
      by (auto simp: adapter_port_def GetService_Inr listers_ok_def)
  }
  {
    assume "k8s_GetService (adapter_port L) ns n = Inr svc" "k8s_ListServices (adapter_port L) = Inr svcs"
    with ok show "svc \<in> set svcs"
      by (fastforce simp: adapter_port_def GetService_Inr ListServices_Inr listers_ok_def)
  }
  {
    assume "k8s_ListServices (adapter_port L) = Inr svcs" "svc \<in> set svcs"
    with ok show "k8s_GetService (adapter_port L) (svc_Namespace svc) (svc_Name svc) = Inr svc"
      and "CHR ''/'' \<notin> set (svc_Name svc)"
      by (auto simp: adapter_port_def GetService_Inr ListServices_Inr listers_ok_def)
  }
  {
    assume "k8s_ListServices (adapter_port L) = Inr svcs"
    then obtain cs where cs: "lst_Services L = Inr cs" "svcs = map mapService (filter isMLBService cs)"
      by (auto simp: adapter_port_def ListServices_Inr)
    with ok have "distinct (map (\<lambda>s. (cs_Namespace s, cs_Name s)) cs)"
      by (simp add: listers_ok_def)
    then have "distinct (map (\<lambda>s. (cs_Namespace s, cs_Name s)) (filter isMLBService cs))"
      by (rule distinct_map_filter)
    then have "distinct (map mapService (filter isMLBService cs))"
      by (rule distinct_map_through [where h = "\<lambda>s. (svc_Namespace s, svc_Name s)"]) simp
    with cs show "distinct svcs" by simp
  }
next
  fix L ns sel pods pod
  assume ok: "listers_ok L" and pods: "k8s_GetPodsForSelector (adapter_port L) ns sel = Inr pods"
    and "pod \<in> set pods"
  then have ne: "sel \<noteq> []"
    by (auto simp: adapter_port_def GetPodsForSelector_def)
  with pods obtain ps where ps: "lst_Pods L ns sel = Inr ps" "pods = map mapPod ps"
    by (auto simp: adapter_port_def GetPodsForSelector_def split: sum.splits)
  with \<open>pod \<in> set pods\<close> obtain p where p: "p \<in> set ps" "pod = mapPod p" by auto
  with ok ps(1) have "cp_Namespace p = ns \<and> (\<forall>(k, v) \<in> set sel. map_of (cp_Labels p) k = Some v)"
    unfolding listers_ok_def by blast
  with p ne show "pod_Namespace pod = ns \<and> matchLabels (pod_Labels pod) sel"
    by (auto simp: matchLabels_def list_all_iff str_get_def)
qed

end
