(* ===== verification/Cluster.thy ===== *)
theory Cluster
  imports KubernetesAdapter
begin

text \<open>
  Concrete instances for the witnesses: the listers over a cluster given by its lists of
  objects, which satisfy the documented behaviour \<open>listers_ok\<close>; a small cluster and its
  configuration; and a load balancer adapter that records the upstreams it is given.
\<close>

section \<open>Listers over lists of objects\<close>

definition labels_match :: "labels \<Rightarrow> labels \<Rightarrow> bool" where
  "labels_match labels sel \<longleftrightarrow> list_all (\<lambda>(k, v). map_of labels k = Some v) sel"

definition cluster_listers ::
  "core_service list \<Rightarrow> core_pod list \<Rightarrow> core_node list \<Rightarrow> listers" where
  "cluster_listers svcs pods nodes =
     \<lparr>lst_Services = Inr svcs,
      lst_Service = (\<lambda>ns n. case find (\<lambda>s. cs_Namespace s = ns \<and> cs_Name s = n) svcs of
         Some s \<Rightarrow> Inr s | None \<Rightarrow> Inl (Errorf ''not found'')),
      lst_Pods = (\<lambda>ns sel. Inr (filter (\<lambda>p. cp_Namespace p = ns \<and> labels_match (cp_Labels p) sel) pods)),
      lst_Node = (\<lambda>n. case find (\<lambda>x. cn_Name x = n) nodes of
         Some x \<Rightarrow> Inr x | None \<Rightarrow> Inl (Errorf ''not found'')),
      lst_ServicesSynced = True, lst_PodsSynced = True, lst_NodesSynced = True\<rparr>"

lemma find_distinct:
  assumes "distinct (map f xs)" and "x \<in> set xs"
  shows "find (\<lambda>y. f y = f x) xs = Some x"
  using assms by (induction xs) force+

lemma listers_ok_cluster:
  assumes "distinct (map (\<lambda>s. (cs_Namespace s, cs_Name s)) svcs)"
    and "list_all (\<lambda>s. CHR ''/'' \<notin> set (cs_Name s)) svcs"
  shows "listers_ok (cluster_listers svcs pods nodes)"
proof -
  have found: "find (\<lambda>s. cs_Namespace s = cs_Namespace x \<and> cs_Name s = cs_Name x) svcs = Some x"
    if "x \<in> set svcs" for x
    using find_distinct [OF assms(1) that] by simp
  have member: "x \<in> set svcs \<and> cs_Namespace x = ns \<and> cs_Name x = n"
    if "find (\<lambda>s. cs_Namespace s = ns \<and> cs_Name s = n) svcs = Some x" for ns n x
    using that by (auto simp: find_Some_iff)
  show ?thesis
    using assms
    by (auto simp: listers_ok_def cluster_listers_def labels_match_def list_all_iff found
        dest: member split: option.splits)
qed

section \<open>A small cluster\<close>

definition demo_labels :: labels where
  "demo_labels =
     [(''mlb-loadbalancer-name'', ''lb1''), (''mlb-upstream-name'', ''web''), (''mlb-port'', ''30080'')]"

definition demo_service :: "string \<Rightarrow> core_service" where
  "demo_service n =
     \<lparr>cs_Name = n, cs_Namespace = ''default'', cs_Labels = demo_labels,
      cs_Selector = [(''app'', n)], cs_Type = ''NodePort'', cs_NodePorts = []\<rparr>"

definition demo_pod :: core_pod where
  "demo_pod =
     \<lparr>cp_Name = ''web-1'', cp_Namespace = ''default'', cp_Labels = [(''app'', ''web'')],
      cp_NodeName = ''n1'', cp_PodIP = ''172.16.0.1'', cp_Phase = ''Running'', cp_Deleting = False,
      cp_Conditions = [(''Ready'', ''True'')], cp_ContainersReady = [True]\<rparr>"

definition demo_node :: core_node where
  "demo_node = \<lparr>cn_Name = ''n1'', cn_Addresses = [(''InternalIP'', ''10.0.0.1'')]\<rparr>"

definition demo_listers :: "string list \<Rightarrow> listers" where
  "demo_listers names = cluster_listers (map demo_service names) [demo_pod] [demo_node]"

lemma demo_listers_ok:
  assumes "distinct names" and "list_all (\<lambda>n. CHR ''/'' \<notin> set n) names"
  shows "listers_ok (demo_listers names)"
  unfolding demo_listers_def using assms
  by (intro listers_ok_cluster) (auto simp: demo_service_def distinct_map inj_on_def list_all_iff)

definition demo_config :: config where
  "demo_config =
     \<lparr>cfg_GlobalUpstreamSyncPeriod = 30,
      cfg_LeaderElection = \<lparr>le_Enabled = False, le_LeaseName = '''', le_LeaseNamespace = '''',
        le_LeaseDuration = 15, le_RenewDeadline = 10, le_RetryPeriod = 2\<rparr>,
      cfg_Log = \<lparr>log_Enabled = True, log_Level = ''info'', log_Format = ''json''\<rparr>,
      cfg_Metrics = \<lparr>met_Enabled = False, met_Port = 9090, met_URI = ''/metrics''\<rparr>,
      cfg_Kubernetes = \<lparr>kub_ResyncPeriod = 300, kub_KubernetesConfig = ''''\<rparr>,
      cfg_GlobalIPReplacementList = \<lparr>grl_Net = [], grl_IP = []\<rparr>,
      cfg_LoadBalancers = [], cfg_RequestPoolSize = 5, cfg_AllowEmptyUpstream = False,
      cfg_DefaultBackend = None\<rparr>"

text \<open>An adapter that never fails and records what it is given.\<close>

definition recording_adapter :: "upstream list adapter" where
  "recording_adapter =
     \<lparr>lba_SyncUpstream = (\<lambda>u w. (None, w @ [u])),
      lba_SyncAllUpstreams = (\<lambda>desired w. (None, w @ map snd desired))\<rparr>"

definition demo_deps :: "string list \<Rightarrow> upstream list deps" where
  "demo_deps names =
     \<lparr>dep_k8s = adapter_port (demo_listers names), dep_config = demo_config,
      dep_loadBalancers = [(''lb1'', recording_adapter)]\<rparr>"

lemmas demo_defs =
  demo_deps_def recording_adapter_def demo_config_def demo_listers_def demo_node_def demo_pod_def
  demo_service_def demo_labels_def cluster_listers_def labels_match_def adapter_port_def
  ListServices_def GetService_def GetPodsForSelector_def GetNodeByName_def isMLBService_def
  isPodReady_def mapService_def mapPod_def mapNode_def getNodeInternalIP_def getNodeExternalIP_def
  node_address_def has_key_def lb_label_def upstream_label_def str_get_def svc_key_def slash_key_def

end
