(* ===== verification/ControllerProps.thy ===== *)
theory ControllerProps
  imports Cluster
begin

text \<open>
  Properties of the controller's event path: the state invariant \<open>ctrl_ok\<close> and its
  preservation by every handler, what an event enqueues, when the load balancer is left alone
  (safety net and errors), what is merged into an upstream, the drain of an old upstream, and
  the outcome of a work item.
\<close>

section \<open>Frames\<close>

lemma metric_frame [simp]:
  "st_Services (metric m c) = st_Services c" "st_Pods (metric m c) = st_Pods c"
  "st_Nodes (metric m c) = st_Nodes c" "st_Upstreams (metric m c) = st_Upstreams c"
  "lastKnownServices (metric m c) = lastKnownServices c" "world (metric m c) = world c"
  "queue_calls (metric m c) = queue_calls c" "metric_calls (metric m c) = metric_calls c @ [m]"
  by (simp_all add: metric_def)

lemma enqueue_frame [simp]:
  "st_Services (enqueue q c) = st_Services c" "st_Pods (enqueue q c) = st_Pods c"
  "st_Nodes (enqueue q c) = st_Nodes c" "st_Upstreams (enqueue q c) = st_Upstreams c"
  "lastKnownServices (enqueue q c) = lastKnownServices c" "world (enqueue q c) = world c"
  "queue_calls (enqueue q c) = queue_calls c @ [q]" "metric_calls (enqueue q c) = metric_calls c"
  by (simp_all add: enqueue_def)

lemma syncLoadBalancerUpstream_frame:
  assumes "syncLoadBalancerUpstream d u c = (r, c')"
  shows "c' = c\<lparr>world := world c'\<rparr>"
  using assms by (auto simp: syncLoadBalancerUpstream_def split: option.splits prod.splits)

lemma syncLoadBalancerUpstream_state:
  assumes "syncLoadBalancerUpstream d u c = (r, c')"
  shows "st_Services c' = st_Services c" "st_Pods c' = st_Pods c" "st_Nodes c' = st_Nodes c"
    "st_Upstreams c' = st_Upstreams c" "lastKnownServices c' = lastKnownServices c"
    "metric_calls c' = metric_calls c" "queue_calls c' = queue_calls c"
  using assms by (auto simp: syncLoadBalancerUpstream_def split: option.splits prod.splits)

text \<open>What a pod event adds to the queue, in closed form.\<close>

definition selects :: "pod \<Rightarrow> service \<Rightarrow> bool" where
  "selects pod svc \<longleftrightarrow>
     svc_Namespace svc = pod_Namespace pod \<and> matchLabels (pod_Labels pod) (svc_Selector svc)"

definition pod_keys :: "pod \<Rightarrow> (string, service) gomap \<Rightarrow> queue_op list" where
  "pod_keys pod svcs = map (\<lambda>s. QAdd (QKey (svc_key s))) (filter (selects pod) (map snd svcs))"

lemma enqueueUpstreamsForPod_eq:
  "enqueueUpstreamsForPod pod c = c\<lparr>queue_calls := queue_calls c @ pod_keys pod (st_Services c)\<rparr>"
proof -
  have "foldl (\<lambda>c (key, svc).
      if svc_Namespace svc = pod_Namespace pod \<and> matchLabels (pod_Labels pod) (svc_Selector svc)
      then enqueue (QAdd (QKey (svc_key svc))) c else c) c svcs =
    c\<lparr>queue_calls := queue_calls c @ pod_keys pod svcs\<rparr>" for svcs
    by (induction svcs arbitrary: c) (auto simp: pod_keys_def selects_def enqueue_def)
  then show ?thesis
    by (simp add: enqueueUpstreamsForPod_def)
qed

lemma enqueueUpstreamsForPod_frame [simp]:
  "st_Services (enqueueUpstreamsForPod p c) = st_Services c"
  "st_Pods (enqueueUpstreamsForPod p c) = st_Pods c"
  "st_Nodes (enqueueUpstreamsForPod p c) = st_Nodes c"
  "st_Upstreams (enqueueUpstreamsForPod p c) = st_Upstreams c"
  "lastKnownServices (enqueueUpstreamsForPod p c) = lastKnownServices c"
  "world (enqueueUpstreamsForPod p c) = world c"
  "metric_calls (enqueueUpstreamsForPod p c) = metric_calls c"
  "queue_calls (enqueueUpstreamsForPod p c) = queue_calls c @ pod_keys p (st_Services c)"
  by (simp_all add: enqueueUpstreamsForPod_eq)

lemma enqueueUpstreamsForNode_eq:
  "enqueueUpstreamsForNode node c =
     c\<lparr>queue_calls := queue_calls c @
       concat (map (\<lambda>p. pod_keys p (st_Services c))
         (filter (\<lambda>p. pod_NodeName p = node_Name node) (map snd (st_Pods c))))\<rparr>"
proof -
  have "foldl (\<lambda>c p. enqueueUpstreamsForPod p c) c ps =
    c\<lparr>queue_calls := queue_calls c @ concat (map (\<lambda>p. pod_keys p (st_Services c)) ps)\<rparr>" for ps
    by (induction ps arbitrary: c) (auto simp: enqueueUpstreamsForPod_eq)
  then show ?thesis
    by (simp add: enqueueUpstreamsForNode_def)
qed

lemma enqueueUpstreamsForNode_frame [simp]:
  "st_Services (enqueueUpstreamsForNode n c) = st_Services c"
  "st_Pods (enqueueUpstreamsForNode n c) = st_Pods c"
  "st_Nodes (enqueueUpstreamsForNode n c) = st_Nodes c"
  "st_Upstreams (enqueueUpstreamsForNode n c) = st_Upstreams c"
  "lastKnownServices (enqueueUpstreamsForNode n c) = lastKnownServices c"
  "world (enqueueUpstreamsForNode n c) = world c"
  "metric_calls (enqueueUpstreamsForNode n c) = metric_calls c"
  by (simp_all add: enqueueUpstreamsForNode_eq)

section \<open>The state invariant\<close>

text \<open>
  Every map has distinct keys and each key is the one of its value. A stored upstream belongs
  to a named load balancer, is not marked as preserved, and its backends are merged: sorted,
  one per address.
\<close>

definition upstream_ok :: "string \<Rightarrow> upstream \<Rightarrow> bool" where
  "upstream_ok k u \<longleftrightarrow>
     k = slash_key (up_LoadBalancer u) (up_Name u) \<and> up_LoadBalancer u \<noteq> '''' \<and> up_Name u \<noteq> '''' \<and>
     \<not> up_PreserveExistingBackends u \<and> merged (up_Backends u) = up_Backends u"

definition ctrl_ok :: "'w ctrl \<Rightarrow> bool" where
  "ctrl_ok c \<longleftrightarrow>
     entries_ok (\<lambda>k s. k = svc_key s) (st_Services c) \<and>
     entries_ok (\<lambda>k p. k = slash_key (pod_Namespace p) (pod_Name p)) (st_Pods c) \<and>
     entries_ok (\<lambda>k n. k = node_Name n) (st_Nodes c) \<and>
     entries_ok upstream_ok (st_Upstreams c) \<and>
     entries_ok (\<lambda>k s. k = svc_key s) (lastKnownServices c)"

lemma ctrl_ok_NewController: "ctrl_ok (NewController w)"
  by (simp add: ctrl_ok_def NewController_def)

lemma ctrl_ok_frame [simp]:
  "ctrl_ok (metric m c) = ctrl_ok c" "ctrl_ok (enqueue q c) = ctrl_ok c"
  "ctrl_ok (c\<lparr>world := w\<rparr>) = ctrl_ok c"
  by (simp_all add: ctrl_ok_def)

lemma ctrl_ok_syncLoadBalancerUpstream:
  "syncLoadBalancerUpstream d u c = (r, c') \<Longrightarrow> ctrl_ok c' = ctrl_ok c"
  using syncLoadBalancerUpstream_state [of d u c r c'] by (simp add: ctrl_ok_def)

lemma handleServiceEvent_ok: "ctrl_ok c \<Longrightarrow> ctrl_ok (handleServiceEvent e c)"
  by (auto simp: handleServiceEvent_def Let_def ctrl_ok_def split: event_type.splits)

lemma handlePodEvent_ok: "ctrl_ok c \<Longrightarrow> ctrl_ok (handlePodEvent e c)"
  by (auto simp: handlePodEvent_def Let_def ctrl_ok_def split: event_type.splits option.splits)

lemma handleNodeEvent_ok: "ctrl_ok c \<Longrightarrow> ctrl_ok (handleNodeEvent e c)"
  by (auto simp: handleNodeEvent_def Let_def ctrl_ok_def split: event_type.splits)

section \<open>Building and merging\<close>

lemma pods_backends_Inr:
  "pods_backends k cfg svc pods acc = Inr bs \<Longrightarrow> \<exists>new. bs = acc @ new"
  by (induction pods arbitrary: acc) (fastforce split: sum.splits option.splits)+

lemma buildUpstream_Some:
  assumes "buildUpstream k cfg svc pods = Inr (Some u)"
  shows "up_Name u = upstream_label svc" "up_LoadBalancer u = lb_label svc"
    "\<not> up_PreserveExistingBackends u" "merged (up_Backends u) = up_Backends u"
    "lb_label svc \<noteq> ''''" "upstream_label svc \<noteq> ''''" "svc_NodePort svc \<noteq> 0"
  using assms
  by (auto simp: buildUpstream_def Let_def mergeBackends_merged split: if_splits sum.splits)

text \<open>What a service contributes to its upstream: the pods it selects, then \<open>buildUpstream\<close>.\<close>

definition svc_upstream :: "k8s_port \<Rightarrow> config \<Rightarrow> service \<Rightarrow> goerror + upstream option" where
  "svc_upstream k cfg s =
     (case k8s_GetPodsForSelector k (svc_Namespace s) (svc_Selector s) of
        Inl e \<Rightarrow> Inl e
      | Inr pods \<Rightarrow> buildUpstream k cfg s pods)"

definition svc_backends :: "k8s_port \<Rightarrow> config \<Rightarrow> service \<Rightarrow> backend list" where
  "svc_backends k cfg s =
     (case svc_upstream k cfg s of Inr (Some u) \<Rightarrow> up_Backends u | _ \<Rightarrow> [])"

definition svc_fails :: "k8s_port \<Rightarrow> config \<Rightarrow> service \<Rightarrow> bool" where
  "svc_fails k cfg s \<longleftrightarrow> (\<exists>e. svc_upstream k cfg s = Inl e)"

definition targets :: "string \<Rightarrow> string \<Rightarrow> service \<Rightarrow> bool" where
  "targets lb up s \<longleftrightarrow> lb_label s = lb \<and> upstream_label s = up"

text \<open>
  The specification of an upstream's backends: the merged backends of all the services whose
  labels name it.
\<close>

definition desired_backends ::
  "k8s_port \<Rightarrow> config \<Rightarrow> string \<Rightarrow> string \<Rightarrow> service list \<Rightarrow> backend list" where
  "desired_backends k cfg lb up svcs =
     merged (concat (map (svc_backends k cfg) (filter (targets lb up) svcs)))"

definition same_service :: "service \<Rightarrow> service \<Rightarrow> bool" where
  "same_service s t \<longleftrightarrow> svc_Namespace s = svc_Namespace t \<and> svc_Name s = svc_Name t"

lemma upstream_update_self [simp]: "u\<lparr>up_Backends := up_Backends u\<rparr> = u" for u :: upstream
  by simp

text \<open>
  The merge loop either meets a failing service of the same upstream, or adds the backends of
  every other service of that upstream.
\<close>

definition others :: "service \<Rightarrow> service list \<Rightarrow> service list" where
  "others svc svcs =
     filter (\<lambda>s. \<not> same_service s svc \<and> targets (lb_label svc) (upstream_label svc) s) svcs"

lemma merge_services_step:
  "merge_services k cfg svc (s # svcs) u =
     (if same_service s svc \<or> \<not> targets (lb_label svc) (upstream_label svc) s
      then merge_services k cfg svc svcs u
      else (case svc_upstream k cfg s of
              Inl e \<Rightarrow>
                Inl (Wrapf ((if isl (k8s_GetPodsForSelector k (svc_Namespace s) (svc_Selector s))
                             then ''failed to get pods for shared service ''
                             else ''failed to build upstream for shared service '') @ svc_key s) e)
            | Inr None \<Rightarrow> merge_services k cfg svc svcs u
            | Inr (Some v) \<Rightarrow> merge_services k cfg svc svcs
                (u\<lparr>up_Backends := mergeBackends (up_Backends u) (up_Backends v)\<rparr>)))"
  by (auto simp: same_service_def targets_def svc_upstream_def split: sum.splits option.splits)

lemma others_Cons:
  "others svc (s # svcs) =
     (if same_service s svc \<or> \<not> targets (lb_label svc) (upstream_label svc) s
      then others svc svcs else s # others svc svcs)"
  by (auto simp: others_def)

lemma merge_services_spec:
  assumes "up_Backends u = merged bs"
  shows "(if list_ex (svc_fails k cfg) (others svc svcs)
     then \<exists>e. merge_services k cfg svc svcs u = Inl e
     else merge_services k cfg svc svcs u =
       Inr (u\<lparr>up_Backends := merged (bs @ concat (map (svc_backends k cfg) (others svc svcs)))\<rparr>))"
  using assms
proof (induction svcs arbitrary: u bs)
  case Nil
  then show ?case by (simp add: others_def)
next
  case (Cons s svcs)
  show ?case
  proof (cases "same_service s svc \<or> \<not> targets (lb_label svc) (upstream_label svc) s")
    case True
    with Cons.IH [OF Cons.prems] show ?thesis
      by (simp only: merge_services_step others_Cons if_True)
  next
    case False
    consider e where "svc_upstream k cfg s = Inl e" | "svc_upstream k cfg s = Inr None"
      | v where "svc_upstream k cfg s = Inr (Some v)"
      by (metis not_None_eq sumE)
    then show ?thesis
    proof cases
      case 1
      with False show ?thesis
        by (simp only: merge_services_step others_Cons) (simp add: svc_fails_def)
    next
      case 2
      with False Cons.IH [OF Cons.prems] show ?thesis
        by (simp only: merge_services_step others_Cons) (simp add: svc_fails_def svc_backends_def)
    next
      case 3
      let ?u = "u\<lparr>up_Backends := mergeBackends (up_Backends u) (up_Backends v)\<rparr>"
      have "up_Backends ?u = merged (bs @ up_Backends v)"
        using Cons.prems by (simp add: mergeBackends_merged)
      from Cons.IH [OF this] 3 False show ?thesis
        by (simp only: merge_services_step others_Cons) (simp add: svc_fails_def svc_backends_def)
    qed
  qed
qed

section \<open>The sync of one service, in closed form\<close>

text \<open>The last part of \<open>syncUpstreamsForService\<close>: the state and the metrics, then the load balancer.\<close>

definition push_upstream :: "'w deps \<Rightarrow> upstream \<Rightarrow> 'w ctrl \<Rightarrow> goerror option \<times> 'w ctrl" where
  "push_upstream d u c =
     (let name = up_Name u;
          c = metric (UpdateBackendsTotal name (length (up_Backends u))) c;
          c = c\<lparr>st_Upstreams := AList.update (slash_key (up_LoadBalancer u) name) u (st_Upstreams c)\<rparr>
      in (case syncLoadBalancerUpstream d u c of
            (Some e, c) \<Rightarrow> (Some e, metric (IncrementSyncErrors name) c)
          | (None, c) \<Rightarrow> (None, metric (ObserveSyncDuration name) c)))"

text \<open>The upstream that the labels of a service stand for, and what the code makes of it.\<close>

definition desired_upstream ::
  "k8s_port \<Rightarrow> config \<Rightarrow> string \<Rightarrow> string \<Rightarrow> service list \<Rightarrow> upstream" where
  "desired_upstream k cfg lb up svcs =
     \<lparr>up_Name = up, up_LoadBalancer = lb, up_Backends = desired_backends k cfg lb up svcs,
      up_Type = getLoadBalancerType cfg lb, up_Config = getLoadBalancerConfig cfg lb,
      up_PreserveExistingBackends = False\<rparr>"

definition push_desired :: "'w deps \<Rightarrow> upstream \<Rightarrow> 'w ctrl \<Rightarrow> goerror option \<times> 'w ctrl" where
  "push_desired d u c =
     (case fill_empty_upstream (dep_config d) (getLoadBalancerConfig (dep_config d) (up_LoadBalancer u)) u of
        None \<Rightarrow> (None, c)
      | Some u \<Rightarrow> push_upstream d u c)"

lemma fill_empty_upstream_Some:
  assumes "fill_empty_upstream cfg lbc u = Some v"
  shows "up_Name v = up_Name u" "up_LoadBalancer v = up_LoadBalancer u"
    "up_PreserveExistingBackends v = up_PreserveExistingBackends u"
    "merged (up_Backends u) = up_Backends u \<Longrightarrow> merged (up_Backends v) = up_Backends v"
  using assms
  by (auto simp: fill_empty_upstream_def default_backends_def Let_def merged_def backend_at_def
      address_of_def weight_of_def split: if_splits option.splits)

definition sync_failed :: "service \<Rightarrow> 'w ctrl \<Rightarrow> goerror option \<times> 'w ctrl \<Rightarrow> bool" where
  "sync_failed svc c res \<longleftrightarrow>
     (\<exists>e. res = (Some e, metric (IncrementSyncErrors (upstream_label svc)) c))"

lemma syncUpstreamsForService_unlabelled:
  "lb_label svc = '''' \<or> upstream_label svc = '''' \<Longrightarrow> syncUpstreamsForService d svc c = (None, c)"
  by (auto simp: syncUpstreamsForService_def Let_def)

lemma syncUpstreamsForService_Inl:
  assumes "lb_label svc \<noteq> ''''" "upstream_label svc \<noteq> ''''"
    and "svc_upstream (dep_k8s d) (dep_config d) svc = Inl e"
  shows "sync_failed svc c (syncUpstreamsForService d svc c)"
  using assms
  by (auto simp: syncUpstreamsForService_def svc_upstream_def sync_failed_def Let_def split: sum.splits)

lemma syncUpstreamsForService_None:
  assumes "svc_upstream (dep_k8s d) (dep_config d) svc = Inr None"
  shows "syncUpstreamsForService d svc c = (None, c)"
  using assms
  by (auto simp: syncUpstreamsForService_def svc_upstream_def Let_def split: sum.splits)

lemma svc_upstream_Some:
  assumes "svc_upstream k cfg svc = Inr (Some u)"
  shows "up_Name u = upstream_label svc" "up_LoadBalancer u = lb_label svc"
    "\<not> up_PreserveExistingBackends u" "merged (up_Backends u) = up_Backends u"
    "lb_label svc \<noteq> ''''" "upstream_label svc \<noteq> ''''" "svc_NodePort svc \<noteq> 0"
    "up_Type u = getLoadBalancerType cfg (lb_label svc)"
    "up_Config u = getLoadBalancerConfig cfg (lb_label svc)"
  using assms
  by (auto simp: svc_upstream_def buildUpstream_def Let_def mergeBackends_merged
      split: if_splits sum.splits)

lemma syncUpstreamsForService_push:
  assumes "svc_upstream (dep_k8s d) (dep_config d) svc = Inr (Some u)"
    and "k8s_ListServices (dep_k8s d) = Inr svcs"
    and "merge_services (dep_k8s d) (dep_config d) svc svcs u = Inr v"
    and "up_Name v = upstream_label svc" and "up_LoadBalancer v = lb_label svc"
  shows "syncUpstreamsForService d svc c = push_desired d v c"
proof -
  have labelled: "lb_label svc \<noteq> ''''" "upstream_label svc \<noteq> ''''"
    using svc_upstream_Some [OF assms(1)] by blast+
  obtain pods where pods: "k8s_GetPodsForSelector (dep_k8s d) (svc_Namespace svc) (svc_Selector svc) = Inr pods"
      "buildUpstream (dep_k8s d) (dep_config d) svc pods = Inr (Some u)"
    using assms(1) by (auto simp: svc_upstream_def split: sum.splits)
  show ?thesis
  proof (cases "fill_empty_upstream (dep_config d) (getLoadBalancerConfig (dep_config d) (lb_label svc)) v")
    case None
    then show ?thesis
      by (simp add: syncUpstreamsForService_def push_desired_def Let_def labelled pods assms)
  next
    case (Some w)
    with fill_empty_upstream_Some(1,2) [OF Some] assms(4,5) show ?thesis
      by (simp add: syncUpstreamsForService_def push_desired_def push_upstream_def Let_def labelled pods assms)
  qed
qed

lemma syncUpstreamsForService_no_list:
  assumes "svc_upstream (dep_k8s d) (dep_config d) svc = Inr (Some u)"
    and "k8s_ListServices (dep_k8s d) = Inl e \<or>
      k8s_ListServices (dep_k8s d) = Inr svcs \<and>
      merge_services (dep_k8s d) (dep_config d) svc svcs u = Inl e"
  shows "sync_failed svc c (syncUpstreamsForService d svc c)"
  using assms(2) svc_upstream_Some(5,6) [OF assms(1)] assms(1)
  by (auto simp: syncUpstreamsForService_def svc_upstream_def sync_failed_def Let_def split: sum.splits)

text \<open>Every outcome of \<open>syncUpstreamsForService\<close>, for any port.\<close>

lemma syncUpstreamsForService_cases:
  fixes d :: "'w deps"
  defines "k \<equiv> dep_k8s d" and "cfg \<equiv> dep_config d"
  obtains
    (unlabelled) "lb_label svc = '''' \<or> upstream_label svc = ''''"
      "syncUpstreamsForService d svc c = (None, c)"
  | (failed) "lb_label svc \<noteq> ''''" "upstream_label svc \<noteq> ''''"
      "sync_failed svc c (syncUpstreamsForService d svc c)"
  | (skipped) "svc_upstream k cfg svc = Inr None" "syncUpstreamsForService d svc c = (None, c)"
  | (built) u svcs where "k8s_ListServices k = Inr svcs" "svc_upstream k cfg svc = Inr (Some u)"
      "\<not> list_ex (svc_fails k cfg) (others svc svcs)"
      "syncUpstreamsForService d svc c = push_desired d (u\<lparr>up_Backends :=
         merged (up_Backends u @ concat (map (svc_backends k cfg) (others svc svcs)))\<rparr>) c"
proof -
  show thesis
  proof (cases "lb_label svc = '''' \<or> upstream_label svc = ''''")
    case True
    then show ?thesis using unlabelled syncUpstreamsForService_unlabelled by blast
  next
    case labelled: False
    consider e where "svc_upstream k cfg svc = Inl e" | "svc_upstream k cfg svc = Inr None"
      | u where "svc_upstream k cfg svc = Inr (Some u)"
      by (metis not_None_eq sumE)
    then show ?thesis
    proof cases
      case 1
      with labelled show ?thesis
        using failed syncUpstreamsForService_Inl k_def cfg_def by blast
    next
      case 2
      then show ?thesis
        using skipped syncUpstreamsForService_None k_def cfg_def by blast
    next
      case (3 u)
      note u = svc_upstream_Some [OF 3]
      note u4 = u(4) [symmetric]
      show ?thesis
      proof (cases "k8s_ListServices k")
        case (Inl e)
        with 3 labelled show ?thesis
          using failed syncUpstreamsForService_no_list k_def cfg_def by blast
      next
        case (Inr svcs)
        show ?thesis
        proof (cases "list_ex (svc_fails k cfg) (others svc svcs)")
          case True
          then obtain e where "merge_services k cfg svc svcs u = Inl e"
            using merge_services_spec [OF u4] by (metis (no_types, lifting))
          with 3 Inr labelled show ?thesis
            using failed syncUpstreamsForService_no_list k_def cfg_def by blast
        next
          case False
          let ?v = "u\<lparr>up_Backends := merged (up_Backends u @
            concat (map (svc_backends k cfg) (others svc svcs)))\<rparr>"
          have m: "merge_services k cfg svc svcs u = Inr ?v"
            using merge_services_spec [OF u4, of k cfg svc svcs] False by simp
          have "syncUpstreamsForService d svc c = push_desired d ?v c"
            using 3 Inr m u unfolding k_def cfg_def by (intro syncUpstreamsForService_push) simp_all
          with Inr 3 False show ?thesis by (rule built)
        qed
      qed
    qed
  qed
qed

end
