(* ===== verification/EventPath.thy ===== *)
theory EventPath
  imports ControllerProps
begin

text \<open>
  The event path of the controller against its specification. Inside the port's contract the
  sync of one service pushes \<open>desired_upstream\<close>, what the labels of all services ask for; then
  come the preservation of the state invariant by the work item handlers, and the properties
  of events, work items, deletions and the safety net.
\<close>

section \<open>The port's contract at work\<close>

lemma filter_split_one:
  assumes "distinct xs" and "x \<in> set xs" and "P x" and "\<And>y. y \<in> set xs \<Longrightarrow> Q y \<longleftrightarrow> y = x"
  shows "mset (filter P xs) = add_mset x (mset (filter (\<lambda>y. \<not> Q y \<and> P y) xs))"
  using assms
proof (induction xs)
  case Nil
  then show ?case by simp
next
  case (Cons y ys)
  show ?case
  proof (cases "y = x")
    case True
    with Cons.prems have "filter (\<lambda>y. \<not> Q y \<and> P y) (y # ys) = filter P ys"
      by (auto intro!: filter_cong)
    with True Cons.prems(3) show ?thesis by simp
  next
    case False
    with Cons.prems Cons.IH show ?thesis by (auto simp: add_mset_commute)
  qed
qed

context kubernetes_port
begin

lemma others_complete:
  assumes "invar s" and "k8s_ListServices (port s) = Inr svcs" and "svc \<in> set svcs"
  shows "mset (filter (targets (lb_label svc) (upstream_label svc)) svcs) =
    add_mset svc (mset (others svc svcs))"
  unfolding others_def
proof (rule filter_split_one)
  show "distinct svcs"
    using list_services_distinct assms by blast
  show "targets (lb_label svc) (upstream_label svc) svc"
    by (simp add: targets_def)
  fix y
  assume "y \<in> set svcs"
  then show "same_service y svc \<longleftrightarrow> y = svc"
    using list_services_same_name assms unfolding same_service_def by blast
qed (rule assms)

lemma fails_complete:
  assumes "invar s" and "k8s_ListServices (port s) = Inr svcs" and "svc \<in> set svcs"
  shows "list_ex P (filter (targets (lb_label svc) (upstream_label svc)) svcs) \<longleftrightarrow>
    P svc \<or> list_ex P (others svc svcs)"
proof -
  have "set (filter (targets (lb_label svc) (upstream_label svc)) svcs) = insert svc (set (others svc svcs))"
    using others_complete [OF assms] by (metis set_mset_add_mset_insert set_mset_mset)
  then show ?thesis by (auto simp: list_ex_iff)
qed

lemma desired_backends_others:
  assumes "invar s" and "k8s_ListServices (port s) = Inr svcs" and "svc \<in> set svcs"
  shows "desired_backends k cfg (lb_label svc) (upstream_label svc) svcs =
    merged (svc_backends k cfg svc @ concat (map (svc_backends k cfg) (others svc svcs)))"
proof -
  let ?f = "svc_backends k cfg"
  have "mset (map ?f (filter (targets (lb_label svc) (upstream_label svc)) svcs)) =
      mset (map ?f (svc # others svc svcs))"
    using others_complete [OF assms] by simp
  then have "mset (concat (map ?f (filter (targets (lb_label svc) (upstream_label svc)) svcs))) =
      mset (concat (map ?f (svc # others svc svcs)))"
    by (metis mset_concat sum_mset_sum_list mset_map)
  then show ?thesis
    unfolding desired_backends_def by (subst merged_mset) simp_all
qed

text \<open>The sync of a listed service pushes the upstream that all services together ask for.\<close>

lemma sync_pushes_desired:
  fixes cfg :: config
  assumes inv: "invar s" and d: "dep_k8s d = port s" "dep_config d = cfg"
    and svcs: "k8s_ListServices (port s) = Inr svcs" "svc \<in> set svcs"
    and labels: "lb_label svc \<noteq> ''''" "upstream_label svc \<noteq> ''''" and np: "svc_NodePort svc \<noteq> 0"
  shows "if list_ex (svc_fails (port s) cfg) (filter (targets (lb_label svc) (upstream_label svc)) svcs)
      then sync_failed svc c (syncUpstreamsForService d svc c)
      else syncUpstreamsForService d svc c =
        push_desired d (desired_upstream (port s) cfg (lb_label svc) (upstream_label svc) svcs) c"
proof (cases "svc_upstream (port s) cfg svc")
  case (Inl e)
  then have "sync_failed svc c (syncUpstreamsForService d svc c)"
    using d labels by (intro syncUpstreamsForService_Inl) simp_all
  moreover have "svc_fails (port s) cfg svc"
    using Inl by (simp add: svc_fails_def)
  ultimately show ?thesis
    by (simp add: fails_complete [OF inv svcs])
next
  case (Inr x)
  moreover have "svc_upstream (port s) cfg svc \<noteq> Inr None"
    using labels np by (auto simp: svc_upstream_def buildUpstream_def Let_def split: sum.splits)
  ultimately obtain u where up: "svc_upstream (port s) cfg svc = Inr (Some u)"
    by (cases x) simp_all
  note u = svc_upstream_Some [OF up]
  have fails: "list_ex (svc_fails (port s) cfg)
      (filter (targets (lb_label svc) (upstream_label svc)) svcs) \<longleftrightarrow>
    list_ex (svc_fails (port s) cfg) (others svc svcs)"
    using up by (simp add: fails_complete [OF inv svcs] svc_fails_def)
  note merge = merge_services_spec [OF u(4) [symmetric], of "port s" cfg svc svcs]
  show ?thesis
  proof (cases "list_ex (svc_fails (port s) cfg) (others svc svcs)")
    case True
    with merge obtain e where "merge_services (port s) cfg svc svcs u = Inl e" by auto
    then have "sync_failed svc c (syncUpstreamsForService d svc c)"
      using up d svcs by (intro syncUpstreamsForService_no_list) simp_all
    then show ?thesis
      unfolding fails using True by simp
  next
    case False
    let ?v = "u\<lparr>up_Backends :=
      merged (up_Backends u @ concat (map (svc_backends (port s) cfg) (others svc svcs)))\<rparr>"
    have "merge_services (port s) cfg svc svcs u = Inr ?v"
      using merge False by simp
    then have "syncUpstreamsForService d svc c = push_desired d ?v c"
      using up d svcs u by (intro syncUpstreamsForService_push) simp_all
    moreover have "?v = desired_upstream (port s) cfg (lb_label svc) (upstream_label svc) svcs"
      using u by (simp add: desired_upstream_def desired_backends_others [OF inv svcs] svc_backends_def up)
    ultimately show ?thesis
      unfolding fails using False by simp
  qed
qed

end

section \<open>The invariant through the work items\<close>

lemma push_upstream_ok:
  assumes "ctrl_ok c" and "upstream_ok (slash_key (up_LoadBalancer u) (up_Name u)) u"
  shows "ctrl_ok (snd (push_upstream d u c))"
proof -
  let ?c = "(metric (UpdateBackendsTotal (up_Name u) (length (up_Backends u))) c)
    \<lparr>st_Upstreams := AList.update (slash_key (up_LoadBalancer u) (up_Name u)) u (st_Upstreams c)\<rparr>"
  have "ctrl_ok ?c"
    using assms by (auto simp: ctrl_ok_def)
  then show ?thesis
    by (auto simp: push_upstream_def Let_def split: prod.splits option.splits
        dest: ctrl_ok_syncLoadBalancerUpstream)
qed

lemma push_desired_ok:
  assumes "ctrl_ok c" and "upstream_ok (slash_key (up_LoadBalancer u) (up_Name u)) u"
  shows "ctrl_ok (snd (push_desired d u c))"
  unfolding push_desired_def
proof (split option.split, intro conjI allI impI)
  fix v
  assume "fill_empty_upstream (dep_config d)
    (getLoadBalancerConfig (dep_config d) (up_LoadBalancer u)) u = Some v"
  from fill_empty_upstream_Some [OF this] assms(2)
  have "upstream_ok (slash_key (up_LoadBalancer v) (up_Name v)) v"
    by (simp add: upstream_ok_def)
  then show "ctrl_ok (snd (push_upstream d v c))"
    by (rule push_upstream_ok [OF assms(1)])
qed (use assms in simp)

lemma syncUpstreamsForService_ok:
  assumes "ctrl_ok c"
  shows "ctrl_ok (snd (syncUpstreamsForService d svc c))"
proof (cases rule: syncUpstreamsForService_cases [of svc d c])
  case failed
  with assms show ?thesis by (auto simp: sync_failed_def)
next
  case (built u svcs)
  from svc_upstream_Some [OF built(2)] show ?thesis
    unfolding built(4) by (intro push_desired_ok assms) (simp add: upstream_ok_def)
qed (use assms in simp_all)

lemma handleServiceDeletion_ok:
  assumes "ctrl_ok c"
  shows "ctrl_ok (snd (handleServiceDeletion d key svc c))"
proof -
  have "ctrl_ok (c\<lparr>st_Upstreams := AList.delete k (st_Upstreams c)\<rparr>)" for k
    using assms by (auto simp: ctrl_ok_def)
  then show ?thesis
    using assms syncUpstreamsForService_ok [OF assms]
    by (auto simp: handleServiceDeletion_def Let_def split: sum.splits option.splits prod.splits
        dest: ctrl_ok_syncLoadBalancerUpstream)
qed

lemma forget_service_ok: "ctrl_ok c \<Longrightarrow> ctrl_ok (forget_service key c)"
  by (auto simp: ctrl_ok_def forget_service_def)

lemma record_service_ok: "ctrl_ok c \<Longrightarrow> key = svc_key svc \<Longrightarrow> ctrl_ok (record_service key svc c)"
  by (auto simp: ctrl_ok_def record_service_def)

lemma syncHandler_split:
  assumes "CHR ''/'' \<notin> set ns" and "CHR ''/'' \<notin> set n"
  shows "Split (slash_key ns n) CHR ''/'' = [ns, n]"
  using assms by (simp add: slash_key_def Split_pair_iff)

text \<open>The outcomes of \<open>syncHandler\<close>.\<close>

lemma syncHandler_cases:
  obtains
    (bad_key) e where "syncHandler d key c = (Some e, c)"
  | (unknown) "map_of (lastKnownServices c) key = None" "syncHandler d key c = (None, c)"
  | (delete_failed) lastSvc e c1 where "map_of (lastKnownServices c) key = Some lastSvc"
      "handleServiceDeletion d key lastSvc c = (Some e, c1)" "syncHandler d key c = (Some e, c1)"
  | (deleted) lastSvc c1 where "map_of (lastKnownServices c) key = Some lastSvc"
      "handleServiceDeletion d key lastSvc c = (None, c1)"
      "syncHandler d key c = (None, forget_service key c1)"
  | (same) ns n svc where "key = slash_key ns n" "k8s_GetService (dep_k8s d) ns n = Inr svc"
      "syncHandler d key c = syncUpstreamsForService d svc (record_service key svc c)"
  | (moved) ns n svc lastSvc c1 where "key = slash_key ns n"
      "k8s_GetService (dep_k8s d) ns n = Inr svc"
      "map_of (lastKnownServices c) key = Some lastSvc" "target_changed lastSvc svc"
      "handleServiceDeletion d key lastSvc c = (None, c1)"
      "syncHandler d key c = syncUpstreamsForService d svc (record_service key svc c1)"
proof -
  show thesis
  proof (cases "\<exists>ns n. Split key CHR ''/'' = [ns, n]")
    case False
    then have "syncHandler d key c = (Some (Errorf (''invalid resource key: '' @ key)), c)"
      by (auto simp: syncHandler_def split: list.splits)
    then show ?thesis by (rule bad_key)
  next
    case True
    then obtain ns n where split: "Split key CHR ''/'' = [ns, n]" by blast
    then have key: "key = slash_key ns n"
      by (simp add: Split_pair_iff slash_key_def)
    show ?thesis
    proof (cases "k8s_GetService (dep_k8s d) ns n")
      case (Inl e)
      show ?thesis
      proof (cases "map_of (lastKnownServices c) key")
        case None
        with split Inl show ?thesis by (intro unknown) (simp_all add: syncHandler_def)
      next
        case (Some lastSvc)
        obtain r c1 where del: "handleServiceDeletion d key lastSvc c = (r, c1)" by fastforce
        show ?thesis
        proof (cases r)
          case None
          with split Inl Some del show ?thesis by (intro deleted) (simp_all add: syncHandler_def)
        next
          case (Some e')
          with split Inl \<open>map_of _ key = _\<close> del show ?thesis
            by (intro delete_failed) (simp_all add: syncHandler_def)
        qed
      qed
    next
      case (Inr svc)
      show ?thesis
      proof (cases "\<exists>lastSvc. map_of (lastKnownServices c) key = Some lastSvc \<and> target_changed lastSvc svc")
        case False
        with split Inr show ?thesis
          by (intro same [OF key Inr]) (auto simp: syncHandler_def split: option.splits)
      next
        case True
        then obtain lastSvc where last: "map_of (lastKnownServices c) key = Some lastSvc"
            "target_changed lastSvc svc" by blast
        obtain r c1 where del: "handleServiceDeletion d key lastSvc c = (r, c1)" by fastforce
        show ?thesis
        proof (cases r)
          case None
          with split Inr last del show ?thesis
            by (intro moved [OF key Inr last]) (simp_all add: syncHandler_def)
        next
          case (Some e')
          with split Inr last del show ?thesis
            by (intro delete_failed) (simp_all add: syncHandler_def)
        qed
      qed
    qed
  qed
qed

context kubernetes_port
begin

lemma syncHandler_ok:
  assumes ok: "ctrl_ok c" and "invar s" and "dep_k8s d = port s"
  shows "ctrl_ok (snd (syncHandler d key c))"
proof (cases rule: syncHandler_cases [of d key c])
  case (delete_failed lastSvc e c1)
  with handleServiceDeletion_ok [OF ok, of d key lastSvc] show ?thesis by simp
next
  case (deleted lastSvc c1)
  with handleServiceDeletion_ok [OF ok, of d key lastSvc] show ?thesis
    by (simp add: forget_service_ok)
next
  case (same ns n svc)
  then have "key = svc_key svc"
    using get_service_id assms(2,3) by (metis svc_key_def)
  with same show ?thesis
    using ok by (simp add: syncUpstreamsForService_ok record_service_ok)
next
  case (moved ns n svc lastSvc c1)
  then have "key = svc_key svc"
    using get_service_id assms(2,3) by (metis svc_key_def)
  with moved handleServiceDeletion_ok [OF ok, of d key lastSvc] show ?thesis
    by (simp add: syncUpstreamsForService_ok record_service_ok)
qed (use ok in simp_all)

lemma processNextItem_ok:
  assumes "ctrl_ok c" and "invar s" and "dep_k8s d = port s"
  shows "ctrl_ok (snd (processNextItem d item c))"
proof -
  have "ctrl_ok (snd (syncHandler d key c))" for key
    by (rule syncHandler_ok [OF assms])
  then show ?thesis
    using assms(1) by (auto simp: processNextItem_def split: option.splits queue_obj.splits prod.splits)
       (metis snd_conv)+
qed

end

section \<open>What a work item leaves alone\<close>

definition same_caches :: "'w ctrl \<Rightarrow> 'w ctrl \<Rightarrow> bool" where
  "same_caches c c' \<longleftrightarrow>
     st_Services c' = st_Services c \<and> st_Pods c' = st_Pods c \<and> st_Nodes c' = st_Nodes c \<and>
     lastKnownServices c' = lastKnownServices c \<and> queue_calls c' = queue_calls c"

lemma same_caches_simps [simp]:
  "same_caches c c" "same_caches c (metric m c') = same_caches c c'"
  "same_caches c (c'\<lparr>st_Upstreams := u\<rparr>) = same_caches c c'"
  "same_caches c (c'\<lparr>world := w\<rparr>) = same_caches c c'"
  by (simp_all add: same_caches_def)

lemma same_caches_syncLoadBalancerUpstream:
  "syncLoadBalancerUpstream d u c = (r, c') \<Longrightarrow> same_caches c0 c' = same_caches c0 c"
  using syncLoadBalancerUpstream_state [of d u c r c'] by (simp add: same_caches_def)

lemma same_caches_push: "same_caches c (snd (push_desired d u c))"
proof -
  have "same_caches c (snd (push_upstream d v c))" for v
    unfolding push_upstream_def Let_def
    by (auto simp: same_caches_syncLoadBalancerUpstream split: option.split prod.split)
  then show ?thesis
    by (simp add: push_desired_def split: option.split)
qed

lemma same_caches_sync: "same_caches c (snd (syncUpstreamsForService d svc c))"
  by (cases rule: syncUpstreamsForService_cases [of svc d c])
    (auto simp: sync_failed_def same_caches_push)

lemma same_caches_deletion: "same_caches c (snd (handleServiceDeletion d key svc c))"
  unfolding handleServiceDeletion_def Let_def
  by (auto simp: same_caches_syncLoadBalancerUpstream same_caches_sync
      split: sum.split option.split prod.split)

lemma syncHandler_queue: "queue_calls (snd (syncHandler d key c)) = queue_calls c"
proof (cases rule: syncHandler_cases [of d key c])
  case (delete_failed lastSvc e c1)
  with same_caches_deletion [of c d key lastSvc] show ?thesis by (simp add: same_caches_def)
next
  case (deleted lastSvc c1)
  with same_caches_deletion [of c d key lastSvc] show ?thesis
    by (simp add: same_caches_def forget_service_def)
next
  case (same ns n svc)
  with same_caches_sync [of "record_service key svc c" d svc] show ?thesis
    by (simp add: same_caches_def record_service_def)
next
  case (moved ns n svc lastSvc c1)
  with same_caches_deletion [of c d key lastSvc]
    same_caches_sync [of "record_service key svc c1" d svc] show ?thesis
    by (simp add: same_caches_def record_service_def)
qed simp_all

section \<open>What the load balancer is given\<close>

text \<open>\<open>c'\<close> is reached by one call of \<open>SyncUpstream\<close> with \<open>u\<close>, as far as the world goes.\<close>

definition pushed :: "'w deps \<Rightarrow> upstream \<Rightarrow> 'w ctrl \<Rightarrow> 'w ctrl \<Rightarrow> bool" where
  "pushed d u c c' \<longleftrightarrow>
     (\<exists>a. map_of (dep_loadBalancers d) (up_LoadBalancer u) = Some a \<and>
        world c' = snd (lba_SyncUpstream a u (world c)))"

lemma push_upstream_world:
  "world (snd (push_upstream d u c)) = world c \<or> pushed d u c (snd (push_upstream d u c))"
  unfolding push_upstream_def syncLoadBalancerUpstream_def pushed_def Let_def
  by (auto split: option.split prod.split)

lemma fill_empty_upstream_nonempty:
  "fill_empty_upstream cfg lbc u = Some v \<Longrightarrow> up_Backends v \<noteq> [] \<or> allow_empty cfg lbc"
  by (auto simp: fill_empty_upstream_def default_backends_def Let_def split: if_splits option.splits)

lemma push_desired_world:
  assumes "r = push_desired d u c"
  shows "world (snd r) = world c \<or>
    (\<exists>v. pushed d v c (snd r) \<and> up_Name v = up_Name u \<and> up_LoadBalancer v = up_LoadBalancer u \<and>
       (up_Backends v \<noteq> [] \<or>
        allow_empty (dep_config d) (getLoadBalancerConfig (dep_config d) (up_LoadBalancer u))))"
proof (cases "fill_empty_upstream (dep_config d)
    (getLoadBalancerConfig (dep_config d) (up_LoadBalancer u)) u")
  case None
  with assms show ?thesis by (simp add: push_desired_def)
next
  case (Some v)
  with assms push_upstream_world [of d v c] fill_empty_upstream_nonempty [OF Some]
    fill_empty_upstream_Some(1,2) [OF Some]
  show ?thesis by (auto simp: push_desired_def)
qed

lemma sync_world:
  "world (snd (syncUpstreamsForService d svc c)) = world c \<or>
   (\<exists>v. pushed d v c (snd (syncUpstreamsForService d svc c)) \<and>
      up_Name v = upstream_label svc \<and> up_LoadBalancer v = lb_label svc \<and>
      (up_Backends v \<noteq> [] \<or>
       allow_empty (dep_config d) (getLoadBalancerConfig (dep_config d) (lb_label svc))))"
proof (cases rule: syncUpstreamsForService_cases [of svc d c])
  case failed
  then show ?thesis by (auto simp: sync_failed_def)
next
  case (built u svcs)
  from push_desired_world [OF built(4)] svc_upstream_Some [OF built(2)] show ?thesis by auto
qed simp_all

section \<open>Properties of the sync of one service\<close>

text \<open>
  C6: over well-behaved listers, syncing a listed service (with both labels and a node port)
  either fails, because some service of the same upstream cannot be resolved, and then only the
  error counter changes; or it makes the load balancer's upstream what all services that name
  it together ask for, in whatever order they are listed.
\<close>

theorem syncUpstreamsForService_desired:
  assumes "listers_ok L" and "dep_k8s d = adapter_port L"
    and "ListServices L = Inr svcs" and "svc \<in> set svcs"
    and "lb_label svc \<noteq> ''''" and "upstream_label svc \<noteq> ''''" and "svc_NodePort svc \<noteq> 0"
  shows "if \<exists>s \<in> set svcs. targets (lb_label svc) (upstream_label svc) s \<and>
        svc_fails (dep_k8s d) (dep_config d) s
    then \<exists>e. syncUpstreamsForService d svc c =
      (Some e, metric (IncrementSyncErrors (upstream_label svc)) c)
    else syncUpstreamsForService d svc c =
      push_desired d
        (desired_upstream (dep_k8s d) (dep_config d) (lb_label svc) (upstream_label svc) svcs) c"
proof -
  have "k8s_ListServices (adapter_port L) = Inr svcs"
    using assms(3) by (simp add: adapter_port_def)
  note spec = adapter.sync_pushes_desired [OF assms(1,2) refl this assms(4-7), of c]
  have "list_ex (svc_fails (adapter_port L) (dep_config d))
      (filter (targets (lb_label svc) (upstream_label svc)) svcs) \<longleftrightarrow>
    (\<exists>s \<in> set svcs. targets (lb_label svc) (upstream_label svc) s \<and>
      svc_fails (dep_k8s d) (dep_config d) s)"
    by (auto simp: list_ex_iff assms(2))
  with spec show ?thesis
    by (simp only: sync_failed_def assms(2))
qed

text \<open>What the demo cluster's service contributes.\<close>

lemma demo_svc_upstream:
  "svc_upstream (adapter_port (demo_listers [''web''])) demo_config (mapService (demo_service ''web'')) =
     Inr (Some \<lparr>up_Name = ''web'', up_LoadBalancer = ''lb1'',
       up_Backends = [\<lparr>be_IP = ''10.0.0.1'', be_Port = 30080, be_Weight = 1\<rparr>],
       up_Type = '''', up_Config = None, up_PreserveExistingBackends = False\<rparr>)"
  by (simp add: svc_upstream_def buildUpstream_def pod_backend_def getLoadBalancerConfig_def
      getLoadBalancerType_def demo_defs Let_def getNodePort_def go_eval to_int32_def)
     (simp add: mergeBackends_def mergeBackends_add_def)

lemma demo_facts [simp]:
  "lb_label (mapService (demo_service n)) = ''lb1''"
  "upstream_label (mapService (demo_service n)) = ''web''"
  "getNodePort (demo_service n) = 30080"
  "svc_key (mapService (demo_service n)) = slash_key ''default'' n"
  "isMLBService (demo_service n)"
  "dep_k8s (demo_deps names) = adapter_port (demo_listers names)"
  "dep_config (demo_deps names) = demo_config"
  "dep_loadBalancers (demo_deps names) = [(''lb1'', recording_adapter)]"
  by (simp_all add: demo_defs getNodePort_def go_eval to_int32_def)

lemma demo_ListServices:
  "ListServices (demo_listers names) = Inr (map (\<lambda>n. mapService (demo_service n)) names)"
  by (simp add: ListServices_def demo_listers_def cluster_listers_def o_def)

lemma demo_not_fails:
  "\<not> svc_fails (adapter_port (demo_listers [''web''])) demo_config (mapService (demo_service ''web''))"
  by (simp add: svc_fails_def demo_svc_upstream)

theorem syncUpstreamsForService_desired_witness:
  "let d = demo_deps [''web'']; svc = mapService (demo_service ''web'') in
   syncUpstreamsForService d svc (NewController []) =
     push_desired d (desired_upstream (dep_k8s d) (dep_config d) ''lb1'' ''web'' [svc]) (NewController [])"
proof -
  have "listers_ok (demo_listers [''web''])"
    by (rule demo_listers_ok) simp_all
  from syncUpstreamsForService_desired [OF this, of "demo_deps [''web'']"
      "[mapService (demo_service ''web'')]" "mapService (demo_service ''web'')" "NewController []"]
  show ?thesis
    by (simp add: Let_def demo_ListServices demo_not_fails)
qed

text \<open>
  C7: a sync never empties an upstream by surprise: the world of the load balancers changes
  only by one \<open>SyncUpstream\<close> of the service's own upstream, and that upstream has backends
  unless empty upstreams are allowed for its load balancer.
\<close>

theorem syncUpstreamsForService_never_empties:
  assumes "world (snd (syncUpstreamsForService d svc c)) \<noteq> world c"
  shows "\<exists>u. pushed d u c (snd (syncUpstreamsForService d svc c)) \<and>
    up_Name u = upstream_label svc \<and> up_LoadBalancer u = lb_label svc \<and>
    (up_Backends u = [] \<longrightarrow>
      allow_empty (dep_config d) (getLoadBalancerConfig (dep_config d) (lb_label svc)))"
  using sync_world [of d svc c] assms by blast

lemma demo_sync_world:
  "world (snd (syncUpstreamsForService (demo_deps [''web'']) (mapService (demo_service ''web''))
     (NewController []))) \<noteq> []"
proof -
  have "listers_ok (demo_listers [''web''])"
    by (rule demo_listers_ok) simp_all
  from adapter.sync_pushes_desired [OF this, of "demo_deps [''web'']" demo_config
      "[mapService (demo_service ''web'')]" "mapService (demo_service ''web'')" "NewController []"]
  show ?thesis
    by (simp add: demo_ListServices demo_not_fails targets_def push_desired_def
        desired_upstream_def desired_backends_def svc_backends_def demo_svc_upstream
        fill_empty_upstream_def push_upstream_def syncLoadBalancerUpstream_def recording_adapter_def Let_def)
qed

theorem syncUpstreamsForService_never_empties_witness:
  "let d = demo_deps [''web'']; svc = mapService (demo_service ''web'');
       c' = snd (syncUpstreamsForService d svc (NewController []))
   in \<exists>u. pushed d u (NewController []) c' \<and> up_Backends u \<noteq> []"
proof -
  have "\<not> allow_empty demo_config (getLoadBalancerConfig demo_config ''lb1'')"
    by (simp add: allow_empty_def getLoadBalancerConfig_def demo_config_def)
  with syncUpstreamsForService_never_empties [of "demo_deps [''web'']"
      "mapService (demo_service ''web'')" "NewController []"] demo_sync_world
  show ?thesis
    by (auto simp: Let_def NewController_def)
qed

end
