(* ===== verification/AdapterProps.thy ===== *)
theory AdapterProps
  imports EventPath
begin

text \<open>
  Properties of what the Kubernetes adapter and \<open>buildUpstream\<close> make of the objects of the
  cluster: the range of the node port, and which pods stand behind an upstream.
\<close>

section \<open>The node port\<close>

text \<open>
  The node port of a service is 0 or a port number. With an \<open>mlb-port\<close> label that is a
  decimal number in range it is that number; with any other label it is 0, whatever ports the
  service has, and only without the label it is the first port of the service.
\<close>

lemma getNodePort_range:
  "(getNodePort svc = 0 \<or> 1 \<le> sint (getNodePort svc) \<and> sint (getNodePort svc) \<le> 65535) \<and>
   (\<forall>p. map_of (cs_Labels svc) ''mlb-port'' = Some (int_dec p) \<longrightarrow>
      sint (getNodePort svc) = (if 1 \<le> p \<and> p \<le> 65535 then p else 0)) \<and>
   (\<forall>s. map_of (cs_Labels svc) ''mlb-port'' = Some s \<and> ParseInt 32 s = None \<longrightarrow> getNodePort svc = 0)"
proof (intro conjI allI impI)
  show "getNodePort svc = 0 \<or> 1 \<le> sint (getNodePort svc) \<and> sint (getNodePort svc) \<le> 65535"
    by (auto simp: getNodePort_def sint_to_int32 split: option.split list.split)
  fix p
  assume label: "map_of (cs_Labels svc) ''mlb-port'' = Some (int_dec p)"
  show "sint (getNodePort svc) = (if 1 \<le> p \<and> p \<le> 65535 then p else 0)"
  proof (cases "ParseInt 32 (int_dec p)")
    case None
    have "\<not> (1 \<le> p \<and> p \<le> 65535)"
      using None ParseInt_int_dec [of 32 p] by auto
    with label None show ?thesis
      by (simp add: getNodePort_def)
  next
    case (Some v)
    with label ParseInt_int_dec_Some [OF Some] show ?thesis
      by (auto simp: getNodePort_def sint_to_int32)
  qed
next
  fix s
  assume "map_of (cs_Labels svc) ''mlb-port'' = Some s \<and> ParseInt 32 s = None"
  then show "getNodePort svc = 0"
    by (simp add: getNodePort_def)
qed

lemma getNodePort_range_witness:
  "sint (getNodePort (demo_service ''web'')) = 30080"
proof -
  have "int_dec 30080 = ''30080''"
    by (simp add: go_eval)
  then have "map_of (cs_Labels (demo_service ''web'')) ''mlb-port'' = Some (int_dec 30080)"
    by (simp add: demo_service_def demo_labels_def)
  then show ?thesis
    using getNodePort_range [of "demo_service ''web''"] by auto
qed

section \<open>The pods behind an upstream\<close>

text \<open>The pods that \<open>buildUpstream\<close> takes: ready, scheduled, on a node with an address.\<close>

definition serving :: "k8s_port \<Rightarrow> pod \<Rightarrow> bool" where
  "serving k pod \<longleftrightarrow> pod_Ready pod \<and> pod_NodeName pod \<noteq> '''' \<and>
     (\<exists>n. k8s_GetNodeByName k (pod_NodeName pod) = Inr n \<and>
        (node_InternalIP n \<noteq> '''' \<or> node_ExternalIP n \<noteq> ''''))"

lemma pod_backend_None:
  assumes "pod_backend k cfg svc pod = Inr x"
  shows "x \<noteq> None \<longleftrightarrow> serving k pod"
  using assms by (auto simp: pod_backend_def serving_def Let_def split: if_splits sum.splits)

lemma pod_backend_Some:
  assumes "pod_backend k cfg svc pod = Inr (Some b)"
  shows "be_Port b = svc_NodePort svc" "be_Weight b = 1"
  using assms by (auto simp: pod_backend_def Let_def split: if_splits sum.splits)

lemma pods_backends_spec:
  assumes "pods_backends k cfg svc pods acc = Inr bs"
  shows "\<exists>new. bs = acc @ new \<and> length new = length (filter (serving k) pods) \<and>
    (\<forall>b \<in> set new. be_Port b = svc_NodePort svc \<and> be_Weight b = 1 \<and>
       (\<exists>p \<in> set pods. serving k p \<and> pod_backend k cfg svc p = Inr (Some b)))"
  using assms
proof (induction pods arbitrary: acc)
  case Nil
  then show ?case by simp
next
  case (Cons p pods)
  from Cons.prems obtain x where x: "pod_backend k cfg svc p = Inr x"
    by (auto split: sum.splits)
  show ?case
  proof (cases x)
    case None
    with Cons x have "pods_backends k cfg svc pods acc = Inr bs" by simp
    from Cons.IH [OF this] pod_backend_None [OF x] None show ?thesis by auto
  next
    case (Some b)
    with Cons x have "pods_backends k cfg svc pods (acc @ [b]) = Inr bs" by simp
    from Cons.IH [OF this] obtain new where new: "bs = acc @ b # new"
        "length new = length (filter (serving k) pods)"
        "\<forall>b \<in> set new. be_Port b = svc_NodePort svc \<and> be_Weight b = 1 \<and>
           (\<exists>p \<in> set pods. serving k p \<and> pod_backend k cfg svc p = Inr (Some b))"
      by auto
    then show ?thesis
      using pod_backend_None [OF x] pod_backend_Some [OF x [unfolded Some]] x Some
      by (intro exI [of _ "b # new"]) auto
  qed
qed

lemma sum_weights_one: "\<forall>b \<in> set bs. be_Weight b = 1 \<Longrightarrow> sum_list (map be_Weight bs) = of_nat (length bs)"
  by (induction bs) auto



end
