(* ===== verification/EventProps.thy ===== *)
theory EventProps
  imports AdapterProps
begin

text \<open>
  Properties of events and work items: what a pod or node event puts in the queue, that the
  controller's map of services mirrors the informer's cache, how a work item is settled, the
  drain of a deleted service's upstream, and the two ways in which the old backends stay.
\<close>

section \<open>Events\<close>

lemma pod_keys_iff:
  "QAdd (QKey k) \<in> set (pod_keys pod svcs) \<longleftrightarrow>
     (\<exists>key svc. (key, svc) \<in> set svcs \<and> selects pod svc \<and> k = svc_key svc)"
  by (auto simp: pod_keys_def image_iff) force

lemma selects_state:
  assumes "ctrl_ok c" and "map_of (st_Services c) key = Some svc" and "selects pod svc"
  shows "QAdd (QKey key) \<in> set (pod_keys pod (st_Services c))"
proof -
  have "key = svc_key svc"
    using assms(1,2) by (auto simp: ctrl_ok_def dest: entries_ok_lookup)
  with assms(2,3) show ?thesis
    by (auto simp: pod_keys_iff dest: map_of_SomeD)
qed

section \<open>A controller that knows the demo cluster\<close>

definition demo_ctrl :: "upstream list ctrl" where
  "demo_ctrl =
     handlePodEvent \<lparr>pe_Type = EventTypeAdd, pe_Pod = mapPod demo_pod\<rparr>
       (handleServiceEvent \<lparr>se_Type = EventTypeAdd, se_Service = mapService (demo_service ''web'')\<rparr>
         (NewController []))"

lemma demo_ctrl_ok: "ctrl_ok demo_ctrl"
  unfolding demo_ctrl_def
  by (intro handlePodEvent_ok handleServiceEvent_ok ctrl_ok_NewController)

lemma demo_ctrl_simps [simp]:
  "map_of (st_Services demo_ctrl) ''default/web'' = Some (mapService (demo_service ''web''))"
  "map_of (lastKnownServices demo_ctrl) ''default/web'' = Some (mapService (demo_service ''web''))"
  "map_of (st_Pods demo_ctrl) ''default/web-1'' = Some (mapPod demo_pod)"
  "world demo_ctrl = []"
  by (simp_all add: demo_ctrl_def handlePodEvent_def handleServiceEvent_def NewController_def Let_def
      slash_key_def demo_pod_def has_key_def)

lemma demo_selects: "selects (mapPod demo_pod) (mapService (demo_service ''web''))"
  by (simp add: selects_def matchLabels_def demo_pod_def demo_service_def str_get_def)

text \<open>
  C11: a pod event puts the key of every known service that selects the pod into the queue, and
  an update also those of the services that selected the pod as it was before, so that a pod
  that leaves a service is noticed; nothing else of the controller than its map of pods changes.
\<close>

theorem handlePodEvent_enqueues:
  assumes "ctrl_ok c" and "map_of (st_Services c) key = Some svc"
    and "selects (pe_Pod e) svc \<or>
      pe_Type e = EventTypeUpdate \<and>
      (\<exists>old. map_of (st_Pods c) (slash_key (pod_Namespace (pe_Pod e)) (pod_Name (pe_Pod e))) = Some old \<and>
        selects old svc)"
  shows "\<exists>qs. queue_calls (handlePodEvent e c) = queue_calls c @ qs \<and> QAdd (QKey key) \<in> set qs \<and>
    same_caches c (handlePodEvent e c\<lparr>st_Pods := st_Pods c, queue_calls := queue_calls c\<rparr>) \<and>
    world (handlePodEvent e c) = world c"
proof -
  note keys = selects_state [OF assms(1,2)]
  show ?thesis
  proof (cases "pe_Type e = EventTypeUpdate \<and>
      has_key (st_Pods c) (slash_key (pod_Namespace (pe_Pod e)) (pod_Name (pe_Pod e)))")
    case True
    then obtain old where
      "map_of (st_Pods c) (slash_key (pod_Namespace (pe_Pod e)) (pod_Name (pe_Pod e))) = Some old"
      by (auto simp: has_key_def)
    with True assms(3) keys show ?thesis
      by (intro exI [of _ "pod_keys old (st_Services c) @ pod_keys (pe_Pod e) (st_Services c)"])
        (auto simp: handlePodEvent_def Let_def same_caches_def)
  next
    case False
    with assms(3) keys show ?thesis
      by (intro exI [of _ "pod_keys (pe_Pod e) (st_Services c)"])
        (auto simp: handlePodEvent_def Let_def same_caches_def has_key_def
          split: event_type.splits option.splits)
  qed
qed

theorem handlePodEvent_enqueues_witness:
  "let e = \<lparr>pe_Type = EventTypeUpdate, pe_Pod = (mapPod demo_pod)\<lparr>pod_Labels := []\<rparr>\<rparr>
   in \<exists>qs. queue_calls (handlePodEvent e demo_ctrl) = queue_calls demo_ctrl @ qs \<and>
      QAdd (QKey ''default/web'') \<in> set qs"
  using handlePodEvent_enqueues [of demo_ctrl "''default/web''" "mapService (demo_service ''web'')"
      "\<lparr>pe_Type = EventTypeUpdate, pe_Pod = (mapPod demo_pod)\<lparr>pod_Labels := []\<rparr>\<rparr>",
      OF demo_ctrl_ok] demo_selects
  by (auto simp: Let_def slash_key_def demo_pod_def [THEN arg_cong [of _ _ cp_Name]]
      demo_pod_def [THEN arg_cong [of _ _ cp_Namespace]])

text \<open>
  A node event puts the key of every known service into the queue that selects a known pod
  running on that node.
\<close>

lemma handleNodeEvent_enqueues:
  assumes "ctrl_ok c" and "map_of (st_Services c) key = Some svc"
    and "map_of (st_Pods c) pkey = Some pod" and "pod_NodeName pod = node_Name (ne_Node e)"
    and "selects pod svc"
  shows "\<exists>qs. queue_calls (handleNodeEvent e c) = queue_calls c @ qs \<and> QAdd (QKey key) \<in> set qs"
proof -
  have "pod \<in> set (filter (\<lambda>p. pod_NodeName p = node_Name (ne_Node e)) (map snd (st_Pods c)))"
    using assms(3,4) by (force dest: map_of_SomeD)
  with selects_state [OF assms(1,2,5)] show ?thesis
    by (auto simp: handleNodeEvent_def enqueueUpstreamsForNode_eq Let_def split: event_type.splits)
qed

lemma handleNodeEvent_enqueues_witness:
  "let e = \<lparr>ne_Type = EventTypeUpdate, ne_Node = mapNode demo_node\<rparr>
   in \<exists>qs. queue_calls (handleNodeEvent e demo_ctrl) = queue_calls demo_ctrl @ qs \<and>
      QAdd (QKey ''default/web'') \<in> set qs"
  using handleNodeEvent_enqueues [of demo_ctrl "''default/web''" "mapService (demo_service ''web'')"
      "''default/web-1''" "mapPod demo_pod" "\<lparr>ne_Type = EventTypeUpdate, ne_Node = mapNode demo_node\<rparr>",
      OF demo_ctrl_ok] demo_selects
  by (simp add: Let_def mapNode_def demo_node_def demo_pod_def)

section \<open>The informer's cache\<close>

text \<open>
  The stream of changes of an informer, with its cache of services by key: an object that is
  not in the cache is announced by \<open>AddFunc\<close>, one that is by \<open>UpdateFunc\<close>, a deletion by
  \<open>DeleteFunc\<close> with the last object in the cache, possibly in a tombstone. The events that
  the handlers send are handled in order.
\<close>

datatype change = Applied core_service | Deleted string bool

definition core_key :: "core_service \<Rightarrow> string" where
  "core_key s = slash_key (cs_Namespace s) (cs_Name s)"

definition deliver :: "service_event option \<Rightarrow> 'w ctrl \<Rightarrow> 'w ctrl" where
  "deliver e c = (case e of None \<Rightarrow> c | Some e \<Rightarrow> handleServiceEvent e c)"

fun notify ::
  "change \<Rightarrow> (string, core_service) gomap \<times> 'w ctrl \<Rightarrow> (string, core_service) gomap \<times> 'w ctrl" where
  "notify (Applied s) (cache, c) =
     (AList.update (core_key s) s cache,
      deliver (case map_of cache (core_key s) of
          None \<Rightarrow> service_AddFunc (ObjService s)
        | Some old \<Rightarrow> service_UpdateFunc (ObjService old) (ObjService s)) c)"
| "notify (Deleted key tombstone) (cache, c) =
     (AList.delete key cache,
      deliver (case map_of cache key of
          None \<Rightarrow> None
        | Some old \<Rightarrow>
            service_DeleteFunc (if tombstone then Tombstone (ObjService old) else ObjService old)) c)"

definition mirrors :: "(string, core_service) gomap \<Rightarrow> 'w ctrl \<Rightarrow> bool" where
  "mirrors cache c \<longleftrightarrow>
     (\<forall>k s. map_of cache k = Some s \<longrightarrow> k = core_key s) \<and>
     (\<forall>k. map_of (st_Services c) k =
       (case map_of cache k of
          Some s \<Rightarrow> if isMLBService s then Some (mapService s) else None
        | None \<Rightarrow> None))"

lemma svc_key_mapService: "svc_key (mapService s) = core_key s"
  by (simp add: svc_key_def core_key_def)

lemma deliver_services:
  "map_of (st_Services (deliver None c)) = map_of (st_Services c)"
  "map_of (st_Services (deliver (Some \<lparr>se_Type = EventTypeAdd, se_Service = s\<rparr>) c)) =
     (map_of (st_Services c))(svc_key s \<mapsto> s)"
  "map_of (st_Services (deliver (Some \<lparr>se_Type = EventTypeUpdate, se_Service = s\<rparr>) c)) =
     (map_of (st_Services c))(svc_key s \<mapsto> s)"
  "map_of (st_Services (deliver (Some \<lparr>se_Type = EventTypeDelete, se_Service = s\<rparr>) c)) =
     (map_of (st_Services c))(svc_key s := None)"
  by (simp_all add: deliver_def handleServiceEvent_def Let_def)

lemma notify_mirrors:
  assumes "mirrors cache c"
  shows "mirrors (fst (notify n (cache, c))) (snd (notify n (cache, c)))"
proof (cases n)
  case (Applied s)
  show ?thesis
  proof (cases "map_of cache (core_key s)")
    case None
    with Applied assms show ?thesis
      by (simp add: mirrors_def service_AddFunc_def deliver_services svc_key_mapService)
  next
    case (Some old)
    with assms have key: "core_key old = core_key s"
      unfolding mirrors_def by metis
    have old: "map_of (st_Services c) (core_key s) = (if isMLBService old then Some (mapService old) else None)"
      and rest: "map_of (st_Services c) k = (case map_of cache k of
        Some s \<Rightarrow> if isMLBService s then Some (mapService s) else None | None \<Rightarrow> None)" for k
      using assms Some by (simp_all add: mirrors_def)
    have "k = core_key x" if "map_of (AList.update (core_key s) s cache) k = Some x" for k x
    proof (cases "k = core_key s")
      case False
      with that have "map_of cache k = Some x" by simp
      then show ?thesis using assms unfolding mirrors_def by metis
    qed (use that in simp)
    moreover have "map_of (st_Services (deliver (service_UpdateFunc (ObjService old) (ObjService s)) c)) k =
        (case map_of (AList.update (core_key s) s cache) k of
          Some s \<Rightarrow> if isMLBService s then Some (mapService s) else None | None \<Rightarrow> None)" for k
      by (cases "k = core_key s"; cases "isMLBService old"; cases "isMLBService s")
        (simp_all add: service_UpdateFunc_def deliver_services svc_key_mapService Let_def key old rest Some)
    ultimately show ?thesis
      unfolding mirrors_def Applied notify.simps fst_conv snd_conv Some option.case by blast
  qed
next
  case (Deleted key tombstone)
  show ?thesis
  proof (cases "map_of cache key")
    case None
    with Deleted assms show ?thesis
      by (simp add: mirrors_def deliver_services svc_key_mapService)
  next
    case (Some old)
    with assms have key: "core_key old = key"
      unfolding mirrors_def by metis
    let ?obj = "if tombstone then Tombstone (ObjService old) else ObjService old"
    have rest: "map_of (st_Services c) k = (case map_of cache k of
        Some s \<Rightarrow> if isMLBService s then Some (mapService s) else None | None \<Rightarrow> None)" for k
      using assms by (simp add: mirrors_def)
    have "k = core_key x" if "map_of (AList.delete key cache) k = Some x" for k x
      using that assms unfolding mirrors_def map_of_delete by (metis fun_upd_apply option.distinct(1))
    moreover have "map_of (st_Services (deliver (service_DeleteFunc ?obj) c)) k =
        (case map_of (AList.delete key cache) k of
          Some s \<Rightarrow> if isMLBService s then Some (mapService s) else None | None \<Rightarrow> None)" for k
      by (cases "k = key"; cases "isMLBService old"; cases tombstone)
        (simp_all add: service_DeleteFunc_def deliver_services svc_key_mapService key rest Some)
    ultimately show ?thesis
      unfolding mirrors_def Deleted notify.simps fst_conv snd_conv Some option.case by blast
  qed
qed

text \<open>
  C9: from an empty cache on, after any stream of changes to the services of the cluster
  (creations, updates that add or remove the labels, deletions with or without a tombstone) the
  controller's map of services is the MLB services of the informer's cache, each mapped to the
  model: nothing is missed, nothing stays.
\<close>

theorem services_mirror_cache:
  "case fold notify changes ([], NewController w) of
     (cache, c) \<Rightarrow>
       map_of (st_Services c) key =
         (case map_of cache key of
            Some s \<Rightarrow> if isMLBService s then Some (mapService s) else None
          | None \<Rightarrow> None)"
proof -
  have "mirrors (fst (fold notify changes (cache, c))) (snd (fold notify changes (cache, c)))"
    if "mirrors cache c" for cache and c :: "'a ctrl"
    using that
  proof (induction changes arbitrary: cache c)
    case (Cons n ns)
    from Cons.IH [OF notify_mirrors [OF Cons.prems, of n]] show ?case by simp
  qed simp
  from this [of "[]" "NewController w"] show ?thesis
    by (auto simp: mirrors_def NewController_def split: prod.split)
qed

section \<open>Work items\<close>

text \<open>
  C10: a worker settles every item: it marks the item done exactly once, after either forgetting
  it (the sync succeeded, or the item is not a key) or handing it back for a rate-limited retry
  (the sync failed), and goes on; nothing else is put in the queue. It stops only when the
  queue is shut down.
\<close>

theorem processNextItem_settles:
  "(case item of
      None \<Rightarrow> processNextItem d item c = (False, c)
    | Some obj \<Rightarrow>
        fst (processNextItem d item c) \<and>
        queue_calls (snd (processNextItem d item c)) = queue_calls c @
          [if \<exists>key. obj = QKey key \<and> fst (syncHandler d key c) \<noteq> None
           then QAddRateLimited obj else QForget obj, QDone obj])"
proof -
  have "queue_calls c' = queue_calls c" if "syncHandler d key c = (r, c')" for key r c'
    using syncHandler_queue [of d key c] that by simp
  then show ?thesis
    by (auto simp: processNextItem_def split: option.split queue_obj.split prod.split)
qed

section \<open>Deletions\<close>

definition emptied_upstream :: "config \<Rightarrow> service \<Rightarrow> upstream" where
  "emptied_upstream cfg svc =
     \<lparr>up_Name = upstream_label svc, up_LoadBalancer = lb_label svc, up_Backends = [],
      up_Type = getLoadBalancerType cfg (lb_label svc),
      up_Config = getLoadBalancerConfig cfg (lb_label svc), up_PreserveExistingBackends = False\<rparr>"

lemma handleServiceDeletion_last:
  assumes "lb_label svc \<noteq> ''''" and "upstream_label svc \<noteq> ''''"
    and "k8s_ListServices (dep_k8s d) = Inr svcs"
    and "\<And>s. s \<in> set svcs \<Longrightarrow> targets (lb_label svc) (upstream_label svc) s \<Longrightarrow> svc_key s = key"
  shows "handleServiceDeletion d key svc c =
    (let (r, c1) = syncLoadBalancerUpstream d (emptied_upstream (dep_config d) svc)
        (metric (UpdateBackendsTotal (upstream_label svc) 0)
          (c\<lparr>st_Upstreams :=
            AList.delete (slash_key (lb_label svc) (upstream_label svc)) (st_Upstreams c)\<rparr>))
     in (r, if r = None then c1 else metric (IncrementSyncErrors (upstream_label svc)) c1))"
proof -
  have "find (\<lambda>s. svc_key s \<noteq> key \<and> lb_label s = lb_label svc \<and>
      upstream_label s = upstream_label svc) svcs = None"
    using assms(4) by (auto simp: find_None_iff targets_def)
  with assms(1-3) show ?thesis
    by (simp add: handleServiceDeletion_def emptied_upstream_def Let_def split: option.split prod.split)
qed

text \<open>
  C8: a deleted service that was the last one of its upstream is drained even where empty
  upstreams are not allowed: the load balancer is given the upstream without backends, and the
  stored upstream goes. If the load balancer accepts, the service is forgotten; if it reports
  an error, so does the handler, and the service stays known, so that the retry drains again.
\<close>

theorem syncHandler_drains_deleted:
  assumes "CHR ''/'' \<notin> set ns" and "CHR ''/'' \<notin> set n" and "key = slash_key ns n"
    and "k8s_GetService (dep_k8s d) ns n = Inl gone"
    and "map_of (lastKnownServices c) key = Some svc"
    and "lb_label svc \<noteq> ''''" and "upstream_label svc \<noteq> ''''"
    and "k8s_ListServices (dep_k8s d) = Inr svcs"
    and "\<forall>s \<in> set svcs. targets (lb_label svc) (upstream_label svc) s \<longrightarrow> svc_key s = key"
    and "map_of (dep_loadBalancers d) (lb_label svc) = Some a"
    and "lba_SyncUpstream a (emptied_upstream (dep_config d) svc) (world c) = (r, w)"
  shows "case syncHandler d key c of
    (res, c') \<Rightarrow>
      world c' = w \<and> (res = None \<longleftrightarrow> r = None) \<and>
      map_of (st_Upstreams c') (slash_key (lb_label svc) (upstream_label svc)) = None \<and>
      map_of (lastKnownServices c') key = (if r = None then None else Some svc) \<and>
      (r = None \<longrightarrow> map_of (st_Services c') key = None)"
proof -
  have find: "handleServiceDeletion d key svc c =
    (let (r, c1) = syncLoadBalancerUpstream d (emptied_upstream (dep_config d) svc)
        (metric (UpdateBackendsTotal (upstream_label svc) 0)
          (c\<lparr>st_Upstreams :=
            AList.delete (slash_key (lb_label svc) (upstream_label svc)) (st_Upstreams c)\<rparr>))
     in (r, if r = None then c1 else metric (IncrementSyncErrors (upstream_label svc)) c1))"
    using assms(6-9) by (intro handleServiceDeletion_last) blast+
  have split: "Split key CHR ''/'' = [ns, n]"
    using syncHandler_split [OF assms(1,2)] assms(3) by simp
  have lb: "up_LoadBalancer (emptied_upstream (dep_config d) svc) = lb_label svc"
    by (simp add: emptied_upstream_def)
  show ?thesis
    using assms(4,5,10,11) split
    by (cases r) (simp_all add: syncHandler_def find syncLoadBalancerUpstream_def lb forget_service_def)
qed

theorem syncHandler_drains_deleted_witness:
  "case syncHandler (demo_deps []) ''default/web'' demo_ctrl of
    (res, c') \<Rightarrow>
      world c' = [emptied_upstream demo_config (mapService (demo_service ''web''))] \<and> res = None \<and>
      map_of (lastKnownServices c') ''default/web'' = None"
  using syncHandler_drains_deleted [of "''default''" "''web''" "''default/web''" "demo_deps []"
      "Errorf ''not found''" demo_ctrl "mapService (demo_service ''web'')" "[]" recording_adapter
      None "[emptied_upstream demo_config (mapService (demo_service ''web''))]"]
  by (simp add: slash_key_def demo_ListServices recording_adapter_def)
     (auto simp: GetService_def demo_listers_def cluster_listers_def split: prod.splits)

section \<open>When the old backends stay\<close>

text \<open>
  C14: while another service names the upstream of a deleted service, but there is nothing to
  sync for it (no service of the upstream has a ready pod, there is no default backend, and
  empty upstreams are not allowed), the deletion succeeds without touching the load balancer:
  the service is forgotten, and the backends it had stay there.
\<close>

theorem syncHandler_deletion_keeps_backends:
  assumes "listers_ok L" and "dep_k8s d = adapter_port L"
    and "CHR ''/'' \<notin> set ns" and "CHR ''/'' \<notin> set n" and "key = slash_key ns n"
    and "GetService L ns n = Inl gone"
    and "map_of (lastKnownServices c) key = Some svc"
    and "lb_label svc \<noteq> ''''" and "upstream_label svc \<noteq> ''''"
    and "ListServices L = Inr svcs"
    and "\<exists>s \<in> set svcs. targets (lb_label svc) (upstream_label svc) s \<and> svc_key s \<noteq> key"
    and "\<forall>s \<in> set svcs. targets (lb_label svc) (upstream_label svc) s \<longrightarrow>
      \<not> svc_fails (dep_k8s d) (dep_config d) s"
    and "desired_backends (dep_k8s d) (dep_config d) (lb_label svc) (upstream_label svc) svcs = []"
    and "default_backends (dep_config d) (getLoadBalancerConfig (dep_config d) (lb_label svc)) = None"
    and "\<not> allow_empty (dep_config d) (getLoadBalancerConfig (dep_config d) (lb_label svc))"
  shows "syncHandler d key c = (None, forget_service key c)"
proof -
  let ?P = "\<lambda>s. svc_key s \<noteq> key \<and> lb_label s = lb_label svc \<and> upstream_label s = upstream_label svc"
  have svcs: "k8s_ListServices (adapter_port L) = Inr svcs"
    using assms(10) by simp
  obtain other where other: "find ?P svcs = Some other"
    using assms(11) by (cases "find ?P svcs") (auto simp: find_None_iff targets_def)
  then have mem: "other \<in> set svcs" "lb_label other = lb_label svc"
      "upstream_label other = upstream_label svc"
    by (auto simp: find_Some_iff)
  have "syncUpstreamsForService d other c = (None, c)"
  proof (cases "svc_NodePort other = 0")
    case True
    have "svc_upstream (dep_k8s d) (dep_config d) other = Inr None"
      using True assms(12) mem unfolding targets_def svc_fails_def
      by (auto simp: svc_upstream_def buildUpstream_def Let_def split: sum.splits)
    then show ?thesis by (rule syncUpstreamsForService_None)
  next
    case False
    have "\<not> list_ex (svc_fails (adapter_port L) (dep_config d))
        (filter (targets (lb_label other) (upstream_label other)) svcs)"
      using assms(2,12) mem by (auto simp: list_ex_iff)
    with adapter.sync_pushes_desired [OF assms(1,2) refl svcs mem(1) _ _ False, of c] assms(8,9) mem
    have "syncUpstreamsForService d other c =
        push_desired d (desired_upstream (adapter_port L) (dep_config d) (lb_label svc) (upstream_label svc) svcs) c"
      by simp
    then show ?thesis
      using assms(2,13-15) by (simp add: push_desired_def desired_upstream_def fill_empty_upstream_def)
  qed
  then have "handleServiceDeletion d key svc c = (None, c)"
    using assms(2,8,9,10) other by (simp add: handleServiceDeletion_def Let_def)
  then show ?thesis
    using assms(2,5,6,7) syncHandler_split [OF assms(3,4)] by (simp add: syncHandler_def)
qed

lemma demo_no_pods:
  "svc_backends (adapter_port (demo_listers [''api''])) demo_config (mapService (demo_service ''api'')) = []"
  "\<not> svc_fails (adapter_port (demo_listers [''api''])) demo_config (mapService (demo_service ''api''))"
proof -
  have "k8s_GetPodsForSelector (adapter_port (demo_listers [''api'']))
      (svc_Namespace (mapService (demo_service ''api''))) (svc_Selector (mapService (demo_service ''api''))) = Inr []"
    by (simp add: demo_defs)
  then have "svc_upstream (adapter_port (demo_listers [''api''])) demo_config (mapService (demo_service ''api'')) =
    Inr (Some \<lparr>up_Name = ''web'', up_LoadBalancer = ''lb1'', up_Backends = [],
       up_Type = getLoadBalancerType demo_config ''lb1'', up_Config = getLoadBalancerConfig demo_config ''lb1'',
       up_PreserveExistingBackends = False\<rparr>)"
    by (simp add: svc_upstream_def buildUpstream_def Let_def mergeBackends_merged merged_def)
  then show "svc_backends (adapter_port (demo_listers [''api''])) demo_config (mapService (demo_service ''api'')) = []"
    and "\<not> svc_fails (adapter_port (demo_listers [''api''])) demo_config (mapService (demo_service ''api''))"
    by (simp_all add: svc_backends_def svc_fails_def)
qed

lemma demo_config_simps [simp]:
  "default_backends demo_config (getLoadBalancerConfig demo_config lb) = None"
  "\<not> allow_empty demo_config (getLoadBalancerConfig demo_config lb)"
  by (simp_all add: default_backends_def defBackend_def allow_empty_def getLoadBalancerConfig_def
      demo_config_def)

theorem syncHandler_deletion_keeps_backends_witness:
  "syncHandler (demo_deps [''api'']) ''default/web'' demo_ctrl =
     (None, forget_service ''default/web'' demo_ctrl)"
proof (rule syncHandler_deletion_keeps_backends [where L = "demo_listers [''api'']" and ns = "''default''"
      and n = "''web''" and svc = "mapService (demo_service ''web'')"
      and svcs = "[mapService (demo_service ''api'')]" and gone = "Errorf ''not found''"])
  show "listers_ok (demo_listers [''api''])"
    by (rule demo_listers_ok) simp_all
  show "GetService (demo_listers [''api'']) ''default'' ''web'' = Inl (Errorf ''not found'')"
    by (simp add: GetService_def demo_listers_def cluster_listers_def demo_service_def)
qed (simp_all add: demo_ListServices slash_key_def targets_def desired_backends_def demo_no_pods
    merged_def)



end
