(* ===== verification/Reconciliation.thy ===== *)
theory Reconciliation
  imports EventProps
begin

text \<open>
  The periodic reconciliation of \<open>internal/controller/controller.go\<close>: \<open>syncSingleLoadBalancer\<close>
  in its steps (the refresh of the known services, the desired state, the default backend or
  safety net for each upstream without backends, the update of the stored upstreams, the call of
  the load balancer), \<open>SyncUpstreams\<close> over all load balancers, \<open>runPeriodicSync\<close> and \<open>Start\<close>.
  The specification is \<open>desired_entry\<close>: what the whole list of services asks for, for one
  upstream. It is the same \<open>desired_upstream\<close> that the event path pushes.
\<close>

section \<open>The code\<close>

text \<open>The two loops over the services under the state lock.\<close>

definition refresh_service :: "string \<Rightarrow> 'w ctrl \<Rightarrow> service \<Rightarrow> 'w ctrl" where
  "refresh_service lbName c svc =
     (if lb_label svc \<noteq> lbName then c
      else (let key = svc_key svc in
        c\<lparr>st_Services := AList.update key svc (st_Services c),
          lastKnownServices :=
            (if has_key (lastKnownServices c) key then lastKnownServices c
             else AList.update key svc (lastKnownServices c))\<rparr>))"

definition refresh_services :: "string \<Rightarrow> service list \<Rightarrow> 'w ctrl \<Rightarrow> 'w ctrl" where
  "refresh_services lbName services c =
     (let currentSvcKeys = map svc_key (filter (\<lambda>svc. lb_label svc = lbName) services);
          c = foldl (refresh_service lbName) c services
      in c\<lparr>st_Services :=
           filter (\<lambda>(key, svc). \<not> (lb_label svc = lbName \<and> key \<notin> set currentSvcKeys)) (st_Services c)\<rparr>)"

text \<open>What stands for an upstream that could not be worked out.\<close>

definition preserveUp :: "(string, upstream) gomap \<Rightarrow> string \<Rightarrow> string \<Rightarrow> upstream" where
  "preserveUp upstreams lbName upstreamName =
     \<lparr>up_Name = upstreamName, up_LoadBalancer = lbName,
      up_Backends = (case map_of upstreams (slash_key lbName upstreamName) of
         Some oldUp \<Rightarrow> up_Backends oldUp | None \<Rightarrow> []),
      up_Type = '''', up_Config = None, up_PreserveExistingBackends = True\<rparr>"

text \<open>The body of the loop that collects the desired state.\<close>

definition desired_step ::
  "k8s_port \<Rightarrow> config \<Rightarrow> (string, upstream) gomap \<Rightarrow> string \<Rightarrow>
    (string, upstream) gomap \<Rightarrow> service \<Rightarrow> (string, upstream) gomap" where
  "desired_step k cfg upstreams lbName desiredState svc =
     (if lb_label svc \<noteq> lbName then desiredState
      else (let upstreamName = upstream_label svc in
      if upstreamName = '''' then desiredState
      else
      (case k8s_GetPodsForSelector k (svc_Namespace svc) (svc_Selector svc) of
         Inl _ \<Rightarrow> AList.update upstreamName (preserveUp upstreams lbName upstreamName) desiredState
       | Inr pods \<Rightarrow>
      (case buildUpstream k cfg svc pods of
         Inl _ \<Rightarrow> AList.update upstreamName (preserveUp upstreams lbName upstreamName) desiredState
       | Inr None \<Rightarrow> desiredState
       | Inr (Some upstream) \<Rightarrow>
           (case map_of desiredState (up_Name upstream) of
              Some existingUp \<Rightarrow>
                if \<not> up_PreserveExistingBackends existingUp
                then AList.update (up_Name upstream)
                  (existingUp\<lparr>up_Backends :=
                     mergeBackends (up_Backends existingUp) (up_Backends upstream)\<rparr>) desiredState
                else desiredState
            | None \<Rightarrow> AList.update (up_Name upstream) upstream desiredState)))))"

text \<open>The body of the loop for upstreams with zero backends.\<close>

definition fallback_step ::
  "config \<Rightarrow> (string, upstream) gomap \<Rightarrow> string \<Rightarrow> string \<Rightarrow> upstream \<Rightarrow> upstream" where
  "fallback_step cfg upstreams lbName upName up =
     (let lbConfig = getLoadBalancerConfig cfg lbName in
      if up_PreserveExistingBackends up then up
      else if up_Backends up = [] then
        (case default_backends cfg lbConfig of
           Some bs \<Rightarrow> up\<lparr>up_Backends := bs\<rparr>
         | None \<Rightarrow>
             if \<not> allow_empty cfg lbConfig then
               (let up = (case map_of upstreams (slash_key lbName upName) of
                      Some oldUp \<Rightarrow>
                        if up_Backends oldUp \<noteq> [] then up\<lparr>up_Backends := up_Backends oldUp\<rparr> else up
                    | None \<Rightarrow> up)
                in up\<lparr>up_PreserveExistingBackends := True\<rparr>)
             else up)
      else up)"

definition desiredState ::
  "k8s_port \<Rightarrow> config \<Rightarrow> (string, upstream) gomap \<Rightarrow> string \<Rightarrow> service list \<Rightarrow>
    (string, upstream) gomap" where
  "desiredState k cfg upstreams lbName services =
     map (\<lambda>(upName, up). (upName, fallback_step cfg upstreams lbName upName up))
       (foldl (desired_step k cfg upstreams lbName) [] services)"

text \<open>The two loops that bring the stored upstreams and the gauge up to date.\<close>

definition remove_upstream ::
  "string \<Rightarrow> (string, upstream) gomap \<Rightarrow> 'w ctrl \<Rightarrow> string \<times> upstream \<Rightarrow> 'w ctrl" where
  "remove_upstream lbName desired c entry =
     (let k = fst entry; prefix = lbName @ ''/'' in
      if HasPrefix k prefix then
        (let upName = TrimPrefix k prefix in
         if has_key desired upName then c
         else metric (UpdateBackendsTotal upName 0)
           (c\<lparr>st_Upstreams := AList.delete k (st_Upstreams c)\<rparr>))
      else c)"

definition store_upstream :: "string \<Rightarrow> 'w ctrl \<Rightarrow> string \<times> upstream \<Rightarrow> 'w ctrl" where
  "store_upstream lbName c entry =
     (let (upName, up) = entry in
      if \<not> up_PreserveExistingBackends up then
        metric (UpdateBackendsTotal upName (length (up_Backends up)))
          (c\<lparr>st_Upstreams := AList.update (slash_key lbName upName) up (st_Upstreams c)\<rparr>)
      else c)"

definition update_upstreams :: "string \<Rightarrow> (string, upstream) gomap \<Rightarrow> 'w ctrl \<Rightarrow> 'w ctrl" where
  "update_upstreams lbName desired c =
     foldl (store_upstream lbName)
       (foldl (remove_upstream lbName desired) c (st_Upstreams c)) desired"

text \<open>The end of a reconciliation: hand over the desired state, count, and report.\<close>

definition finish_sync ::
  "string \<Rightarrow> 'w adapter \<Rightarrow> (string, upstream) gomap \<Rightarrow> 'w ctrl \<Rightarrow> goerror option \<times> 'w ctrl" where
  "finish_sync lbName adapter desired c =
     (case lba_SyncAllUpstreams adapter desired (world c) of
        (Some e, w) \<Rightarrow>
          (Some (Wrapf (''reconciliation failed for LB '' @ lbName) e),
           metric (IncrementSyncErrors lbName) (c\<lparr>world := w\<rparr>))
      | (None, w) \<Rightarrow>
          (None, metric (ObserveSyncDuration (''reconciliation_'' @ lbName))
             (metric SyncUpstreamCtrInc (c\<lparr>world := w\<rparr>))))"

definition syncSingleLoadBalancer ::
  "'w deps \<Rightarrow> string \<Rightarrow> 'w adapter \<Rightarrow> 'w ctrl \<Rightarrow> goerror option \<times> 'w ctrl" where
  "syncSingleLoadBalancer d lbName adapter c =
     (let k = dep_k8s d; cfg = dep_config d in
      if \<not> HasSynced (Some k) then (None, c)
      else
      (case k8s_ListServices k of
         Inl e \<Rightarrow>
           (Some (Wrapf (''failed to list services from lister for LB '' @ lbName) e), c)
       | Inr services \<Rightarrow>
           (let c = refresh_services lbName services c;
                desired = desiredState k cfg (st_Upstreams c) lbName services;
                c = update_upstreams lbName desired c
            in finish_sync lbName adapter desired c)))"

text \<open>\<open>SyncUpstreams\<close>: every load balancer, collecting the errors.\<close>

definition sync_one ::
  "'w deps \<Rightarrow> goerror list \<times> 'w ctrl \<Rightarrow> string \<times> 'w adapter \<Rightarrow> goerror list \<times> 'w ctrl" where
  "sync_one d st entry =
     (case syncSingleLoadBalancer d (fst entry) (snd entry) (snd st) of
        (Some e, c) \<Rightarrow> (fst st @ [e], c)
      | (None, c) \<Rightarrow> (fst st, c))"

definition SyncUpstreams :: "'w deps \<Rightarrow> 'w ctrl \<Rightarrow> goerror option \<times> 'w ctrl" where
  "SyncUpstreams d c =
     (case foldl (sync_one d) ([], c) (dep_loadBalancers d) of
        (errs, c) \<Rightarrow>
          if length errs > 0 then (Some (Wrapf ''drift reconciliation errors'' (MultiErr errs)), c)
          else (None, c))"

section \<open>The periodic sync and the start\<close>

text \<open>The period of one load balancer's ticker, in nanoseconds.\<close>

definition sync_period :: "config \<Rightarrow> string \<Rightarrow> int" where
  "sync_period cfg lbName =
     (let period = cfg_GlobalUpstreamSyncPeriod cfg;
          period = (case getLoadBalancerConfig cfg lbName of
             Some lbConfig \<Rightarrow>
               if GetUpstreamSyncPeriod lbConfig > 0 then GetUpstreamSyncPeriod lbConfig else period
           | None \<Rightarrow> period)
      in if period \<le> 0 then 30 * 1000000000 else period)"

text \<open>
  What a round of a ticker goroutine waits for, and what it does: \<open>None\<close> where it returns. With
  no load balancer at all, one ticker runs \<open>SyncUpstreams\<close> instead; errors are only logged.
\<close>

datatype select_case = TickerTick | SyncStop | CtxDone

definition periodic_round ::
  "'w deps \<Rightarrow> (string \<times> 'w adapter) option \<Rightarrow> select_case \<Rightarrow> 'w ctrl \<Rightarrow> 'w ctrl option" where
  "periodic_round d lb sel c =
     (case sel of
        TickerTick \<Rightarrow>
          Some (case lb of
             Some (name, ad) \<Rightarrow> snd (syncSingleLoadBalancer d name ad c)
           | None \<Rightarrow> snd (SyncUpstreams d c))
      | _ \<Rightarrow> None)"

text \<open>The goroutines of \<open>runPeriodicSync\<close>: what each one syncs, with its period.\<close>

definition runPeriodicSync :: "'w deps \<Rightarrow> ((string \<times> 'w adapter) option \<times> int) list" where
  "runPeriodicSync d =
     (if dep_loadBalancers d = [] then [(None, cfg_GlobalUpstreamSyncPeriod (dep_config d))]
      else map (\<lambda>(name, ad). (Some (name, ad), sync_period (dep_config d) name)) (dep_loadBalancers d))"

text \<open>
  \<open>Start\<close>: what the Kubernetes port answers (a parameter), and the goroutines that have been
  started when it returns, in order. The error of the initial sync is only logged; after the
  context is done its error is returned.
\<close>

record start_env =
  se_WatchServices :: "goerror option"
  se_WatchPods :: "goerror option"
  se_WatchNodes :: "goerror option"
  se_Start :: "goerror option"
  se_ctxErr :: goerror

datatype started = ProcessEvents | RunWorker | RunPeriodicSync

definition Start :: "start_env \<Rightarrow> 'w deps \<Rightarrow> 'w ctrl \<Rightarrow> goerror \<times> started list \<times> 'w ctrl" where
  "Start env d c =
     (case se_WatchServices env of
        Some e \<Rightarrow> (Wrapf ''failed to register service watcher'' e, [ProcessEvents], c)
      | None \<Rightarrow>
     (case se_WatchPods env of
        Some e \<Rightarrow> (Wrapf ''failed to register pod watcher'' e, [ProcessEvents], c)
      | None \<Rightarrow>
     (case se_WatchNodes env of
        Some e \<Rightarrow> (Wrapf ''failed to register node watcher'' e, [ProcessEvents], c)
      | None \<Rightarrow>
     (case se_Start env of
        Some e \<Rightarrow> (Wrapf ''failed to start and sync kubernetes informers'' e, [ProcessEvents], c)
      | None \<Rightarrow>
          (se_ctxErr env,
           ProcessEvents # replicate (nat (cfg_RequestPoolSize (dep_config d))) RunWorker @ [RunPeriodicSync],
           snd (SyncUpstreams d c))))))"

end
