(* ===== verification/ReconcileProps.thy ===== *)
theory ReconcileProps
  imports Reconciliation
begin

text \<open>
  The reconciliation against its specification: the desired state of an upstream as a function
  of the whole list of services, its agreement with the event path, what the load balancer is
  given, how the stored upstreams change, and the state invariant over the whole system.
\<close>

section \<open>The desired state of one upstream\<close>

definition desired_entry ::
  "k8s_port \<Rightarrow> config \<Rightarrow> (string, upstream) gomap \<Rightarrow> string \<Rightarrow> service list \<Rightarrow> string \<Rightarrow>
    upstream option" where
  "desired_entry k cfg upstreams lb svcs up =
     (let mine = filter (targets lb up) svcs in
      if up = '''' then None
      else if list_ex (svc_fails k cfg) mine then Some (preserveUp upstreams lb up)
      else if list_all (\<lambda>s. svc_upstream k cfg s = Inr None) mine then None
      else Some (desired_upstream k cfg lb up svcs))"

lemma desired_step_alt:
  "desired_step k cfg upstreams lb m s =
     (if lb_label s \<noteq> lb \<or> upstream_label s = '''' then m
      else (case svc_upstream k cfg s of
          Inl _ \<Rightarrow> AList.update (upstream_label s) (preserveUp upstreams lb (upstream_label s)) m
        | Inr None \<Rightarrow> m
        | Inr (Some u) \<Rightarrow>
            (case map_of m (upstream_label s) of
               Some v \<Rightarrow>
                 if up_PreserveExistingBackends v then m
                 else AList.update (upstream_label s)
                   (v\<lparr>up_Backends := mergeBackends (up_Backends v) (up_Backends u)\<rparr>) m
             | None \<Rightarrow> AList.update (upstream_label s) u m)))"
proof (cases "svc_upstream k cfg s")
  case (Inl e)
  then show ?thesis
    by (auto simp: desired_step_def svc_upstream_def Let_def split: sum.splits)
next
  case (Inr x)
  show ?thesis
  proof (cases x)
    case None
    with Inr show ?thesis
      by (auto simp: desired_step_def svc_upstream_def Let_def split: sum.splits)
  next
    case (Some u)
    with Inr have "up_Name u = upstream_label s"
      by (simp add: svc_upstream_Some)
    with Inr Some show ?thesis
      by (auto simp: desired_step_def svc_upstream_def Let_def split: sum.splits option.splits)
  qed
qed

lemma desired_backends_snoc:
  "desired_backends k cfg lb up (svcs @ [s]) =
     (if targets lb up s then merged (desired_backends k cfg lb up svcs @ svc_backends k cfg s)
      else desired_backends k cfg lb up svcs)"
  by (simp add: desired_backends_def)

lemma desired_upstream_snoc:
  "desired_upstream k cfg lb up (svcs @ [s]) =
     (if targets lb up s
      then (desired_upstream k cfg lb up svcs)
        \<lparr>up_Backends := merged (desired_backends k cfg lb up svcs @ svc_backends k cfg s)\<rparr>
      else desired_upstream k cfg lb up svcs)"
  by (simp add: desired_upstream_def desired_backends_snoc)

lemma desired_upstream_simps [simp]:
  "up_Backends (desired_upstream k cfg lb up svcs) = desired_backends k cfg lb up svcs"
  "up_Name (desired_upstream k cfg lb up svcs) = up"
  "up_LoadBalancer (desired_upstream k cfg lb up svcs) = lb"
  "\<not> up_PreserveExistingBackends (desired_upstream k cfg lb up svcs)"
  by (simp_all add: desired_upstream_def)

lemma desired_backends_none:
  assumes "list_all (\<lambda>s. svc_upstream k cfg s = Inr None) (filter (targets lb up) svcs)"
  shows "desired_backends k cfg lb up svcs = []"
  using assms by (auto simp: desired_backends_def svc_backends_def list_all_iff)

lemma desired_upstream_first:
  assumes "svc_upstream k cfg s = Inr (Some u)" and "targets lb up s"
    and "desired_backends k cfg lb up svcs = []"
  shows "desired_upstream k cfg lb up (svcs @ [s]) = u"
  using svc_upstream_Some [OF assms(1)] assms
  by (simp add: desired_upstream_def desired_backends_snoc svc_backends_def targets_def)

text \<open>The loop over the services computes the specification, for every upstream.\<close>

lemma desired_loop:
  "map_of (foldl (desired_step k cfg upstreams lb) [] svcs) up =
     desired_entry k cfg upstreams lb svcs up"
proof (induction svcs arbitrary: up rule: rev_induct)
  case Nil
  then show ?case by (simp add: desired_entry_def)
next
  case (snoc s svcs)
  let ?m = "foldl (desired_step k cfg upstreams lb) [] svcs"
  show ?case
  proof (cases "targets lb up s \<and> up \<noteq> ''''")
    case False
    then have "map_of (desired_step k cfg upstreams lb ?m s) up = map_of ?m up"
      by (auto simp: desired_step_alt targets_def split: sum.splits option.splits)
    moreover have "desired_entry k cfg upstreams lb (svcs @ [s]) up = desired_entry k cfg upstreams lb svcs up"
      using False by (auto simp: desired_entry_def desired_upstream_snoc Let_def)
    ultimately show ?thesis
      using snoc.IH by simp
  next
    case True
    then have t: "lb_label s = lb" "upstream_label s = up" "up \<noteq> ''''" "targets lb up s"
      by (auto simp: targets_def)
    consider (fail) e where "svc_upstream k cfg s = Inl e" | (none) "svc_upstream k cfg s = Inr None"
      | (some) u where "svc_upstream k cfg s = Inr (Some u)"
      by (metis not_None_eq sumE)
    then show ?thesis
    proof cases
      case fail
      with t show ?thesis
        by (simp add: desired_step_alt desired_entry_def svc_fails_def)
    next
      case none
      with t snoc.IH [of up] show ?thesis
        by (simp add: desired_step_alt desired_entry_def svc_fails_def desired_upstream_snoc svc_backends_def
            desired_backends_def desired_upstream_def)
    next
      case some
      have p: "up_PreserveExistingBackends (preserveUp upstreams lb up)"
        by (simp add: preserveUp_def)
      show ?thesis
        using t some snoc.IH [of up] p
          desired_upstream_first [OF some t(4) desired_backends_none]
        by (auto simp: desired_step_alt desired_entry_def svc_fails_def desired_upstream_snoc svc_backends_def
            mergeBackends_merged Let_def)
    qed
  qed
qed

section \<open>The whole desired state\<close>

definition reconcile_entry ::
  "k8s_port \<Rightarrow> config \<Rightarrow> (string, upstream) gomap \<Rightarrow> string \<Rightarrow> service list \<Rightarrow> string \<Rightarrow>
    upstream option" where
  "reconcile_entry k cfg upstreams lb svcs up =
     map_option (fallback_step cfg upstreams lb up) (desired_entry k cfg upstreams lb svcs up)"

lemma desiredState_lookup:
  "map_of (desiredState k cfg upstreams lb svcs) up = reconcile_entry k cfg upstreams lb svcs up"
  by (simp add: desiredState_def map_of_map_value desired_loop reconcile_entry_def)

lemma desired_step_distinct:
  "distinct (map fst m) \<Longrightarrow> distinct (map fst (desired_step k cfg upstreams lb m s))"
  by (auto simp: desired_step_alt distinct_update split: sum.split option.split)

lemma desiredState_distinct: "distinct (map fst (desiredState k cfg upstreams lb svcs))"
proof -
  have "distinct (map fst (foldl (desired_step k cfg upstreams lb) [] svcs))"
    by (rule foldl_invariant) (auto intro: desired_step_distinct)
  then show ?thesis
    by (simp add: desiredState_def o_def case_prod_beta)
qed

text \<open>What \<open>fallback_step\<close> leaves: backends, a preserved upstream, or a permitted empty one.\<close>

lemma fallback_step_cases:
  "up_PreserveExistingBackends (fallback_step cfg upstreams lb n u) \<or>
   up_Backends (fallback_step cfg upstreams lb n u) \<noteq> [] \<or>
   allow_empty cfg (getLoadBalancerConfig cfg lb)"
  by (auto simp: fallback_step_def default_backends_def Let_def split: option.splits if_splits)

lemma fallback_step_names [simp]:
  "up_Name (fallback_step cfg upstreams lb n u) = up_Name u"
  "up_LoadBalancer (fallback_step cfg upstreams lb n u) = up_LoadBalancer u"
  by (auto simp: fallback_step_def Let_def split: option.splits)

text \<open>The event path fills an empty upstream in the same way.\<close>

lemma fallback_step_event:
  assumes "\<not> up_PreserveExistingBackends u"
  shows "case fill_empty_upstream cfg (getLoadBalancerConfig cfg lb) u of
      Some v \<Rightarrow> fallback_step cfg upstreams lb n u = v
    | None \<Rightarrow> up_PreserveExistingBackends (fallback_step cfg upstreams lb n u)"
  using assms by (auto simp: fallback_step_def fill_empty_upstream_def Let_def split: option.split)

lemma desired_entry_names:
  assumes "desired_entry k cfg upstreams lb svcs up = Some u"
  shows "up_Name u = up" "up_LoadBalancer u = lb" "up \<noteq> ''''"
  using assms by (auto simp: desired_entry_def preserveUp_def Let_def split: if_splits)

lemma fallback_step_merged:
  assumes "\<not> up_PreserveExistingBackends (fallback_step cfg upstreams lb n u)"
    and "merged (up_Backends u) = up_Backends u"
  shows "merged (up_Backends (fallback_step cfg upstreams lb n u)) =
    up_Backends (fallback_step cfg upstreams lb n u)"
  using assms
  by (auto simp: fallback_step_def default_backends_def Let_def merged_def backend_at_def
      address_of_def weight_of_def split: if_splits option.splits)

lemma merged_desired_backends [simp]:
  "merged (desired_backends k cfg lb up svcs) = desired_backends k cfg lb up svcs"
  by (simp add: desired_backends_def)

lemma reconcile_entry_ok:
  assumes "reconcile_entry k cfg upstreams lb svcs up = Some u"
    and "\<not> up_PreserveExistingBackends u" and "lb \<noteq> ''''"
  shows "upstream_ok (slash_key lb up) u"
proof -
  from assms(1) obtain v where v: "desired_entry k cfg upstreams lb svcs up = Some v"
      and u: "u = fallback_step cfg upstreams lb up v"
    by (auto simp: reconcile_entry_def)
  have "\<not> up_PreserveExistingBackends v"
    using assms(2) unfolding u by (auto simp: fallback_step_def)
  then have "v = desired_upstream k cfg lb up svcs"
    using v by (auto simp: desired_entry_def preserveUp_def Let_def split: if_splits)
  with fallback_step_merged [of cfg upstreams lb up v] assms(2,3) desired_entry_names [OF v]
  show ?thesis
    by (simp add: upstream_ok_def u)
qed

section \<open>The stored upstreams\<close>

lemma slash_key_inject [simp]: "slash_key lb a = slash_key lb b \<longleftrightarrow> a = b"
  by (simp add: slash_key_def)

lemma slash_key_lb:
  assumes "CHR ''/'' \<notin> set lb" and "CHR ''/'' \<notin> set lb'"
  shows "slash_key lb a = slash_key lb' b \<longleftrightarrow> lb = lb' \<and> a = b"
  using sep_append_inject [OF assms, of a b] by (auto simp: slash_key_def)

definition removable :: "string \<Rightarrow> (string, upstream) gomap \<Rightarrow> string \<Rightarrow> bool" where
  "removable lb desired k \<longleftrightarrow> (\<exists>up. k = slash_key lb up \<and> map_of desired up = None)"

lemma HasPrefix_slash: "HasPrefix k (lb @ ''/'') \<longleftrightarrow> (\<exists>t. k = slash_key lb t)"
  by (simp add: HasPrefix_iff slash_key_def)

lemma TrimPrefix_slash: "TrimPrefix (slash_key lb t) (lb @ ''/'') = t"
  using TrimPrefix_append [of "lb @ ''/''" t] by (simp add: slash_key_def)

lemma remove_upstream_lookup:
  "map_of (st_Upstreams (remove_upstream lb desired c e)) =
     (if removable lb desired (fst e) then (map_of (st_Upstreams c))(fst e := None)
      else map_of (st_Upstreams c))"
  by (auto simp: remove_upstream_def removable_def Let_def HasPrefix_slash TrimPrefix_slash has_key_def)

lemma remove_loop_lookup:
  "map_of (st_Upstreams (foldl (remove_upstream lb desired) c xs)) k =
     (if removable lb desired k \<and> k \<in> fst ` set xs then None else map_of (st_Upstreams c) k)"
  by (induction xs arbitrary: c) (auto simp: remove_upstream_lookup)

lemma store_upstream_lookup:
  "map_of (st_Upstreams (store_upstream lb c (up, u))) =
     (if up_PreserveExistingBackends u then map_of (st_Upstreams c)
      else (map_of (st_Upstreams c))(slash_key lb up \<mapsto> u))"
  by (simp add: store_upstream_def)

lemma store_loop_lookup:
  assumes "distinct (map fst desired)"
  shows "map_of (st_Upstreams (foldl (store_upstream lb) c desired)) (slash_key lb up) =
     (case map_of desired up of
        Some u \<Rightarrow> if up_PreserveExistingBackends u then map_of (st_Upstreams c) (slash_key lb up) else Some u
      | None \<Rightarrow> map_of (st_Upstreams c) (slash_key lb up))"
  using assms
proof (induction desired arbitrary: c)
  case Nil
  then show ?case by simp
next
  case (Cons e desired)
  obtain n u where e: "e = (n, u)" by fastforce
  with Cons.prems have "map_of desired n = None"
    by (simp add: map_of_eq_None_iff)
  with Cons e show ?case
    by (auto simp: store_upstream_lookup split: option.split)
qed

lemma store_loop_other:
  assumes "\<And>up. k \<noteq> slash_key lb up"
  shows "map_of (st_Upstreams (foldl (store_upstream lb) c desired)) k = map_of (st_Upstreams c) k"
  using assms
proof (induction desired arbitrary: c)
  case (Cons e desired)
  then show ?case by (cases e) (auto simp: store_upstream_lookup)
qed simp

lemma update_upstreams_lookup:
  assumes "distinct (map fst desired)"
  shows "map_of (st_Upstreams (update_upstreams lb desired c)) (slash_key lb up) =
     (case map_of desired up of
        Some u \<Rightarrow> if up_PreserveExistingBackends u then map_of (st_Upstreams c) (slash_key lb up) else Some u
      | None \<Rightarrow> None)"
proof -
  have "map_of (st_Upstreams (foldl (remove_upstream lb desired) c (st_Upstreams c))) (slash_key lb up) =
      (if map_of desired up = None then None else map_of (st_Upstreams c) (slash_key lb up))"
    by (auto simp: remove_loop_lookup removable_def map_of_eq_None_iff)
  then show ?thesis
    by (simp add: update_upstreams_def store_loop_lookup [OF assms] split: option.split)
qed

lemma update_upstreams_other:
  assumes "CHR ''/'' \<notin> set lb" and "CHR ''/'' \<notin> set lb'" and "lb \<noteq> lb'"
  shows "map_of (st_Upstreams (update_upstreams lb desired c)) (slash_key lb' up) =
    map_of (st_Upstreams c) (slash_key lb' up)"
  using assms
  by (auto simp: update_upstreams_def store_loop_other remove_loop_lookup removable_def slash_key_lb)

section \<open>One reconciliation\<close>

lemma refresh_loop_frame:
  "st_Upstreams (foldl (refresh_service lb) c svcs) = st_Upstreams c \<and>
   world (foldl (refresh_service lb) c svcs) = world c \<and>
   st_Pods (foldl (refresh_service lb) c svcs) = st_Pods c \<and>
   st_Nodes (foldl (refresh_service lb) c svcs) = st_Nodes c"
  by (induction svcs arbitrary: c) (auto simp: refresh_service_def Let_def)

lemma refresh_services_frame [simp]:
  "st_Upstreams (refresh_services lb svcs c) = st_Upstreams c"
  "world (refresh_services lb svcs c) = world c"
  by (simp_all add: refresh_services_def Let_def refresh_loop_frame)

lemma update_upstreams_frame:
  "world (update_upstreams lb desired c) = world c \<and>
   st_Services (update_upstreams lb desired c) = st_Services c \<and>
   st_Pods (update_upstreams lb desired c) = st_Pods c \<and>
   st_Nodes (update_upstreams lb desired c) = st_Nodes c \<and>
   lastKnownServices (update_upstreams lb desired c) = lastKnownServices c"
proof -
  let ?I = "\<lambda>c'. world c' = world c \<and> st_Services c' = st_Services c \<and> st_Pods c' = st_Pods c \<and>
    st_Nodes c' = st_Nodes c \<and> lastKnownServices c' = lastKnownServices c"
  have "?I (foldl (remove_upstream lb desired) c (st_Upstreams c))"
    by (rule foldl_invariant [where I = ?I]) (auto simp: remove_upstream_def Let_def)
  then show ?thesis
    unfolding update_upstreams_def
    by (rule foldl_invariant [where I = ?I]) (auto simp: store_upstream_def split: prod.splits)
qed

lemma update_upstreams_world [simp]: "world (update_upstreams lb desired c) = world c"
  using update_upstreams_frame by blast

lemma syncSingleLoadBalancer_synced:
  assumes "k8s_HasSynced (dep_k8s d)" and "k8s_ListServices (dep_k8s d) = Inr svcs"
    and "syncSingleLoadBalancer d lb a c = (r, c')"
    and "desired = desiredState (dep_k8s d) (dep_config d) (st_Upstreams c) lb svcs"
    and "c1 = update_upstreams lb desired (refresh_services lb svcs c)"
  shows "world c' = snd (lba_SyncAllUpstreams a desired (world c))"
    and "r = None \<longleftrightarrow> fst (lba_SyncAllUpstreams a desired (world c)) = None"
    and "st_Upstreams c' = st_Upstreams c1" and "st_Services c' = st_Services c1"
    and "st_Pods c' = st_Pods c1" and "st_Nodes c' = st_Nodes c1"
    and "lastKnownServices c' = lastKnownServices c1"
    and "\<exists>ops. metric_calls c' = metric_calls c1 @ ops \<and> (\<forall>up n. UpdateBackendsTotal up n \<notin> set ops)"
proof -
  obtain e w where l: "lba_SyncAllUpstreams a desired (world c) = (e, w)" by fastforce
  have "(r, c') = (case e of
      Some e \<Rightarrow> (Some (Wrapf (''reconciliation failed for LB '' @ lb) e),
         metric (IncrementSyncErrors lb) (c1\<lparr>world := w\<rparr>))
    | None \<Rightarrow> (None, metric (ObserveSyncDuration (''reconciliation_'' @ lb))
         (metric SyncUpstreamCtrInc (c1\<lparr>world := w\<rparr>))))"
    using l unfolding assms(3) [symmetric] assms(4,5)
    by (cases e; simp add: syncSingleLoadBalancer_def finish_sync_def HasSynced_def Let_def assms(1,2))
  then show "world c' = snd (lba_SyncAllUpstreams a desired (world c))"
    and "r = None \<longleftrightarrow> fst (lba_SyncAllUpstreams a desired (world c)) = None"
    and "st_Upstreams c' = st_Upstreams c1" and "st_Services c' = st_Services c1"
    and "st_Pods c' = st_Pods c1" and "st_Nodes c' = st_Nodes c1"
    and "lastKnownServices c' = lastKnownServices c1"
    and "\<exists>ops. metric_calls c' = metric_calls c1 @ ops \<and> (\<forall>up n. UpdateBackendsTotal up n \<notin> set ops)"
    unfolding l by (cases e; simp add: metric_def)+
qed

lemma update_upstreams_same:
  fixes c1 c2 :: "'w ctrl"
  assumes "st_Upstreams c1 = st_Upstreams c2"
  shows "st_Upstreams (update_upstreams lb desired c1) = st_Upstreams (update_upstreams lb desired c2)"
proof -
  have r: "st_Upstreams (foldl (remove_upstream lb desired) c1 xs) =
      st_Upstreams (foldl (remove_upstream lb desired) c2 xs)"
    if "st_Upstreams c1 = st_Upstreams c2" for c1 c2 :: "'w ctrl" and xs
    using that
  proof (induction xs arbitrary: c1 c2)
    case (Cons x xs)
    then have "st_Upstreams (remove_upstream lb desired c1 x) = st_Upstreams (remove_upstream lb desired c2 x)"
      by (simp add: remove_upstream_def Let_def)
    from Cons.IH [OF this] show ?case by simp
  qed simp
  have s: "st_Upstreams (foldl (store_upstream lb) c1 xs) = st_Upstreams (foldl (store_upstream lb) c2 xs)"
    if "st_Upstreams c1 = st_Upstreams c2" for c1 c2 :: "'w ctrl" and xs
    using that
  proof (induction xs arbitrary: c1 c2)
    case (Cons x xs)
    then have "st_Upstreams (store_upstream lb c1 x) = st_Upstreams (store_upstream lb c2 x)"
      by (simp add: store_upstream_def split: prod.split)
    from Cons.IH [OF this] show ?case by simp
  qed simp
  show ?thesis
    unfolding update_upstreams_def assms by (rule s [OF r [OF assms]])
qed

section \<open>Properties\<close>

text \<open>
  C17: once the caches are synced and the services can be listed, a reconciliation calls the load
  balancer once, with a desired state that is exactly what all services ask for: for every
  upstream name nothing, where no service with a node port names it; the upstream as it was
  stored, marked as preserved, where a service that names it cannot be resolved; and otherwise
  the merged backends of all the services that name it, or the fallback for an empty upstream.
  It reports an error exactly when the load balancer does.
\<close>

theorem syncSingleLoadBalancer_desired:
  assumes "k8s_HasSynced (dep_k8s d)" and "k8s_ListServices (dep_k8s d) = Inr svcs"
  shows "\<exists>desired. distinct (map fst desired) \<and>
    (\<forall>up. map_of desired up =
      map_option (fallback_step (dep_config d) (st_Upstreams c) lb up)
        (desired_entry (dep_k8s d) (dep_config d) (st_Upstreams c) lb svcs up)) \<and>
    (case (syncSingleLoadBalancer d lb a c, lba_SyncAllUpstreams a desired (world c)) of
       ((res, c'), (err, w)) \<Rightarrow> world c' = w \<and> (res = None \<longleftrightarrow> err = None))"
proof (intro exI conjI allI)
  let ?desired = "desiredState (dep_k8s d) (dep_config d) (st_Upstreams c) lb svcs"
  show "distinct (map fst ?desired)"
    by (rule desiredState_distinct)
  show "map_of ?desired up = map_option (fallback_step (dep_config d) (st_Upstreams c) lb up)
      (desired_entry (dep_k8s d) (dep_config d) (st_Upstreams c) lb svcs up)" for up
    by (simp add: desiredState_lookup reconcile_entry_def)
  show "case (syncSingleLoadBalancer d lb a c, lba_SyncAllUpstreams a ?desired (world c)) of
       ((res, c'), (err, w)) \<Rightarrow> world c' = w \<and> (res = None \<longleftrightarrow> err = None)"
    using syncSingleLoadBalancer_synced(1,2) [OF assms _ refl refl, of lb a c]
    by (auto split: prod.split)
qed

text \<open>
  C16: no reconciliation empties an upstream by surprise: every upstream of the desired state is
  marked as preserved, has backends, or may be empty by the configuration of its load balancer.
\<close>

theorem desiredState_never_empties:
  "list_all (\<lambda>(up, u). up_PreserveExistingBackends u \<or> up_Backends u \<noteq> [] \<or>
     allow_empty cfg (getLoadBalancerConfig cfg lb)) (desiredState k cfg upstreams lb svcs)"
  using fallback_step_cases by (fastforce simp: desiredState_def list_all_iff)

text \<open>
  C20: the two paths agree. Over well-behaved listers, for a listed service with both labels and
  a node port: either some service of its upstream fails, and then the event path only reports
  an error and the reconciliation preserves the upstream; or the event path pushes exactly the
  upstream of the reconciliation's desired state, or leaves the load balancer alone where the
  reconciliation preserves the upstream.
\<close>

theorem event_and_periodic_paths_agree:
  assumes "listers_ok L" and "dep_k8s d = adapter_port L"
    and "ListServices L = Inr svcs" and "svc \<in> set svcs"
    and "lb_label svc = lb" and "upstream_label svc = up"
    and "lb \<noteq> ''''" and "up \<noteq> ''''" and "svc_NodePort svc \<noteq> 0"
  shows "\<exists>u. map_of (desiredState (dep_k8s d) (dep_config d) (st_Upstreams c) lb svcs) up = Some u \<and>
    (if up_PreserveExistingBackends u
     then world (snd (syncUpstreamsForService d svc c)) = world c
     else syncUpstreamsForService d svc c = push_upstream d u c)"
proof -
  let ?k = "dep_k8s d" and ?cfg = "dep_config d"
  let ?u = "desired_upstream ?k ?cfg lb up svcs"
  have svcs: "k8s_ListServices (adapter_port L) = Inr svcs"
    using assms(3) by simp
  note spec = adapter.sync_pushes_desired [OF assms(1,2) refl svcs assms(4) _ _ assms(9),
      unfolded assms(5,6), OF assms(7,8), of c, folded assms(2)]
  show ?thesis
  proof (cases "list_ex (svc_fails ?k ?cfg) (filter (targets lb up) svcs)")
    case True
    with spec have "sync_failed svc c (syncUpstreamsForService d svc c)" by simp
    then have "world (snd (syncUpstreamsForService d svc c)) = world c"
      by (auto simp: sync_failed_def)
    moreover have "desired_entry ?k ?cfg (st_Upstreams c) lb svcs up = Some (preserveUp (st_Upstreams c) lb up)"
      using True assms(8) by (simp add: desired_entry_def Let_def)
    ultimately show ?thesis
      by (simp add: desiredState_lookup reconcile_entry_def fallback_step_def preserveUp_def)
  next
    case False
    have mine: "svc \<in> set (filter (targets lb up) svcs)"
      using assms(4,5,6) by (simp add: targets_def)
    then have "\<not> svc_fails ?k ?cfg svc"
      using False by (auto simp: list_ex_iff)
    then have "svc_upstream ?k ?cfg svc \<noteq> Inr None"
      using assms(5-9)
      by (auto simp: svc_upstream_def svc_fails_def buildUpstream_def Let_def split: sum.splits)
    then have "desired_entry ?k ?cfg (st_Upstreams c) lb svcs up = Some ?u"
      using False mine assms(8) by (auto simp: desired_entry_def Let_def list_all_iff list_ex_iff)
    moreover have "syncUpstreamsForService d svc c = push_desired d ?u c"
      using spec False by simp
    ultimately show ?thesis
      using fallback_step_event [where u = ?u and cfg = ?cfg and lb = lb and upstreams = "st_Upstreams c" and n = up]
      by (auto simp: desiredState_lookup reconcile_entry_def push_desired_def
          dest: fill_empty_upstream_Some(3) split: option.splits)
  qed
qed

text \<open>
  After a reconciliation the stored upstreams of the load balancer are those of the desired
  state: a preserved one is left as it was stored, any other is stored, and those that no service
  asks for any more are removed. The stored upstreams of the other load balancers stay.
\<close>

lemma syncSingleLoadBalancer_stores:
  assumes "k8s_HasSynced (dep_k8s d)" and "k8s_ListServices (dep_k8s d) = Inr svcs"
    and "CHR ''/'' \<notin> set lb"
  shows "map_of (st_Upstreams (snd (syncSingleLoadBalancer d lb a c))) (slash_key lb up) =
      (case map_of (desiredState (dep_k8s d) (dep_config d) (st_Upstreams c) lb svcs) up of
         Some u \<Rightarrow> if up_PreserveExistingBackends u then map_of (st_Upstreams c) (slash_key lb up) else Some u
       | None \<Rightarrow> None) \<and>
    (\<forall>other. CHR ''/'' \<notin> set other \<and> other \<noteq> lb \<longrightarrow>
      map_of (st_Upstreams (snd (syncSingleLoadBalancer d lb a c))) (slash_key other up) =
        map_of (st_Upstreams c) (slash_key other up))"
proof -
  let ?desired = "desiredState (dep_k8s d) (dep_config d) (st_Upstreams c) lb svcs"
  obtain r c' where run: "syncSingleLoadBalancer d lb a c = (r, c')" by fastforce
  have "st_Upstreams c' = st_Upstreams (update_upstreams lb ?desired c)"
    using syncSingleLoadBalancer_synced(3) [OF assms(1,2) run refl refl]
      update_upstreams_same [of "refresh_services lb svcs c" c lb ?desired] by simp
  moreover note update_upstreams_lookup [OF desiredState_distinct, of lb
      "dep_k8s d" "dep_config d" "st_Upstreams c" lb svcs c up]
  ultimately show ?thesis
    using assms(3) run by (auto simp: update_upstreams_other)
qed

text \<open>
  C33: the reconciliation is fail-static. While the caches are not synced or the services cannot
  be listed, nothing is touched at all; and a service whose pods or nodes cannot be resolved
  makes its upstream a preserved one, with the backends that were last stored for it.
\<close>

theorem syncSingleLoadBalancer_fail_static:
  "(\<not> k8s_HasSynced (dep_k8s d) \<or> (\<exists>e. k8s_ListServices (dep_k8s d) = Inl e) \<longrightarrow>
      snd (syncSingleLoadBalancer d lb a c) = c) \<and>
   (\<forall>s \<in> set svcs. svc_fails k cfg s \<and> lb_label s = lb \<and> upstream_label s \<noteq> '''' \<longrightarrow>
      (\<exists>u. map_of (desiredState k cfg upstreams lb svcs) (upstream_label s) = Some u \<and>
         up_PreserveExistingBackends u \<and>
         up_Backends u = (case map_of upstreams (slash_key lb (upstream_label s)) of
           Some old \<Rightarrow> up_Backends old | None \<Rightarrow> [])))"
proof (intro conjI impI ballI)
  assume "\<not> k8s_HasSynced (dep_k8s d) \<or> (\<exists>e. k8s_ListServices (dep_k8s d) = Inl e)"
  then show "snd (syncSingleLoadBalancer d lb a c) = c"
    by (auto simp: syncSingleLoadBalancer_def HasSynced_def Let_def)
next
  fix s
  assume s: "s \<in> set svcs" and "svc_fails k cfg s \<and> lb_label s = lb \<and> upstream_label s \<noteq> ''''"
  then have "list_ex (svc_fails k cfg) (filter (targets lb (upstream_label s)) svcs)"
      "upstream_label s \<noteq> ''''"
    by (auto simp: list_ex_iff targets_def)
  then show "\<exists>u. map_of (desiredState k cfg upstreams lb svcs) (upstream_label s) = Some u \<and>
         up_PreserveExistingBackends u \<and>
         up_Backends u = (case map_of upstreams (slash_key lb (upstream_label s)) of
           Some old \<Rightarrow> up_Backends old | None \<Rightarrow> [])"
    by (simp add: desiredState_lookup reconcile_entry_def desired_entry_def fallback_step_def preserveUp_def)
qed

section \<open>Witnesses\<close>

lemma demo_HasSynced: "k8s_HasSynced (dep_k8s (demo_deps names))"
  by (simp add: adapter_port_def adapter_HasSynced_def demo_listers_def cluster_listers_def)

lemma demo_list: "k8s_ListServices (dep_k8s (demo_deps names)) = Inr (map (\<lambda>n. mapService (demo_service n)) names)"
  by (simp add: demo_ListServices)

lemma demo_config_lb: "getLoadBalancerType demo_config lb = ''''" "getLoadBalancerConfig demo_config lb = None"
  by (simp_all add: getLoadBalancerType_def getLoadBalancerConfig_def demo_config_def)

lemma demo_desired_entry:
  "desired_entry (adapter_port (demo_listers [''web''])) demo_config [] ''lb1''
     [mapService (demo_service ''web'')] ''web'' =
   Some \<lparr>up_Name = ''web'', up_LoadBalancer = ''lb1'',
       up_Backends = [\<lparr>be_IP = ''10.0.0.1'', be_Port = 30080, be_Weight = 1\<rparr>],
       up_Type = '''', up_Config = None, up_PreserveExistingBackends = False\<rparr>"
  by (simp add: desired_entry_def Let_def targets_def demo_not_fails demo_svc_upstream desired_upstream_def
      desired_backends_def svc_backends_def demo_config_lb)
     (simp add: merged_def address_of_def backend_at_def weight_of_def)

theorem syncSingleLoadBalancer_desired_witness:
  "\<exists>desired. map_of desired ''web'' =
      Some \<lparr>up_Name = ''web'', up_LoadBalancer = ''lb1'',
        up_Backends = [\<lparr>be_IP = ''10.0.0.1'', be_Port = 30080, be_Weight = 1\<rparr>],
        up_Type = '''', up_Config = None, up_PreserveExistingBackends = False\<rparr> \<and>
    world (snd (syncSingleLoadBalancer (demo_deps [''web'']) ''lb1'' recording_adapter (NewController []))) =
      map snd desired"
proof -
  have st: "st_Upstreams (NewController []) = []" "world (NewController []) = []"
    by (simp_all add: NewController_def)
  have rec: "lba_SyncAllUpstreams recording_adapter m w = (None, w @ map snd m)" for m w
    by (simp add: recording_adapter_def)
  obtain r c' where run: "syncSingleLoadBalancer (demo_deps [''web'']) ''lb1'' recording_adapter
      (NewController []) = (r, c')" by fastforce
  from syncSingleLoadBalancer_desired [OF demo_HasSynced demo_list [of "[''web'']"], of "NewController []" "''lb1''"
      recording_adapter, unfolded st rec run]
  obtain desired where "map_of desired ''web'' = map_option (fallback_step demo_config [] ''lb1'' ''web'')
        (desired_entry (adapter_port (demo_listers [''web''])) demo_config [] ''lb1''
          [mapService (demo_service ''web'')] ''web'')" and "world c' = map snd desired"
    by auto
  with run show ?thesis
    by (intro exI [of _ desired]) (simp add: demo_desired_entry fallback_step_def)
qed

theorem event_and_periodic_paths_agree_witness:
  "let d = demo_deps [''web'']; svc = mapService (demo_service ''web'') in
   \<exists>u. map_of (desiredState (dep_k8s d) (dep_config d) [] ''lb1'' [svc]) ''web'' = Some u \<and>
     syncUpstreamsForService d svc (NewController []) = push_upstream d u (NewController [])"
proof -
  have st: "st_Upstreams (NewController []) = []"
    by (simp add: NewController_def)
  have "listers_ok (demo_listers [''web''])"
    by (rule demo_listers_ok) simp_all
  from event_and_periodic_paths_agree [OF this, of "demo_deps [''web'']"
      "[mapService (demo_service ''web'')]" "mapService (demo_service ''web'')" "''lb1''" "''web''" "NewController []"]
  show ?thesis
    by (auto simp: Let_def st demo_ListServices desiredState_lookup reconcile_entry_def
        demo_desired_entry fallback_step_def)
qed

lemma syncSingleLoadBalancer_stores_witness:
  "map_of (st_Upstreams (snd (syncSingleLoadBalancer (demo_deps [''web'']) ''lb1'' recording_adapter
      (NewController [])))) (slash_key ''lb1'' ''web'') =
     Some \<lparr>up_Name = ''web'', up_LoadBalancer = ''lb1'',
       up_Backends = [\<lparr>be_IP = ''10.0.0.1'', be_Port = 30080, be_Weight = 1\<rparr>],
       up_Type = '''', up_Config = None, up_PreserveExistingBackends = False\<rparr>"
proof -
  have st: "st_Upstreams (NewController []) = []"
    by (simp add: NewController_def)
  from syncSingleLoadBalancer_stores [OF demo_HasSynced demo_list [of "[''web'']"], of "''lb1''"
      recording_adapter "NewController []" "''web''"]
  show ?thesis
    by (simp add: st desiredState_lookup reconcile_entry_def demo_desired_entry fallback_step_def)
qed

text \<open>A port whose pods cannot be listed, and one whose caches are not synced.\<close>

theorem syncSingleLoadBalancer_fail_static_witness:
  "\<exists>u. map_of (desiredState
        ((adapter_port (demo_listers [''web'']))\<lparr>k8s_GetPodsForSelector := (\<lambda>_ _. Inl (Errorf ''down''))\<rparr>)
        demo_config [] ''lb1'' [mapService (demo_service ''web'')]) ''web'' = Some u \<and>
     up_PreserveExistingBackends u \<and> up_Backends u = []"
proof -
  let ?s = "mapService (demo_service ''web'')"
  let ?k = "(adapter_port (demo_listers [''web'']))\<lparr>k8s_GetPodsForSelector := (\<lambda>_ _. Inl (Errorf ''down''))\<rparr>"
  have labels: "lb_label ?s = ''lb1''" "upstream_label ?s = ''web''"
    by (simp_all add: demo_defs)
  moreover have "svc_fails ?k demo_config ?s"
    by (simp add: svc_fails_def svc_upstream_def)
  ultimately show ?thesis
    using conjunct2 [OF syncSingleLoadBalancer_fail_static, of "[?s]" ?k demo_config "''lb1''" "[]"] by simp
qed

theorem desiredState_never_empties_witness:
  "\<exists>u. (''web'', u) \<in> set (desiredState (dep_k8s (demo_deps [''web''])) demo_config [] ''lb1''
        [mapService (demo_service ''web'')]) \<and>
     (up_PreserveExistingBackends u \<or> up_Backends u \<noteq> [])"
proof -
  let ?d = "desiredState (dep_k8s (demo_deps [''web''])) demo_config [] ''lb1'' [mapService (demo_service ''web'')]"
  have "map_of ?d ''web'' \<noteq> None"
    by (simp add: desiredState_lookup reconcile_entry_def demo_desired_entry)
  then obtain u where u: "(''web'', u) \<in> set ?d"
    by (auto dest: map_of_SomeD)
  have "\<not> allow_empty demo_config (getLoadBalancerConfig demo_config ''lb1'')"
    by (simp add: demo_config_lb allow_empty_def) (simp add: demo_config_def)
  with u desiredState_never_empties [of demo_config "''lb1''" "dep_k8s (demo_deps [''web''])" "[]"
      "[mapService (demo_service ''web'')]"]
  show ?thesis
    by (auto simp: list_all_iff)
qed

end
