(* ===== verification/System.thy ===== *)
theory System
  imports ReconcileProps
begin

text \<open>
  The controller as a transition system: the goroutines of \<open>Start\<close> interleave handling events,
  working off items and reconciling, each seeing the informer caches as they are at that moment.
  The state invariant holds in every reachable state. The state lock makes each update atomic;
  a handler is taken as one step.
\<close>

section \<open>Steps\<close>

inductive ctrl_step :: "config \<Rightarrow> 'w ctrl \<Rightarrow> 'w ctrl \<Rightarrow> bool" for cfg where
  service_event: "ctrl_step cfg c (handleServiceEvent se c)"
| pod_event: "ctrl_step cfg c (handlePodEvent pe c)"
| node_event: "ctrl_step cfg c (handleNodeEvent ne c)"
| work_item: "listers_ok L \<Longrightarrow> dep_k8s d = adapter_port L \<Longrightarrow> dep_config d = cfg \<Longrightarrow>
    ctrl_step cfg c (snd (processNextItem d item c))"
| reconcile: "listers_ok L \<Longrightarrow> dep_k8s d = adapter_port L \<Longrightarrow> dep_config d = cfg \<Longrightarrow> lb \<noteq> '''' \<Longrightarrow>
    ctrl_step cfg c (snd (syncSingleLoadBalancer d lb a c))"

inductive_cases ctrl_stepE: "ctrl_step cfg c c'"

inductive reachable :: "config \<Rightarrow> 'w ctrl \<Rightarrow> bool" for cfg where
  start: "reachable cfg (NewController w)"
| step: "reachable cfg c \<Longrightarrow> ctrl_step cfg c c' \<Longrightarrow> reachable cfg c'"

section \<open>The invariant of the keys\<close>

lemma refresh_services_ok:
  assumes "ctrl_ok c"
  shows "ctrl_ok (refresh_services lb svcs c)"
proof -
  have "ctrl_ok (foldl (refresh_service lb) c svcs)"
    by (rule foldl_invariant [where I = ctrl_ok])
      (use assms in \<open>auto simp: refresh_service_def ctrl_ok_def Let_def\<close>)
  then show ?thesis
    by (auto simp: refresh_services_def Let_def ctrl_ok_def)
qed

lemma update_upstreams_ok:
  assumes "ctrl_ok c"
    and "\<And>up u. (up, u) \<in> set desired \<Longrightarrow> \<not> up_PreserveExistingBackends u \<Longrightarrow> upstream_ok (slash_key lb up) u"
  shows "ctrl_ok (update_upstreams lb desired c)"
proof -
  have "ctrl_ok (foldl (remove_upstream lb desired) c (st_Upstreams c))"
    by (rule foldl_invariant [where I = ctrl_ok])
      (use assms(1) in \<open>auto simp: remove_upstream_def ctrl_ok_def Let_def\<close>)
  then show ?thesis
    unfolding update_upstreams_def
    by (rule foldl_invariant [where I = ctrl_ok])
      (use assms(2) in \<open>force simp: store_upstream_def ctrl_ok_def\<close>)
qed

lemma syncSingleLoadBalancer_idle:
  assumes "\<not> (k8s_HasSynced (dep_k8s d) \<and> (\<exists>svcs. k8s_ListServices (dep_k8s d) = Inr svcs))"
  shows "snd (syncSingleLoadBalancer d lb a c) = c"
  using assms
  by (cases "k8s_ListServices (dep_k8s d)") (auto simp: syncSingleLoadBalancer_def HasSynced_def Let_def)

lemma syncSingleLoadBalancer_ok:
  assumes "ctrl_ok c" and "lb \<noteq> ''''"
  shows "ctrl_ok (snd (syncSingleLoadBalancer d lb a c))"
proof (cases "k8s_HasSynced (dep_k8s d) \<and> (\<exists>svcs. k8s_ListServices (dep_k8s d) = Inr svcs)")
  case True
  then obtain svcs where svcs: "k8s_HasSynced (dep_k8s d)" "k8s_ListServices (dep_k8s d) = Inr svcs"
    by blast
  obtain r c' where run: "syncSingleLoadBalancer d lb a c = (r, c')" by fastforce
  let ?desired = "desiredState (dep_k8s d) (dep_config d) (st_Upstreams c) lb svcs"
  let ?c1 = "update_upstreams lb ?desired (refresh_services lb svcs c)"
  have "ctrl_ok ?c1"
  proof (rule update_upstreams_ok [OF refresh_services_ok [OF assms(1)]])
    fix up u
    assume "(up, u) \<in> set ?desired" "\<not> up_PreserveExistingBackends u"
    then show "upstream_ok (slash_key lb up) u"
      using desiredState_distinct assms(2)
      by (intro reconcile_entry_ok) (auto simp: desiredState_lookup [symmetric])
  qed
  with syncSingleLoadBalancer_synced(3-7) [OF svcs run refl refl] run show ?thesis
    by (simp add: ctrl_ok_def)
qed (use assms in \<open>simp add: syncSingleLoadBalancer_idle\<close>)

section \<open>The invariant of the stored upstreams\<close>

text \<open>A stored upstream has backends, unless its load balancer may have empty upstreams.\<close>

definition stored_nonempty :: "config \<Rightarrow> 'w ctrl \<Rightarrow> bool" where
  "stored_nonempty cfg c \<longleftrightarrow>
     list_all (\<lambda>(k, u). up_Backends u \<noteq> [] \<or>
       allow_empty cfg (getLoadBalancerConfig cfg (up_LoadBalancer u))) (st_Upstreams c)"

lemma stored_nonempty_frame:
  "st_Upstreams c' = st_Upstreams c \<Longrightarrow> stored_nonempty cfg c' = stored_nonempty cfg c"
  by (simp add: stored_nonempty_def)

lemma stored_nonempty_update:
  assumes "stored_nonempty cfg c"
    and "up_Backends u \<noteq> [] \<or> allow_empty cfg (getLoadBalancerConfig cfg (up_LoadBalancer u))"
    and "st_Upstreams c' = AList.update k u (st_Upstreams c)"
  shows "stored_nonempty cfg c'"
  using assms set_update_subset [of k u "st_Upstreams c"]
  by (auto simp: stored_nonempty_def list_all_iff)

lemma stored_nonempty_delete:
  assumes "stored_nonempty cfg c" and "st_Upstreams c' = AList.delete k (st_Upstreams c)"
  shows "stored_nonempty cfg c'"
  using assms set_delete_subset [of k "st_Upstreams c"]
  by (auto simp: stored_nonempty_def list_all_iff)

lemma push_upstream_Upstreams:
  "st_Upstreams (snd (push_upstream d u c)) =
     AList.update (slash_key (up_LoadBalancer u) (up_Name u)) u (st_Upstreams c)"
  unfolding push_upstream_def syncLoadBalancerUpstream_def Let_def
  by (auto split: option.split prod.split)

lemma syncUpstreamsForService_nonempty:
  assumes "stored_nonempty (dep_config d) c"
  shows "stored_nonempty (dep_config d) (snd (syncUpstreamsForService d svc c))"
proof (cases rule: syncUpstreamsForService_cases [of svc d c])
  case failed
  with assms show ?thesis by (auto simp: sync_failed_def stored_nonempty_def)
next
  case (built u svcs)
  let ?cfg = "dep_config d"
  have "stored_nonempty ?cfg (snd (push_desired d v c))" for v
  proof (cases "fill_empty_upstream ?cfg (getLoadBalancerConfig ?cfg (up_LoadBalancer v)) v")
    case None
    with assms show ?thesis by (simp add: push_desired_def)
  next
    case (Some w)
    with fill_empty_upstream_nonempty [OF Some] fill_empty_upstream_Some(2) [OF Some]
    show ?thesis
      by (auto simp: push_desired_def intro: stored_nonempty_update [OF assms _ push_upstream_Upstreams])
  qed
  with built show ?thesis by simp
qed (use assms in simp_all)

lemma handleServiceDeletion_nonempty:
  assumes "stored_nonempty (dep_config d) c"
  shows "stored_nonempty (dep_config d) (snd (handleServiceDeletion d key svc c))"
proof -
  have "stored_nonempty (dep_config d) c'"
    if "st_Upstreams c' = AList.delete k (st_Upstreams c)" for c' :: "'a ctrl" and k
    by (rule stored_nonempty_delete [OF assms that])
  then show ?thesis
    using assms syncUpstreamsForService_nonempty [OF assms]
    unfolding handleServiceDeletion_def syncLoadBalancerUpstream_def Let_def
    by (auto split: sum.split option.split prod.split)
qed

lemma processNextItem_Upstreams:
  "\<exists>c1. st_Upstreams (snd (processNextItem d item c)) = st_Upstreams c1 \<and>
     (c1 = c \<or> (\<exists>key. c1 = snd (syncHandler d key c)))"
  unfolding processNextItem_def
  by (auto split: option.split queue_obj.split prod.split) (metis snd_conv)+

lemma syncHandler_nonempty:
  assumes "stored_nonempty (dep_config d) c"
  shows "stored_nonempty (dep_config d) (snd (syncHandler d key c))"
proof (cases rule: syncHandler_cases [of d key c])
  case (delete_failed lastSvc e c1)
  with handleServiceDeletion_nonempty [OF assms, of key lastSvc] show ?thesis by simp
next
  case (deleted lastSvc c1)
  with handleServiceDeletion_nonempty [OF assms, of key lastSvc] show ?thesis
    by (simp add: stored_nonempty_def forget_service_def)
next
  case (same ns n svc)
  have "stored_nonempty (dep_config d) (record_service key svc c)"
    using assms by (simp add: stored_nonempty_def record_service_def)
  with same show ?thesis by (simp add: syncUpstreamsForService_nonempty)
next
  case (moved ns n svc lastSvc c1)
  then have "stored_nonempty (dep_config d) (record_service key svc c1)"
    using handleServiceDeletion_nonempty [OF assms, of key lastSvc]
    by (simp add: stored_nonempty_def record_service_def)
  with moved show ?thesis by (simp add: syncUpstreamsForService_nonempty)
qed (use assms in simp_all)

lemma update_upstreams_nonempty:
  assumes "stored_nonempty cfg c"
    and "\<And>up u. (up, u) \<in> set desired \<Longrightarrow> \<not> up_PreserveExistingBackends u \<Longrightarrow>
      up_Backends u \<noteq> [] \<or> allow_empty cfg (getLoadBalancerConfig cfg (up_LoadBalancer u))"
  shows "stored_nonempty cfg (update_upstreams lb desired c)"
proof -
  have "stored_nonempty cfg (foldl (remove_upstream lb desired) c (st_Upstreams c))"
  proof (rule foldl_invariant [where I = "stored_nonempty cfg"])
    show "stored_nonempty cfg (remove_upstream lb desired c e)" if "stored_nonempty cfg c" for c e
      using that by (auto simp: remove_upstream_def Let_def intro: stored_nonempty_delete [OF that])
  qed (rule assms(1))
  then show ?thesis
    unfolding update_upstreams_def
  proof (rule foldl_invariant [where I = "stored_nonempty cfg"])
    show "stored_nonempty cfg (store_upstream lb c e)" if "e \<in> set desired" "stored_nonempty cfg c" for c e
    proof (cases e)
      case (Pair up u)
      with that(1) assms(2) [of up u] show ?thesis
        by (auto simp: store_upstream_def that(2) intro: stored_nonempty_update [OF that(2)])
    qed
  qed
qed

lemma syncSingleLoadBalancer_nonempty:
  assumes "stored_nonempty (dep_config d) c"
  shows "stored_nonempty (dep_config d) (snd (syncSingleLoadBalancer d lb a c))"
proof (cases "k8s_HasSynced (dep_k8s d) \<and> (\<exists>svcs. k8s_ListServices (dep_k8s d) = Inr svcs)")
  case True
  then obtain svcs where svcs: "k8s_HasSynced (dep_k8s d)" "k8s_ListServices (dep_k8s d) = Inr svcs"
    by blast
  obtain r c' where run: "syncSingleLoadBalancer d lb a c = (r, c')" by fastforce
  let ?cfg = "dep_config d"
  let ?desired = "desiredState (dep_k8s d) ?cfg (st_Upstreams c) lb svcs"
  have "stored_nonempty ?cfg (update_upstreams lb ?desired (refresh_services lb svcs c))"
  proof (rule update_upstreams_nonempty)
    show "stored_nonempty ?cfg (refresh_services lb svcs c)"
      using assms by (simp add: stored_nonempty_def)
    fix up u
    assume mem: "(up, u) \<in> set ?desired" and "\<not> up_PreserveExistingBackends u"
    have "map_of ?desired up = Some u"
      using mem desiredState_distinct by simp
    then obtain v where "desired_entry (dep_k8s d) ?cfg (st_Upstreams c) lb svcs up = Some v"
        "u = fallback_step ?cfg (st_Upstreams c) lb up v"
      by (auto simp: desiredState_lookup reconcile_entry_def)
    with fallback_step_cases [of ?cfg "st_Upstreams c" lb up v] \<open>\<not> up_PreserveExistingBackends u\<close>
    show "up_Backends u \<noteq> [] \<or> allow_empty ?cfg (getLoadBalancerConfig ?cfg (up_LoadBalancer u))"
      by (auto simp: desired_entry_names(2))
  qed
  with syncSingleLoadBalancer_synced(3) [OF svcs run refl refl] run show ?thesis
    by (simp add: stored_nonempty_def)
qed (use assms in \<open>simp add: syncSingleLoadBalancer_idle\<close>)

section \<open>Properties\<close>

lemma handle_events_Upstreams [simp]:
  "st_Upstreams (handleServiceEvent se c) = st_Upstreams c"
  "st_Upstreams (handlePodEvent pe c) = st_Upstreams c"
  "st_Upstreams (handleNodeEvent ne c) = st_Upstreams c"
  by (auto simp: handleServiceEvent_def handlePodEvent_def handleNodeEvent_def Let_def
      split: event_type.split option.split)

lemma ctrl_step_ok:
  assumes "ctrl_step cfg c c'" and "ctrl_ok c" and "stored_nonempty cfg c"
  shows "ctrl_ok c' \<and> stored_nonempty cfg c'"
  using assms(1)
proof (cases rule: ctrl_step.cases)
  case (service_event se)
  with assms show ?thesis by (simp add: handleServiceEvent_ok stored_nonempty_def)
next
  case (pod_event pe)
  with assms show ?thesis by (simp add: handlePodEvent_ok stored_nonempty_def)
next
  case (node_event ne)
  with assms show ?thesis by (simp add: handleNodeEvent_ok stored_nonempty_def)
next
  case (work_item L d item)
  obtain c1 where c1: "st_Upstreams (snd (processNextItem d item c)) = st_Upstreams c1"
      "c1 = c \<or> (\<exists>key. c1 = snd (syncHandler d key c))"
    using processNextItem_Upstreams by blast
  have "stored_nonempty cfg c1"
    using c1(2) assms(3) work_item syncHandler_nonempty by metis
  then have "stored_nonempty cfg c'"
    using c1(1) work_item by (simp add: stored_nonempty_def)
  with work_item assms(2) adapter.processNextItem_ok show ?thesis by blast
next
  case (reconcile L d lb a)
  with assms show ?thesis
    using syncSingleLoadBalancer_ok syncSingleLoadBalancer_nonempty by metis
qed

text \<open>
  C24: in every state the controller can reach from \<open>NewController\<close>, however events, work items
  and reconciliations interleave: each map has distinct keys, and each entry is stored under its
  own key; every stored upstream belongs to a named load balancer, is not a preserved one, has
  its backends merged (sorted, one per address), and has backends at all unless its load
  balancer may have empty upstreams.
\<close>

theorem reachable_invariant:
  assumes "reachable cfg c"
  shows "ctrl_ok c \<and> stored_nonempty cfg c"
  using assms
proof induction
  case (start w)
  then show ?case
    using ctrl_ok_NewController [of w] by (simp add: stored_nonempty_def NewController_def)
next
  case (step c c')
  then show ?case using ctrl_step_ok [of cfg c c'] by simp
qed

lemma demo_reachable:
  "reachable demo_config
     (snd (syncSingleLoadBalancer (demo_deps [''web'']) ''lb1'' recording_adapter (NewController [])))"
proof (rule reachable.step [OF reachable.start ctrl_step.reconcile])
  show "listers_ok (demo_listers [''web''])"
    by (rule demo_listers_ok) simp_all
qed simp_all

theorem reachable_invariant_witness:
  "ctrl_ok (snd (syncSingleLoadBalancer (demo_deps [''web'']) ''lb1'' recording_adapter (NewController [])))"
  using reachable_invariant [OF demo_reachable] by blast

end
