(* ===== verification/Loops.thy ===== *)
theory Loops
  imports System
begin

text \<open>
  The goroutines of the controller as loops over what they receive: \<open>processEvents\<close>, \<open>runWorker\<close>,
  the ticker goroutines of \<open>runPeriodicSync\<close>, and \<open>stop\<close>. A loop takes the list of what its \<open>select\<close>
  or its queue delivers; it ends with the list or with the message that makes it return. Each of
  them only takes steps of the transition system, so the invariant holds while they run.
\<close>

section \<open>The loops\<close>

datatype received = ReceivedService service_event | ReceivedPod pod_event | ReceivedNode node_event | ReceivedDone

fun processEvents :: "received list \<Rightarrow> 'w ctrl \<Rightarrow> 'w ctrl" where
  "processEvents [] c = c"
| "processEvents (ReceivedDone # es) c = c"
| "processEvents (ReceivedService svcEvent # es) c = processEvents es (handleServiceEvent svcEvent c)"
| "processEvents (ReceivedPod podEvent # es) c = processEvents es (handlePodEvent podEvent c)"
| "processEvents (ReceivedNode nodeEvent # es) c = processEvents es (handleNodeEvent nodeEvent c)"

text \<open>A worker: each item with the caches at its time, until the queue is shut down.\<close>

fun runWorker :: "('w deps \<times> queue_obj option) list \<Rightarrow> 'w ctrl \<Rightarrow> 'w ctrl" where
  "runWorker [] c = c"
| "runWorker ((d, item) # items) c =
     (case processNextItem d item c of
        (True, c) \<Rightarrow> runWorker items c
      | (False, c) \<Rightarrow> c)"

text \<open>A ticker goroutine of one load balancer, with the caches at each tick.\<close>

fun ticker_loop ::
  "string \<Rightarrow> 'w adapter \<Rightarrow> ('w deps \<times> select_case) list \<Rightarrow> 'w ctrl \<Rightarrow> 'w ctrl" where
  "ticker_loop name ad [] c = c"
| "ticker_loop name ad ((d, sel) # sels) c =
     (case periodic_round d (Some (name, ad)) sel c of
        Some c \<Rightarrow> ticker_loop name ad sels c
      | None \<Rightarrow> c)"

text \<open>The channel \<open>syncStop\<close> is closed at most once; the queue is shut down.\<close>

record stop_state =
  ss_syncStopClosed :: bool
  ss_queueShutDown :: bool

definition stop :: "stop_state \<Rightarrow> stop_state" where
  "stop s =
     (let s = (if ss_syncStopClosed s then s else s\<lparr>ss_syncStopClosed := True\<rparr>)
      in s\<lparr>ss_queueShutDown := True\<rparr>)"

section \<open>They stay among the reachable states\<close>

lemma processEvents_reachable: "reachable cfg c \<Longrightarrow> reachable cfg (processEvents es c)"
  by (induction es c rule: processEvents.induct)
    (auto intro: reachable.step ctrl_step.intros)

text \<open>The caches that a goroutine may see.\<close>

definition deps_ok :: "config \<Rightarrow> 'w deps \<Rightarrow> bool" where
  "deps_ok cfg d \<longleftrightarrow> dep_config d = cfg \<and> (\<exists>L. listers_ok L \<and> dep_k8s d = adapter_port L)"

lemma runWorker_reachable:
  "reachable cfg c \<Longrightarrow> list_all (\<lambda>(d, item). deps_ok cfg d) items \<Longrightarrow> reachable cfg (runWorker items c)"
proof (induction items arbitrary: c)
  case (Cons x items)
  obtain d item where x: "x = (d, item)" by fastforce
  with Cons.prems(2) obtain L where "listers_ok L" "dep_k8s d = adapter_port L" "dep_config d = cfg"
    by (auto simp: deps_ok_def)
  then have "reachable cfg (snd (processNextItem d item c))"
    by (intro reachable.step [OF Cons.prems(1)] ctrl_step.work_item)
  with Cons x show ?case
    by (auto split: prod.split bool.split)
qed simp

lemma ticker_loop_reachable:
  "reachable cfg c \<Longrightarrow> name \<noteq> '''' \<Longrightarrow> list_all (\<lambda>(d, sel). deps_ok cfg d) sels \<Longrightarrow>
     reachable cfg (ticker_loop name ad sels c)"
proof (induction sels arbitrary: c)
  case (Cons x sels)
  obtain d sel where x: "x = (d, sel)" by fastforce
  with Cons.prems(3) obtain L where "listers_ok L" "dep_k8s d = adapter_port L" "dep_config d = cfg"
    by (auto simp: deps_ok_def)
  then have "reachable cfg (snd (syncSingleLoadBalancer d name ad c))"
    by (intro reachable.step [OF Cons.prems(1)] ctrl_step.reconcile Cons.prems(2))
  with Cons x show ?case
    by (auto simp: periodic_round_def split: select_case.split)
qed simp

lemma stop_twice: "stop (stop s) = stop s"
  by (simp add: stop_def Let_def)

end
