(* ===== verification/NginxText.thy ===== *)
theory NginxText
  imports BackendMerge GoNet
begin

text \<open>
  The text level of \<open>internal/adapters/loadbalancer/nginx/nginx.go\<close>: how addresses are cleaned,
  compared, keyed and written, how the answer of the list API is parsed, and how the paths of
  the add and remove APIs are built. \<open>net/url\<close> is modelled in theory GoUrl.
\<close>

section \<open>Addresses\<close>

definition cleanIP :: "string \<Rightarrow> string" where
  "cleanIP ip = Trim (TrimSpace ip) ''[]''"

definition sameBackend :: "backend \<Rightarrow> backend \<Rightarrow> bool" where
  "sameBackend b1 b2 \<longleftrightarrow> cleanIP (be_IP b1) = cleanIP (be_IP b2) \<and> be_Port b1 = be_Port b2"

definition backendKey :: "backend \<Rightarrow> string" where
  "backendKey b = cleanIP (be_IP b) @ CHR '':'' # int_dec (sint (be_Port b))"

definition formatServerAddr :: "string \<Rightarrow> 32 word \<Rightarrow> string" where
  "formatServerAddr ip port =
     (let cIP = cleanIP ip in
      if ContainsByte cIP CHR '':'' then ''['' @ cIP @ '']:'' @ int_dec (sint port)
      else cIP @ CHR '':'' # int_dec (sint port))"

text \<open>The keys of the maps tell backends apart exactly as \<open>sameBackend\<close> does.\<close>

lemma backendKey_same: "backendKey a = backendKey b \<longleftrightarrow> sameBackend a b"
  by (auto simp: backendKey_def sameBackend_def append_sep_inject dest: sint_inject32)

lemma sameBackend_sym: "sameBackend a b \<Longrightarrow> sameBackend b a"
  by (simp add: sameBackend_def)

section \<open>The list API\<close>

definition newline :: char where "newline = CHR 0x0A"

text \<open>The weight of a \<open>server\<close> line: the first \<open>weight=\<close> field decides.\<close>

definition parse_weight :: "string list \<Rightarrow> 64 word" where
  "parse_weight fs =
     (case find (\<lambda>f. HasPrefix f ''weight='') fs of
        Some f \<Rightarrow>
          (case Atoi (TrimPrefix f ''weight='') of
             Some w \<Rightarrow> if w > 0 then word_of_int w else 1
           | None \<Rightarrow> 1)
      | None \<Rightarrow> 1)"

text \<open>A line that starts with \<open>server\<close>: the backend, or \<open>None\<close> where the loop continues.\<close>

definition parse_server :: "string \<Rightarrow> backend option" where
  "parse_server line =
     (let line = TrimPrefix line ''server '';
          line = TrimSpace line;
          line = TrimSuffix line '';'';
          fs = Fields line
      in case fs of
           [] \<Rightarrow> None
         | hostPort # rest \<Rightarrow>
             (case SplitHostPort hostPort of
                None \<Rightarrow> None
              | Some (host, portStr) \<Rightarrow>
                  (case Atoi portStr of
                     None \<Rightarrow> None
                   | Some port \<Rightarrow>
                       Some \<lparr>be_IP =
                           (if ContainsByte host CHR '':'' \<and> HasPrefix hostPort ''['' then ''['' @ host @ '']''
                            else host),
                         be_Port = to_int32 port,
                         be_Weight = parse_weight rest\<rparr>)))"

text \<open>A header line: the name of the upstream that follows.\<close>

definition parse_header :: "string \<Rightarrow> string" where
  "parse_header line =
     (let trimmed = TrimSuffix line '':'';
          trimmed = TrimPrefix trimmed ''upstream '';
          trimmed = TrimSuffix trimmed ''{''
      in TrimSpace trimmed)"

definition is_header :: "string \<Rightarrow> bool" where
  "is_header line \<longleftrightarrow> HasSuffix line '':'' \<or> HasPrefix line ''upstream '' \<or> HasSuffix line ''{''"

type_synonym nginx_upstreams = "(string, backend list) gomap"

text \<open>The body of the loop over the lines: the current upstream and the result.\<close>

definition parse_line :: "string \<times> nginx_upstreams \<Rightarrow> string \<Rightarrow> string \<times> nginx_upstreams" where
  "parse_line st line =
     (let (currentUpstream, result) = st; line = TrimSpace line in
      if line = '''' \<or> HasPrefix line ''#'' \<or> HasPrefix line ''//'' then st
      else if HasPrefix line ''server '' then
        (case parse_server line of
           None \<Rightarrow> st
         | Some backend \<Rightarrow>
             (currentUpstream,
              AList.update currentUpstream (slice_get result currentUpstream @ [backend]) result))
      else if is_header line then (parse_header line, result)
      else st)"

definition parseBulkNginxBackends :: "string \<Rightarrow> nginx_upstreams" where
  "parseBulkNginxBackends response =
     snd (foldl parse_line ('''', []) (Split response newline))"

section \<open>White space in text without exotic characters\<close>

text \<open>Bytes that are neither white space nor part of a code point of several bytes.\<close>

definition plain :: "char \<Rightarrow> bool" where
  "plain c \<longleftrightarrow> 0x20 < (of_char c :: nat) \<and> (of_char c :: nat) < 0x80"

lemma go_spaces_not_plain:
  "list_all (\<lambda>p. p \<noteq> [] \<and> \<not> plain (hd p) \<and> \<not> plain (last p)) go_spaces"
  by (simp add: go_spaces_def plain_def)

lemma plain_no_space:
  assumes "plain c"
  shows "find (\<lambda>p. p \<noteq> [] \<and> HasPrefix (c # s) p) go_spaces = None"
    and "find (\<lambda>p. p \<noteq> [] \<and> HasPrefix (c # s) p) (map rev go_spaces) = None"
proof -
  have "hd p = c" if "p \<noteq> []" "HasPrefix (c # s) p" for p
    using that by (cases p) (auto simp: HasPrefix_def)
  then show "find (\<lambda>p. p \<noteq> [] \<and> HasPrefix (c # s) p) go_spaces = None"
    and "find (\<lambda>p. p \<noteq> [] \<and> HasPrefix (c # s) p) (map rev go_spaces) = None"
    using assms go_spaces_not_plain by (fastforce simp: find_None_iff list_all_iff hd_rev)+
qed

lemma strip_front_plain:
  assumes "plain c"
  shows "strip_front go_spaces (c # s) = c # s" "strip_front (map rev go_spaces) (c # s) = c # s"
  by (subst strip_front.simps, simp add: plain_no_space [OF assms])+

lemma strip_front_space:
  "strip_front go_spaces (CHR '' '' # s) = strip_front go_spaces s"
  "strip_front (map rev go_spaces) (CHR '' '' # s) = strip_front (map rev go_spaces) s"
  by (subst strip_front.simps; simp add: go_spaces_def HasPrefix_def)+

lemma strip_front_Nil [simp]:
  "strip_front go_spaces [] = []" "strip_front (map rev go_spaces) [] = []"
  by (subst strip_front.simps; simp add: go_spaces_def HasPrefix_def)+

lemma TrimSpace_plain:
  assumes "plain c" and "plain d"
  shows "TrimSpace (c # s @ [d]) = c # s @ [d]"
  by (simp add: TrimSpace_def strip_front_plain [OF assms(1)] strip_front_plain [OF assms(2)])

lemma TrimSpace_ends:
  assumes "s \<noteq> []" and "plain (hd s)" and "plain (last s)"
  shows "TrimSpace s = s"
proof (cases s)
  case (Cons c t)
  show ?thesis
  proof (cases t rule: rev_cases)
    case Nil
    with Cons assms show ?thesis by (simp add: TrimSpace_def strip_front_plain)
  next
    case (snoc u d)
    with Cons assms show ?thesis by (simp add: TrimSpace_plain)
  qed
qed (use assms in simp)

lemma TrimSpace_Nil [simp]: "TrimSpace [] = []"
  by (simp add: TrimSpace_def)

lemma fields_from_plain:
  assumes "list_all plain s"
  shows "fields_from cur (s @ t) = fields_from (cur @ s) t"
  using assms
proof (induction s arbitrary: cur)
  case (Cons c s)
  have "fields_from cur ((c # s) @ t) = fields_from (cur @ [c]) (s @ t)"
    using Cons.prems by (subst fields_from.simps) (simp add: plain_no_space)
  with Cons show ?case by simp
qed simp

lemma fields_from_space:
  "fields_from cur (CHR '' '' # s) = (if cur = [] then [] else [cur]) @ fields_from [] s"
  by (subst fields_from.simps) (simp add: go_spaces_def HasPrefix_def)

lemma fields_from_Nil: "fields_from cur [] = (if cur = [] then [] else [cur])"
  by (subst fields_from.simps) simp

lemma Fields_two:
  assumes "list_all plain a" "list_all plain b" "a \<noteq> []" "b \<noteq> []"
  shows "Fields (a @ CHR '' '' # b) = [a, b]"
  using assms fields_from_plain [of b "[]" "[]"]
  by (simp add: Fields_def fields_from_plain fields_from_space fields_from_Nil)

section \<open>Reading what was written\<close>

text \<open>The text of a list of upstreams, one line per upstream and server, as the parser reads it.\<close>

definition render_server :: "backend \<Rightarrow> string" where
  "render_server b =
     ''server '' @ (be_IP b @ CHR '':'' # int_dec (sint (be_Port b))) @ CHR '' '' #
       (''weight='' @ int_dec (sint (be_Weight b))) @ '';''"

definition render_lines :: "string \<times> backend list \<Rightarrow> string list" where
  "render_lines e = (''upstream '' @ fst e @ '' {'') # map render_server (snd e)"

definition render_bulk :: "nginx_upstreams \<Rightarrow> string" where
  "render_bulk ups = concat (map (\<lambda>l. l @ [newline]) (concat (map render_lines ups)))"

text \<open>Names and backends that the format can express: an IPv6 address is in brackets.\<close>

definition name_ok :: "string \<Rightarrow> bool" where
  "name_ok n \<longleftrightarrow> n \<noteq> '''' \<and> list_all plain n"

definition bare_host :: "string \<Rightarrow> bool" where
  "bare_host h \<longleftrightarrow> list_all plain h \<and> CHR ''['' \<notin> set h \<and> CHR '']'' \<notin> set h"

definition backend_ok :: "backend \<Rightarrow> bool" where
  "backend_ok b \<longleftrightarrow> 0 < sint (be_Weight b) \<and>
     (bare_host (be_IP b) \<and> CHR '':'' \<notin> set (be_IP b) \<or>
      (\<exists>h. be_IP b = ''['' @ h @ '']'' \<and> bare_host h \<and> CHR '':'' \<in> set h))"

lemma digit_plain: "is_digit c \<Longrightarrow> plain c"
  by (auto simp: is_digit_def plain_def)

lemma int_dec_plain [simp]: "list_all plain (int_dec i)"
proof -
  have "plain CHR ''-''" by (simp add: plain_def)
  then show ?thesis
    unfolding list_all_iff using int_dec_bytes [of _ i] digit_plain by blast
qed

lemma brackets_not_in_int_dec [simp]:
  "CHR ''['' \<notin> set (int_dec i)" "CHR '']'' \<notin> set (int_dec i)"
  using int_dec_bytes [of _ i] by (fastforce simp: is_digit_def)+

lemma Atoi_int_dec:
  fixes w :: "'a::len word"
  assumes "LENGTH('a) \<le> 64"
  shows "Atoi (int_dec (sint w)) = Some (sint w)"
proof -
  have "- (2 ^ (LENGTH('a) - 1)) \<le> sint w" "sint w < 2 ^ (LENGTH('a) - 1)"
    using sint_greater_eq [of w] sint_less [of w] by simp_all
  moreover have "(2::int) ^ (LENGTH('a) - 1) \<le> 2 ^ 63"
    using assms by (intro power_increasing) simp_all
  ultimately show ?thesis
    unfolding Atoi_def by (intro ParseInt_int_dec) simp_all
qed

lemma SplitHostPort_bare:
  assumes "bare_host h" and "CHR '':'' \<notin> set h"
  shows "SplitHostPort (h @ CHR '':'' # int_dec i) = Some (h, int_dec i)"
proof -
  have "CutLast (h @ CHR '':'' # int_dec i) CHR '':'' = Some (h, int_dec i)"
    by (rule CutLast_append_sep) simp
  moreover have "hd (h @ CHR '':'' # int_dec i) \<noteq> CHR ''[''"
    using assms by (cases h) (auto simp: bare_host_def)
  ultimately show ?thesis
    using assms by (simp add: SplitHostPort_def bare_host_def)
qed

lemma SplitHostPort_bracketed:
  assumes "bare_host h"
  shows "SplitHostPort (CHR ''['' # h @ CHR '']'' # CHR '':'' # int_dec i) = Some (h, int_dec i)"
proof -
  have "CutLast ((CHR ''['' # h @ '']'') @ CHR '':'' # int_dec i) CHR '':'' =
      Some (CHR ''['' # h @ '']'', int_dec i)"
    by (rule CutLast_append_sep) simp
  moreover have "Cut ((CHR ''['' # h) @ CHR '']'' # CHR '':'' # int_dec i) CHR '']'' =
      Some (CHR ''['' # h, CHR '':'' # int_dec i)"
    using assms by (intro Cut_append_sep) (simp add: bare_host_def)
  ultimately show ?thesis
    using assms by (simp add: SplitHostPort_def bare_host_def)
qed

lemma parse_server_render:
  assumes "backend_ok b"
  shows "parse_server (render_server b) = Some b"
proof -
  let ?a = "be_IP b @ CHR '':'' # int_dec (sint (be_Port b))"
  let ?w = "''weight='' @ int_dec (sint (be_Weight b))"
  have ip: "list_all plain (be_IP b)"
    using assms by (auto simp: backend_ok_def bare_host_def plain_def)
  then have a: "list_all plain ?a" "?a \<noteq> []"
    by (simp_all add: plain_def)
  have w: "list_all plain ?w" "?w \<noteq> []"
    by (simp_all add: plain_def)
  have "TrimPrefix (render_server b) ''server '' = ?a @ CHR '' '' # ?w @ '';''"
    unfolding render_server_def by (rule TrimPrefix_append)
  moreover have "TrimSpace (?a @ CHR '' '' # ?w @ '';'') = ?a @ CHR '' '' # ?w @ '';''"
  proof (rule TrimSpace_ends)
    show "plain (hd (?a @ CHR '' '' # ?w @ '';''))"
      using a by (cases ?a) auto
  qed (simp_all add: plain_def)
  moreover have "TrimSuffix ((?a @ CHR '' '' # ?w) @ '';'') '';'' = ?a @ CHR '' '' # ?w"
    by (rule TrimSuffix_append)
  moreover have "Fields (?a @ CHR '' '' # ?w) = [?a, ?w]"
    by (rule Fields_two) (use a w in simp_all)
  moreover have "parse_weight [?w] = be_Weight b"
    using assms by (simp add: parse_weight_def HasPrefix_def TrimPrefix_def Atoi_int_dec backend_ok_def)
  moreover have "\<exists>host. SplitHostPort ?a = Some (host, int_dec (sint (be_Port b))) \<and>
      (if ContainsByte host CHR '':'' \<and> HasPrefix ?a ''['' then ''['' @ host @ '']'' else host) = be_IP b"
    using assms unfolding backend_ok_def
  proof (elim conjE disjE exE)
    assume "bare_host (be_IP b)" "CHR '':'' \<notin> set (be_IP b)"
    then show ?thesis
      by (intro exI [of _ "be_IP b"]) (simp add: SplitHostPort_bare ContainsByte_def)
  next
    fix h
    assume "be_IP b = ''['' @ h @ '']''" "bare_host h" "CHR '':'' \<in> set h"
    then show ?thesis
      by (intro exI [of _ h]) (simp add: SplitHostPort_bracketed ContainsByte_def HasPrefix_def)
  qed
  moreover have "to_int32 (sint (be_Port b)) = be_Port b"
    by (simp add: to_int32_def)
  ultimately show ?thesis
    by (auto simp: parse_server_def Let_def Atoi_int_dec)
qed

lemma parse_line_server:
  assumes "backend_ok b"
  shows "parse_line (n, res) (render_server b) = (n, AList.update n (slice_get res n @ [b]) res)"
proof -
  have "TrimSpace (render_server b) = render_server b"
    by (rule TrimSpace_ends) (simp_all add: render_server_def plain_def)
  moreover have "HasPrefix (render_server b) ''server ''"
    unfolding render_server_def by (rule HasPrefix_append)
  moreover have "render_server b \<noteq> ''''" "\<not> HasPrefix (render_server b) ''#''" "\<not> HasPrefix (render_server b) ''//''"
    by (simp_all add: render_server_def HasPrefix_def)
  ultimately show ?thesis
    by (simp add: parse_line_def parse_server_render [OF assms])
qed

lemma parse_servers:
  assumes "list_all backend_ok bs"
  shows "foldl parse_line (n, res) (map render_server bs) =
    (n, if bs = [] then res else AList.update n (slice_get res n @ bs) res)"
  using assms
proof (induction bs arbitrary: res)
  case (Cons b bs)
  then show ?case
    by (simp add: parse_line_server slice_get_def )
qed simp

lemma parse_line_header:
  assumes "name_ok n"
  shows "parse_line (m, res) (''upstream '' @ n @ '' {'') = (n, res)"
proof -
  let ?l = "''upstream '' @ n @ '' {''"
  have "TrimSpace ?l = ?l"
    by (rule TrimSpace_ends) (simp_all add: plain_def)
  moreover have "\<not> HasPrefix ?l ''server ''" "\<not> HasPrefix ?l ''#''" "\<not> HasPrefix ?l ''//''" "?l \<noteq> ''''"
    by (simp_all add: HasPrefix_def)
  moreover have "is_header ?l"
    unfolding is_header_def using HasPrefix_append [of "''upstream ''" "n @ '' {''"] by blast
  moreover have "parse_header ?l = n"
  proof -
    have "TrimSuffix ?l '':'' = ?l"
      by (simp add: TrimSuffix_def HasSuffix_def HasPrefix_def)
    moreover have "TrimPrefix ?l ''upstream '' = (n @ '' '') @ ''{''"
      using TrimPrefix_append [of "''upstream ''" "n @ '' {''"] by simp
    moreover have "TrimSuffix ((n @ '' '') @ ''{'') ''{'' = n @ '' ''"
      by (rule TrimSuffix_append)
    moreover have "TrimSpace (n @ '' '') = n"
      using assms TrimSpace_ends [of n]
      by (cases n)
        (auto simp: name_ok_def TrimSpace_def strip_front_plain strip_front_space list_all_iff)
    ultimately show ?thesis
      by (simp add: parse_header_def)
  qed
  ultimately show ?thesis
    by (simp add: parse_line_def)
qed

lemma parse_line_empty [simp]: "parse_line st '''' = st"
  by (simp add: parse_line_def split: prod.split)

lemma update_new: "k \<notin> fst ` set m \<Longrightarrow> AList.update k v m = m @ [(k, v)]"
  by (induction m) auto

lemma parse_upstreams:
  assumes "distinct (map fst ups)" and "list_all (\<lambda>(n, bs). name_ok n \<and> list_all backend_ok bs) ups"
    and "fst ` set res \<inter> fst ` set ups = {}"
  shows "snd (foldl parse_line (m, res) (concat (map render_lines ups))) =
    res @ filter (\<lambda>(n, bs). bs \<noteq> []) ups"
  using assms
proof (induction ups arbitrary: m res)
  case (Cons e ups)
  obtain n bs where e: "e = (n, bs)" by fastforce
  have ok: "name_ok n" "list_all backend_ok bs" "n \<notin> fst ` set res"
    using Cons.prems e by auto
  let ?res = "if bs = [] then res else res @ [(n, bs)]"
  have "slice_get res n = []"
    using ok(3) by (simp add: slice_get_def map_of_eq_None_iff [THEN iffD2])
  then have "foldl parse_line (m, res) (render_lines e) = (n, ?res)"
    using ok by (simp add: render_lines_def e parse_line_header [simplified] parse_servers update_new)
  moreover have "snd (foldl parse_line (n, ?res) (concat (map render_lines ups))) =
      ?res @ filter (\<lambda>(n, bs). bs \<noteq> []) ups"
    using Cons.prems e by (intro Cons.IH) auto
  ultimately show ?case
    by (simp add: e)
qed simp

lemma Split_lines:
  assumes "list_all (\<lambda>l. c \<notin> set l) ls"
  shows "Split (concat (map (\<lambda>l. l @ [c]) ls)) c = ls @ [[]]"
  using assms by (induction ls) (simp_all add: Split_append_sep)

lemma newline_not_plain: "list_all plain s \<Longrightarrow> newline \<notin> set s"
  by (auto simp: list_all_iff newline_def plain_def)

lemma backend_ok_plain: "backend_ok b \<Longrightarrow> list_all plain (be_IP b)"
  by (auto simp: backend_ok_def bare_host_def plain_def)

lemma newline_not_backend:
  assumes "backend_ok b"
  shows "newline \<notin> set (render_server b)"
proof -
  have "newline \<notin> set (be_IP b)" "newline \<notin> set (int_dec i)" for i
    using newline_not_plain backend_ok_plain [OF assms] int_dec_plain by blast+
  then show ?thesis
    by (simp add: render_server_def) (simp add: newline_def)
qed

lemma parseBulk_render:
  assumes "distinct (map fst ups)" and "list_all (\<lambda>(n, bs). name_ok n \<and> list_all backend_ok bs) ups"
  shows "parseBulkNginxBackends (render_bulk ups) = filter (\<lambda>(n, bs). bs \<noteq> []) ups"
proof -
  have "list_all (\<lambda>l. newline \<notin> set l) (concat (map render_lines ups))"
    using assms(2)
    by (auto simp: list_all_iff render_lines_def name_ok_def newline_not_backend
        dest!: newline_not_plain [unfolded list_all_iff]) (auto simp: newline_def)
  then have "Split (render_bulk ups) newline = concat (map render_lines ups) @ ['''']"
    unfolding render_bulk_def by (rule Split_lines)
  moreover have "snd (foldl parse_line ('''', []) (concat (map render_lines ups))) =
      [] @ filter (\<lambda>(n, bs). bs \<noteq> []) ups"
    by (rule parse_upstreams) (use assms in simp_all)
  ultimately show ?thesis
    by (simp add: parseBulkNginxBackends_def)
qed

text \<open>
  C30: reading back a list of upstreams in NGINX's format gives exactly these upstreams and their
  servers, in order, IPv4 and bracketed IPv6 addresses, ports and weights included; an upstream
  without servers does not show up.
\<close>

theorem parseBulkNginxBackends_render:
  assumes "distinct (map fst ups)" and "list_all (\<lambda>(n, bs). name_ok n \<and> list_all backend_ok bs) ups"
  shows "parseBulkNginxBackends (render_bulk ups) = filter (\<lambda>(n, bs). bs \<noteq> []) ups"
  using assms by (rule parseBulk_render)

theorem parseBulkNginxBackends_render_witness:
  "let ups = [(''web'', [\<lparr>be_IP = ''10.0.0.1'', be_Port = 30080, be_Weight = 2\<rparr>,
                       \<lparr>be_IP = ''[2001:db8::1]'', be_Port = 80, be_Weight = 1\<rparr>]),
              (''api'', [])]
   in parseBulkNginxBackends (render_bulk ups) = [hd ups]"
proof -
  let ?b = "\<lparr>be_IP = ''[2001:db8::1]'', be_Port = 80, be_Weight = 1\<rparr>"
  have "\<exists>h. be_IP ?b = ''['' @ h @ '']'' \<and> bare_host h \<and> CHR '':'' \<in> set h"
    by (rule exI [of _ "''2001:db8::1''"]) (simp add: bare_host_def plain_def)
  then have "backend_ok ?b" by (simp add: backend_ok_def)
  moreover have "backend_ok \<lparr>be_IP = ''10.0.0.1'', be_Port = 30080, be_Weight = 2\<rparr>"
    by (simp add: backend_ok_def bare_host_def plain_def)
  ultimately show ?thesis
    unfolding Let_def
    by (subst parseBulkNginxBackends_render) (simp_all add: name_ok_def plain_def)
qed

lemma names_agree:
  "(backendKey a = backendKey b \<longleftrightarrow> sameBackend a b) \<and>
   (formatServerAddr (be_IP a) (be_Port a) = formatServerAddr (be_IP b) (be_Port b) \<longleftrightarrow> sameBackend a b) \<and>
   (bare_host (cleanIP (be_IP a)) \<longrightarrow>
     SplitHostPort (formatServerAddr (be_IP a) (be_Port a)) =
       Some (cleanIP (be_IP a), int_dec (sint (be_Port a))))"
proof (intro conjI impI)
  show "backendKey a = backendKey b \<longleftrightarrow> sameBackend a b"
    by (rule backendKey_same)
  let ?h = "\<lambda>b. if ContainsByte (cleanIP (be_IP b)) CHR '':'' then ''['' @ cleanIP (be_IP b) @ '']''
    else cleanIP (be_IP b)"
  have addr: "formatServerAddr (be_IP b) (be_Port b) = ?h b @ CHR '':'' # int_dec (sint (be_Port b))" for b
    by (simp add: formatServerAddr_def)
  have host: "?h a = ?h b \<longleftrightarrow> cleanIP (be_IP a) = cleanIP (be_IP b)"
  proof -
    have "CHR '':'' \<in> set y" if "''['' @ x @ '']'' = y" "CHR '':'' \<in> set x" for x y :: string
      using that by auto
    then show ?thesis
      by (auto simp: ContainsByte_def simp del: append.simps dest: sym)
  qed
  show "formatServerAddr (be_IP a) (be_Port a) = formatServerAddr (be_IP b) (be_Port b) \<longleftrightarrow> sameBackend a b"
    unfolding addr sameBackend_def host [symmetric]
    by (auto simp: append_sep_inject dest: sint_inject32)
  assume "bare_host (cleanIP (be_IP a))"
  then show "SplitHostPort (formatServerAddr (be_IP a) (be_Port a)) =
      Some (cleanIP (be_IP a), int_dec (sint (be_Port a)))"
    using SplitHostPort_bracketed [of "cleanIP (be_IP a)" "sint (be_Port a)"]
    by (cases "CHR '':'' \<in> set (cleanIP (be_IP a))")
      (simp_all add: addr ContainsByte_def SplitHostPort_bare)
qed

text \<open>
  C31: the three ways in which the adapter names a server agree: two backends have the same map
  key, are the same by \<open>sameBackend\<close>, and are written as the same server address in a request, or
  none of these; and the address of a request reads back as the cleaned host and the port.
\<close>

theorem server_names_agree:
  "(backendKey a = backendKey b \<longleftrightarrow> sameBackend a b) \<and>
   (formatServerAddr (be_IP a) (be_Port a) = formatServerAddr (be_IP b) (be_Port b) \<longleftrightarrow> sameBackend a b) \<and>
   (bare_host (cleanIP (be_IP a)) \<longrightarrow>
     SplitHostPort (formatServerAddr (be_IP a) (be_Port a)) =
       Some (cleanIP (be_IP a), int_dec (sint (be_Port a))))"
  by (rule names_agree)

theorem server_names_agree_witness:
  "SplitHostPort (formatServerAddr ''[2001:db8::1]'' 80) = Some (''2001:db8::1'', ''80'')"
proof -
  let ?b = "\<lparr>be_IP = ''[2001:db8::1]'', be_Port = 80, be_Weight = 1\<rparr>"
  have "TrimSpace ''[2001:db8::1]'' = ''[2001:db8::1]''"
    by (rule TrimSpace_ends) (simp_all add: plain_def)
  then have clean: "cleanIP (be_IP ?b) = ''2001:db8::1''"
    by (simp add: cleanIP_def Trim_def)
  then have "bare_host (cleanIP (be_IP ?b))"
    by (simp add: bare_host_def plain_def)
  moreover have "int_dec (sint (be_Port ?b)) = ''80''"
    by (simp add: go_eval)
  ultimately show ?thesis
    using server_names_agree [of ?b ?b] clean by simp
qed

end
