(* ===== verification/GoUrl.thy ===== *)
theory GoUrl
  imports GoNet
begin

text \<open>
  The part of Go's \<open>net/url\<close> that the NGINX adapter calls: \<open>QueryEscape\<close>, and \<open>Parse\<close> with the
  \<open>Query\<close> of its result. Of a parsed URL the scheme, the host, the path and the raw query are
  kept; every error of the parser is a \<open>None\<close>. Escaping and parsing a query are inverse.
\<close>

section \<open>Escaping\<close>

definition is_alnum :: "char \<Rightarrow> bool" where
  "is_alnum c \<longleftrightarrow> is_digit c \<or>
     97 \<le> (of_char c :: nat) \<and> (of_char c :: nat) \<le> 122 \<or>
     65 \<le> (of_char c :: nat) \<and> (of_char c :: nat) \<le> 90"

definition unreserved :: "char \<Rightarrow> bool" where
  "unreserved c \<longleftrightarrow> is_alnum c \<or> c \<in> set ''-_.~''"

definition upper_hex :: "nat \<Rightarrow> char" where
  "upper_hex d = char_of (if d < 10 then 48 + d else 55 + d)"

text \<open>\<open>url.QueryEscape\<close>.\<close>

fun QueryEscape :: "string \<Rightarrow> string" where
  "QueryEscape [] = []"
| "QueryEscape (c # s) =
     (if c = CHR '' '' then CHR ''+'' # QueryEscape s
      else if unreserved c then c # QueryEscape s
      else CHR ''%'' # upper_hex (of_char c div 16) # upper_hex (of_char c mod 16) # QueryEscape s)"

text \<open>The modes of the unexported \<open>unescape\<close> that \<open>Parse\<close> and \<open>QueryUnescape\<close> use.\<close>

datatype encoding = EncodePath | EncodeQueryComponent | EncodeUserPassword | EncodeHost | EncodeZone

definition host_char :: "char \<Rightarrow> bool" where
  "host_char c \<longleftrightarrow> unreserved c \<or> c \<in> set ''!$&()*+,;=:[]<>'' \<or> c = CHR 0x27 \<or> c = CHR 0x22"

fun unescape :: "encoding \<Rightarrow> string \<Rightarrow> string option" where
  "unescape mode [] = Some []"
| "unescape mode (c # s) =
     (if c = CHR ''%'' then
        (case s of
           a # b # t \<Rightarrow>
             (case (hex_digit a, hex_digit b) of
                (Some x, Some y) \<Rightarrow>
                  if mode = EncodeHost \<and> x < 8 \<and> [a, b] \<noteq> ''25'' then None
                  else if mode = EncodeZone \<and> [a, b] \<noteq> ''25'' \<and> char_of (16 * x + y) \<noteq> CHR '' '' \<and>
                    \<not> host_char (char_of (16 * x + y)) then None
                  else map_option ((#) (char_of (16 * x + y))) (unescape mode t)
              | _ \<Rightarrow> None)
         | _ \<Rightarrow> None)
      else if c = CHR ''+'' \<and> mode = EncodeQueryComponent then
        map_option ((#) (CHR '' '')) (unescape mode s)
      else if (mode = EncodeHost \<or> mode = EncodeZone) \<and> (of_char c :: nat) < 0x80 \<and> \<not> host_char c then None
      else map_option ((#) c) (unescape mode s))"

definition QueryUnescape :: "string \<Rightarrow> string option" where
  "QueryUnescape s = unescape EncodeQueryComponent s"

section \<open>Queries\<close>

text \<open>
  \<open>url.ParseQuery\<close>, as \<open>URL.Query\<close> uses it: the pairs in order, those with an error left out.
\<close>

definition parse_pair :: "string \<Rightarrow> (string \<times> string) list" where
  "parse_pair part =
     (if ContainsByte part CHR '';'' \<or> part = '''' then []
      else (let (key, value) = (case Cut part CHR ''='' of Some kv \<Rightarrow> kv | None \<Rightarrow> (part, ''''))
            in case (QueryUnescape key, QueryUnescape value) of
                 (Some k, Some v) \<Rightarrow> [(k, v)]
               | _ \<Rightarrow> []))"

definition ParseQuery :: "string \<Rightarrow> (string \<times> string) list" where
  "ParseQuery query = concat (map parse_pair (Split query CHR ''&''))"

section \<open>Parsing a URL\<close>

text \<open>\<open>getScheme\<close>: \<open>None\<close> is the error, otherwise the scheme (empty for none) and the rest.\<close>

fun scheme_from :: "string \<Rightarrow> string \<Rightarrow> string \<Rightarrow> (string \<times> string) option" where
  "scheme_from all acc [] = Some ([], all)"
| "scheme_from all acc (c # s) =
     (if is_alnum c \<and> \<not> is_digit c then scheme_from all (acc @ [c]) s
      else if is_digit c \<or> c \<in> set ''+-.'' then
        (if acc = [] then Some ([], all) else scheme_from all (acc @ [c]) s)
      else if c = CHR '':'' then (if acc = [] then None else Some (acc, s))
      else Some ([], all))"

definition validOptionalPort :: "string \<Rightarrow> bool" where
  "validOptionalPort port \<longleftrightarrow> port = '''' \<or> hd port = CHR '':'' \<and> list_all is_digit (tl port)"

definition validUserinfo :: "string \<Rightarrow> bool" where
  "validUserinfo s \<longleftrightarrow> list_all (\<lambda>c. is_alnum c \<or> c \<in> set ''-._:~!$&()*+,;=%@'' \<or> c = CHR 0x27) s"

text \<open>The position of the first occurrence of a substring.\<close>

definition IndexOf :: "string \<Rightarrow> string \<Rightarrow> nat option" where
  "IndexOf s p = find (\<lambda>i. HasPrefix (drop i s) p) [0..<Suc (length s)]"

text \<open>\<open>parseHost\<close> and \<open>parseAuthority\<close>: the host with its port, or \<open>None\<close> for an error.\<close>

definition parseHost :: "string \<Rightarrow> string option" where
  "parseHost host =
     (if HasPrefix host ''['' then
        (case CutLast host CHR '']'' of
           None \<Rightarrow> None
         | Some (before, colonPort) \<Rightarrow>
             if \<not> validOptionalPort colonPort then None
             else
             (case IndexOf before ''%25'' of
                Some zpos \<Rightarrow>
                  (case (unescape EncodeHost (take zpos before), unescape EncodeZone (drop zpos before),
                      unescape EncodeHost (CHR '']'' # colonPort)) of
                     (Some host1, Some host2, Some host3) \<Rightarrow> Some (host1 @ host2 @ host3)
                   | _ \<Rightarrow> None)
              | None \<Rightarrow> unescape EncodeHost host))
      else
        (case CutLast host CHR '':'' of
           Some (_, port) \<Rightarrow>
             if \<not> validOptionalPort (CHR '':'' # port) then None else unescape EncodeHost host
         | None \<Rightarrow> unescape EncodeHost host))"

definition parseAuthority :: "string \<Rightarrow> string option" where
  "parseAuthority authority =
     (case CutLast authority CHR ''@'' of
        None \<Rightarrow> parseHost authority
      | Some (userinfo, host) \<Rightarrow>
          if validUserinfo userinfo \<and>
             (case Cut userinfo CHR '':'' of
                None \<Rightarrow> unescape EncodeUserPassword userinfo \<noteq> None
              | Some (username, password) \<Rightarrow>
                  unescape EncodeUserPassword username \<noteq> None \<and>
                  unescape EncodeUserPassword password \<noteq> None)
          then parseHost host else None)"

definition is_ctl :: "char \<Rightarrow> bool" where
  "is_ctl c \<longleftrightarrow> (of_char c :: nat) < 0x20 \<or> (of_char c :: nat) = 0x7F"

text \<open>What the program reads of a parsed URL.\<close>

record url =
  url_Scheme :: string
  url_Host :: string
  url_Path :: string
  url_RawQuery :: string

text \<open>The unexported \<open>parse\<close>: the URL, or \<open>None\<close> for an error.\<close>

definition url_parse :: "string \<Rightarrow> url option" where
  "url_parse rawURL =
     (if list_ex is_ctl rawURL then None
      else if rawURL = ''*'' then
        Some \<lparr>url_Scheme = '''', url_Host = '''', url_Path = ''*'', url_RawQuery = ''''\<rparr>
      else
      (case scheme_from rawURL [] rawURL of
         None \<Rightarrow> None
       | Some (scheme, rest) \<Rightarrow>
           (let scheme = ToLower scheme;
                (rest, rawQuery) =
              (if HasSuffix rest ''?'' \<and> count_list rest CHR ''?'' = 1 then (butlast rest, '''')
               else (case Cut rest CHR ''?'' of Some (a, b) \<Rightarrow> (a, b) | None \<Rightarrow> (rest, '''')));
                withPath = (\<lambda>host path. map_option (\<lambda>p.
                  \<lparr>url_Scheme = scheme, url_Host = host, url_Path = p, url_RawQuery = rawQuery\<rparr>)
                  (unescape EncodePath path))
            in if \<not> HasPrefix rest ''/'' \<and> scheme \<noteq> '''' then
                 Some \<lparr>url_Scheme = scheme, url_Host = '''', url_Path = '''', url_RawQuery = rawQuery\<rparr>
               else if \<not> HasPrefix rest ''/'' \<and>
                 ContainsByte (case Cut rest CHR ''/'' of Some (segment, _) \<Rightarrow> segment | None \<Rightarrow> rest) CHR '':''
               then None
               else if (scheme \<noteq> '''' \<or> \<not> HasPrefix rest ''///'') \<and> HasPrefix rest ''//'' then
                 (let authority = drop 2 rest;
                      (authority, rest) =
                        (case Cut authority CHR ''/'' of
                           Some (a, r) \<Rightarrow> (a, CHR ''/'' # r) | None \<Rightarrow> (authority, ''''))
                  in case parseAuthority authority of
                       None \<Rightarrow> None | Some host \<Rightarrow> withPath host rest)
               else withPath '''' rest)))"

text \<open>\<open>url.Parse\<close>: the fragment is cut off, and must be well escaped.\<close>

definition url_Parse :: "string \<Rightarrow> url option" where
  "url_Parse rawURL =
     (case Cut rawURL CHR ''#'' of
        None \<Rightarrow> url_parse rawURL
      | Some (u, frag) \<Rightarrow>
          (case url_parse u of
             None \<Rightarrow> None
           | Some parsed \<Rightarrow> if unescape EncodePath frag \<noteq> None then Some parsed else None))"

section \<open>Escaping is undone\<close>

lemma hex_digit_upper: "d < 16 \<Longrightarrow> hex_digit (upper_hex d) = Some d"
  by (auto simp: hex_digit_def upper_hex_def is_digit_def)

lemma char_high_digit: "(of_char c :: nat) div 16 < 16"
  by (rule less_mult_imp_div_less) simp

lemma QueryUnescape_QueryEscape [simp]: "QueryUnescape (QueryEscape s) = Some s"
proof (induction s)
  case Nil
  then show ?case by (simp add: QueryUnescape_def)
next
  case (Cons c s)
  have hi: "(of_char c :: nat) div 16 < 16" and lo: "(of_char c :: nat) mod 16 < 16"
    by (simp_all add: char_high_digit)
  have "\<not> unreserved CHR ''%''" "\<not> unreserved CHR ''+''"
    by (simp_all add: unreserved_def is_alnum_def is_digit_def)
  then show ?case
    using Cons by (auto simp: QueryUnescape_def hex_digit_upper [OF hi] hex_digit_upper [OF lo])
qed

lemma QueryEscape_bytes:
  "x \<in> set (QueryEscape s) \<Longrightarrow> unreserved x \<or> x = CHR ''+'' \<or> x = CHR ''%''"
proof (induction s)
  case (Cons c s)
  have "unreserved (upper_hex d)" if "d < 16" for d
    using that by (auto simp: unreserved_def is_alnum_def is_digit_def upper_hex_def)
  then show ?case
    using Cons char_high_digit [of c] by (auto split: if_splits)
qed simp

lemma QueryEscape_separators:
  "CHR ''&'' \<notin> set (QueryEscape s)" "CHR ''='' \<notin> set (QueryEscape s)"
  "CHR '';'' \<notin> set (QueryEscape s)" "CHR ''?'' \<notin> set (QueryEscape s)"
  "CHR ''#'' \<notin> set (QueryEscape s)"
  using QueryEscape_bytes [of _ s] by (fastforce simp: unreserved_def is_alnum_def is_digit_def)+

lemma QueryUnescape_plain:
  assumes "list_all unreserved s"
  shows "QueryUnescape s = Some s"
  using assms
proof (induction s)
  case (Cons c s)
  have "\<not> unreserved CHR ''%''" "\<not> unreserved CHR ''+''"
    by (simp_all add: unreserved_def is_alnum_def is_digit_def)
  with Cons show ?case by (auto simp: QueryUnescape_def)
qed (simp add: QueryUnescape_def)

lemma ParseQuery_amp:
  "ParseQuery (p @ CHR ''&'' # q) = ParseQuery p @ ParseQuery q"
proof -
  have "Split (p @ CHR ''&'' # q) CHR ''&'' = Split p CHR ''&'' @ Split q CHR ''&''"
    by (induction p) (auto split: list.split)
  then show ?thesis
    by (simp add: ParseQuery_def)
qed

lemma ParseQuery_pair:
  assumes "CHR ''&'' \<notin> set p" 
  shows "ParseQuery p = parse_pair p"
  using assms by (simp add: ParseQuery_def Split_no_sep)

lemma parse_pair_escaped:
  assumes "list_all unreserved k" and "k \<noteq> ''''"
  shows "parse_pair (k @ CHR ''='' # QueryEscape v) = [(k, v)]"
proof -
  have "CHR '';'' \<notin> set k" "CHR ''='' \<notin> set k"
    using assms(1) by (auto simp: list_all_iff unreserved_def is_alnum_def is_digit_def)
  then show ?thesis
    using assms
    by (simp add: parse_pair_def ContainsByte_def QueryEscape_separators Cut_append_sep QueryUnescape_plain)
qed

end
