(* ===== verification/NginxAdapter.thy ===== *)
theory NginxAdapter
  imports NginxText GoUrl Controller
begin

text \<open>
  \<open>internal/adapters/loadbalancer/nginx\<close>: the HTTP client with its retries (\<open>client.go\<close>) and the
  adapter with its cache (\<open>nginx.go\<close>).

  The network, the clock, the semaphore and the certificates are behind interfaces of Go's
  library: the record \<open>net_env\<close> is what the adapter calls of them, acting on a world \<open>'n\<close>. The
  adapter's state is the record \<open>nginx\<close>: the two cache maps and that world. The goroutines of one
  sync, one for each client, are taken in the order of the client list; each works on the cache
  entry of its own address. Log output is not modelled.
\<close>

section \<open>The client\<close>

text \<open>
  What \<open>http.Client.Do\<close> returns: a response with its status, the bytes of its body and the error
  after them, if any; an error; or an error together with a response whose body is closed.
\<close>

datatype http_reply = Reply int string "goerror option" | DoError goerror | ReplyError int goerror

text \<open>
  \<open>io.ReadAll(io.LimitReader(body, limit))\<close>: what is read, and the error, which is only met when
  the body is shorter than the limit.
\<close>

definition ReadAllLimited :: "nat \<Rightarrow> string \<Rightarrow> goerror option \<Rightarrow> string \<times> goerror option" where
  "ReadAllLimited limit body err = (take limit body, if length body < limit then err else None)"

record 'n net_env =
  ne_NewRequest :: "string \<Rightarrow> string \<Rightarrow> goerror option"
  ne_Do :: "string \<Rightarrow> string \<Rightarrow> string \<Rightarrow> 'n \<Rightarrow> http_reply \<times> 'n"
  ne_backoff :: "nat \<Rightarrow> 'n \<Rightarrow> goerror option \<times> 'n"
  ne_Acquire :: "'n \<Rightarrow> goerror option \<times> 'n"
  ne_Release :: "'n \<Rightarrow> 'n"
  ne_Now :: "'n \<Rightarrow> int"

text \<open>
  What \<open>NewNginxClientSet\<close> sets up in the \<open>http.Client\<close> that its clients share: the timeout, and
  of the TLS configuration the server name, the client certificates (a chain of DER texts each)
  and the PEM text of the root CAs.
\<close>

record http_client =
  hc_Timeout :: int
  hc_ServerName :: string
  hc_Certificates :: "string list list"
  hc_RootCAs :: "string option"

record nginx_client =
  cl_client :: http_client
  cl_baseURL :: string
  cl_host :: string

definition status_error :: "int \<Rightarrow> string \<Rightarrow> goerror" where
  "status_error status body =
     Errorf (''request failed with status '' @ int_dec status @ '': '' @ body)"

text \<open>
  The loop of \<open>doRequest\<close>: \<open>remaining\<close> is the number of attempts left, \<open>i\<close> the loop variable. The
  host header is overridden where the client has a host name, otherwise it is that of the URL.
\<close>

fun do_attempts ::
  "'n net_env \<Rightarrow> string \<Rightarrow> string \<Rightarrow> string \<Rightarrow> nat \<Rightarrow> nat \<Rightarrow> goerror option \<Rightarrow> 'n \<Rightarrow>
    (goerror + string) \<times> 'n" where
  "do_attempts env host method url 0 i lastErr n =
     (Inl (case lastErr of
        Some e \<Rightarrow> Wrapf ''exhausted retries'' e | None \<Rightarrow> Errorf ''exhausted retries''), n)"
| "do_attempts env host method url (Suc remaining) i lastErr n =
     (case ne_NewRequest env method url of
        Some e \<Rightarrow> (Inl (Wrapf ''failed to create request'' e), n)
      | None \<Rightarrow>
          (let (reply, n) = ne_Do env method url host n;
               retry = (\<lambda>lastErr.
                 (case ne_backoff env (100 * 2 ^ i) n of
                    (Some e, n) \<Rightarrow> (Inl e, n)
                  | (None, n) \<Rightarrow> do_attempts env host method url remaining (Suc i) (Some lastErr) n));
               failed = (\<lambda>status body.
                 if 400 \<le> status \<and> status < 500 \<and> status \<noteq> 429
                 then (Inl (status_error status body), n)
                 else retry (status_error status body))
           in case reply of
                Reply status body err \<Rightarrow>
                  if status = 200 then
                    (case ReadAllLimited (10 * 1024 * 1024) body err of
                       (_, Some e) \<Rightarrow> (Inl (Wrapf ''failed to read response body'' e), n)
                     | (bodyBytes, None) \<Rightarrow> (Inr bodyBytes, n))
                  else failed status (fst (ReadAllLimited (1024 * 1024) body err))
              | DoError e \<Rightarrow> retry e
              | ReplyError status e \<Rightarrow> failed status ''''))"

definition doRequest ::
  "'n net_env \<Rightarrow> nginx_client \<Rightarrow> string \<Rightarrow> string \<Rightarrow> 'n \<Rightarrow> (goerror + string) \<times> 'n" where
  "doRequest env c method path n =
     (let url = cl_baseURL c @ ''/'' @ TrimPrefix path ''/''
      in do_attempts env (cl_host c) method url 3 0 None n)"

section \<open>The paths of the APIs\<close>

definition hasQueryParam :: "string \<Rightarrow> string \<Rightarrow> bool" where
  "hasQueryParam rawURL param =
     (case url_Parse rawURL of
        None \<Rightarrow> False
      | Some u \<Rightarrow> param \<in> fst ` set (ParseQuery (url_RawQuery u)))"

definition buildAddPath :: "nginx_config \<Rightarrow> string \<Rightarrow> string \<Rightarrow> 64 word \<Rightarrow> string" where
  "buildAddPath cfg upstreamName serverAddr weight =
     (let api = TrimPrefix (ngx_AddAPI cfg) ''/'';
          delim = (if ContainsByte api CHR ''?'' then ''&'' else ''?'');
          path = api @ delim @ ''upstream='' @ QueryEscape upstreamName @ ''&server='' @
            QueryEscape serverAddr @ ''&weight='' @ int_dec (sint weight)
      in if \<not> hasQueryParam (ngx_AddAPI cfg) ''add'' then path @ ''&add='' else path)"

definition buildRemovePath :: "nginx_config \<Rightarrow> string \<Rightarrow> string \<Rightarrow> string" where
  "buildRemovePath cfg upstreamName serverAddr =
     (let api = TrimPrefix (ngx_RemoveAPI cfg) ''/'';
          delim = (if ContainsByte api CHR ''?'' then ''&'' else ''?'');
          path = api @ delim @ ''upstream='' @ QueryEscape upstreamName @ ''&server='' @
            QueryEscape serverAddr
      in if \<not> hasQueryParam (ngx_RemoveAPI cfg) ''remove'' then path @ ''&remove='' else path)"

section \<open>The cache\<close>

text \<open>The fixed part of the adapter; of its semaphore the capacity.\<close>

record nginx_adapter =
  na_clients :: "nginx_client list"
  na_config :: nginx_config
  na_semaphore :: int

record 'n nginx =
  ng_cache :: "(string, nginx_upstreams) gomap"
  ng_cacheExp :: "(string, int) gomap"
  ng_net :: 'n

definition refreshCache ::
  "'n net_env \<Rightarrow> nginx_adapter \<Rightarrow> nginx_client \<Rightarrow> 'n nginx \<Rightarrow> (goerror + nginx_upstreams) \<times> 'n nginx" where
  "refreshCache env a client st =
     (let fetch =
        (let path = TrimPrefix (ngx_ListAPI (na_config a)) ''/''
         in case doRequest env client ''GET'' path (ng_net st) of
              (Inl e, n) \<Rightarrow>
                (Inl (Wrapf (''failed to bulk fetch upstreams from '' @ cl_baseURL client) e),
                 st\<lparr>ng_net := n\<rparr>)
            | (Inr body, n) \<Rightarrow>
                (let parsedState = parseBulkNginxBackends body
                 in (Inr parsedState,
                     st\<lparr>ng_cache := AList.update (cl_baseURL client) parsedState (ng_cache st),
                        ng_cacheExp :=
                          AList.update (cl_baseURL client) (ne_Now env n + 2 * 1000000000) (ng_cacheExp st),
                        ng_net := n\<rparr>)))
      in case (map_of (ng_cacheExp st) (cl_baseURL client), map_of (ng_cache st) (cl_baseURL client)) of
           (Some exp, Some cached) \<Rightarrow>
             if ne_Now env (ng_net st) < exp then (Inr cached, st) else fetch
         | _ \<Rightarrow> fetch)"

definition invalidateCache :: "string \<Rightarrow> 'n nginx \<Rightarrow> 'n nginx" where
  "invalidateCache clientBaseURL st =
     st\<lparr>ng_cache := AList.delete clientBaseURL (ng_cache st),
        ng_cacheExp := AList.delete clientBaseURL (ng_cacheExp st)\<rparr>"

section \<open>Syncing one upstream\<close>

definition weightToAdd :: "backend \<Rightarrow> 64 word" where
  "weightToAdd db = (if sint (be_Weight db) < 1 then 1 else be_Weight db)"

text \<open>The loop that aggregates duplicate backends.\<close>

definition desired_add :: "(string, backend) gomap \<Rightarrow> backend \<Rightarrow> (string, backend) gomap" where
  "desired_add m db =
     (case map_of m (backendKey db) of
        Some tmpdb \<Rightarrow>
          AList.update (backendKey db) (tmpdb\<lparr>be_Weight := be_Weight tmpdb + weightToAdd db\<rparr>) m
      | None \<Rightarrow> AList.update (backendKey db) (db\<lparr>be_Weight := weightToAdd db\<rparr>) m)"

definition desiredBackend :: "backend list \<Rightarrow> (string, backend) gomap" where
  "desiredBackend bs = foldl desired_add [] bs"

text \<open>The backends of the upstream on this client, in the named or the flat format.\<close>

definition currentBackends :: "nginx_upstreams \<Rightarrow> string \<Rightarrow> backend list" where
  "currentBackends allBackends name =
     (let current = slice_get allBackends name in
      if current = [] \<and> length allBackends = 1 \<and> slice_get allBackends '''' \<noteq> []
      then slice_get allBackends '''' else current)"

definition needs_update :: "backend list \<Rightarrow> backend \<Rightarrow> bool" where
  "needs_update current db =
     (case find (\<lambda>cb. sameBackend db cb) current of
        Some cb \<Rightarrow> be_Weight cb \<noteq> be_Weight db
      | None \<Rightarrow> True)"

definition updateBackends ::
  "(string, backend) gomap \<Rightarrow> backend list \<Rightarrow> (string, backend) gomap" where
  "updateBackends desired current = filter (\<lambda>(key, db). needs_update current db) desired"

definition removeBackends ::
  "(string, backend) gomap \<Rightarrow> backend list \<Rightarrow> (string, backend) gomap" where
  "removeBackends desired current =
     foldl (\<lambda>m cb. if has_key desired (backendKey cb) then m else AList.update (backendKey cb) cb m)
       [] current"

text \<open>One request for each path; a failure is recorded and the loop goes on.\<close>

definition send ::
  "'n net_env \<Rightarrow> nginx_client \<Rightarrow> string \<Rightarrow> goerror list \<times> 'n \<Rightarrow> string \<Rightarrow> goerror list \<times> 'n" where
  "send env c what st path =
     (case doRequest env c ''GET'' path (snd st) of
        (Inl e, n) \<Rightarrow>
          (fst st @ [Wrapf (''client '' @ cl_baseURL c @ '' '' @ what @ '' failed'') e], n)
      | (Inr _, n) \<Rightarrow> (fst st, n))"

text \<open>The paths of the requests, in the order of the sorted keys (the keys are distinct).\<close>

definition add_paths :: "nginx_config \<Rightarrow> string \<Rightarrow> (string, backend) gomap \<Rightarrow> string list" where
  "add_paths cfg name m =
     map (\<lambda>(k, b). buildAddPath cfg name (formatServerAddr (be_IP b) (be_Port b)) (be_Weight b))
       (sort_key fst m)"

definition remove_paths :: "nginx_config \<Rightarrow> string \<Rightarrow> (string, backend) gomap \<Rightarrow> string list" where
  "remove_paths cfg name m =
     map (\<lambda>(k, b). buildRemovePath cfg name (formatServerAddr (be_IP b) (be_Port b))) (sort_key fst m)"

text \<open>What a goroutine does once it holds the semaphore.\<close>

definition sync_client ::
  "'n net_env \<Rightarrow> nginx_adapter \<Rightarrow> upstream \<Rightarrow> nginx_client \<Rightarrow> 'n nginx \<Rightarrow> goerror list \<times> 'n nginx" where
  "sync_client env a upstream c st =
     (case refreshCache env a c st of
        (Inl e, st) \<Rightarrow> ([e], st)
      | (Inr allBackends, st) \<Rightarrow>
          (let desired = desiredBackend (up_Backends upstream);
               current = currentBackends allBackends (up_Name upstream);
               updates = updateBackends desired current;
               removes = removeBackends desired current;
               changed = (updates \<noteq> [] \<or> removes \<noteq> []);
               (errs, n) = foldl (send env c ''add'') ([], ng_net st)
                 (add_paths (na_config a) (up_Name upstream) updates);
               (errs, n) = foldl (send env c ''remove'') (errs, n)
                 (remove_paths (na_config a) (up_Name upstream) removes);
               st = st\<lparr>ng_net := n\<rparr>
           in (errs, if changed then invalidateCache (cl_baseURL c) st else st)))"

text \<open>A goroutine: acquire the semaphore or record the error, run, release.\<close>

definition goroutine ::
  "'n net_env \<Rightarrow> (nginx_client \<Rightarrow> 'n nginx \<Rightarrow> goerror list \<times> 'n nginx) \<Rightarrow>
    goerror list \<times> 'n nginx \<Rightarrow> nginx_client \<Rightarrow> goerror list \<times> 'n nginx" where
  "goroutine env body st c =
     (case ne_Acquire env (ng_net (snd st)) of
        (Some e, n) \<Rightarrow>
          (fst st @ [Wrapf (''client '' @ cl_baseURL c @ '' semaphore error'') e],
           (snd st)\<lparr>ng_net := n\<rparr>)
      | (None, n) \<Rightarrow>
          (case body c ((snd st)\<lparr>ng_net := n\<rparr>) of
             (errs, s) \<Rightarrow> (fst st @ errs, s\<lparr>ng_net := ne_Release env (ng_net s)\<rparr>)))"

definition SyncUpstream ::
  "'n net_env \<Rightarrow> nginx_adapter \<Rightarrow> upstream \<Rightarrow> 'n nginx \<Rightarrow> goerror option \<times> 'n nginx" where
  "SyncUpstream env a upstream st =
     (case foldl (goroutine env (sync_client env a upstream)) ([], st) (na_clients a) of
        (errors, st) \<Rightarrow> (ErrorOrNil errors, st))"

section \<open>Syncing all upstreams\<close>

text \<open>The first loop: every desired upstream that is not preserved.\<close>

definition sync_desired ::
  "'n net_env \<Rightarrow> nginx_adapter \<Rightarrow> goerror list \<times> 'n nginx \<Rightarrow> string \<times> upstream \<Rightarrow>
    goerror list \<times> 'n nginx" where
  "sync_desired env a st entry =
     (let desiredUp = snd entry in
      if up_PreserveExistingBackends desiredUp then st
      else (case SyncUpstream env a desiredUp (snd st) of
              (Some e, s) \<Rightarrow>
                (fst st @ [Wrapf (''sync upstream '' @ up_Name desiredUp @ '' failed'') e], s)
            | (None, s) \<Rightarrow> (fst st, s)))"

text \<open>The removal of one orphaned backend: the errors, whether something changed, the world.\<close>

definition remove_orphan ::
  "'n net_env \<Rightarrow> nginx_adapter \<Rightarrow> nginx_client \<Rightarrow> string \<Rightarrow> goerror list \<times> bool \<times> 'n \<Rightarrow> backend \<Rightarrow>
    goerror list \<times> bool \<times> 'n" where
  "remove_orphan env a c upstreamName st backend =
     (let (errs, changed, n) = st;
          serverAddr = formatServerAddr (be_IP backend) (be_Port backend);
          path = buildRemovePath (na_config a) upstreamName serverAddr
      in case doRequest env c ''GET'' path n of
           (Inl e, n) \<Rightarrow>
             (errs @ [Wrapf (''client '' @ cl_baseURL c @ '' remove orphaned backend '' @ serverAddr @
                '' from '' @ upstreamName @ '' failed'') e], changed, n)
         | (Inr _, n) \<Rightarrow> (errs, True, n))"

definition prune_upstream ::
  "'n net_env \<Rightarrow> nginx_adapter \<Rightarrow> (string, upstream) gomap \<Rightarrow> nginx_client \<Rightarrow> nginx_upstreams \<Rightarrow>
    goerror list \<times> bool \<times> 'n \<Rightarrow> string \<Rightarrow> goerror list \<times> bool \<times> 'n" where
  "prune_upstream env a desired c allNginxUpstreams st upstreamName =
     (if upstreamName = '''' then st
      else if \<not> has_key desired upstreamName then
        foldl (remove_orphan env a c upstreamName) st (slice_get allNginxUpstreams upstreamName)
      else st)"

definition prune_client ::
  "'n net_env \<Rightarrow> nginx_adapter \<Rightarrow> (string, upstream) gomap \<Rightarrow> nginx_client \<Rightarrow> 'n nginx \<Rightarrow>
    goerror list \<times> 'n nginx" where
  "prune_client env a desired c st =
     (case refreshCache env a c st of
        (Inl e, st) \<Rightarrow> ([e], st)
      | (Inr allNginxUpstreams, st) \<Rightarrow>
          (let upstreamNames = sort (map fst allNginxUpstreams);
               (errs, changed, n) =
                 foldl (prune_upstream env a desired c allNginxUpstreams) ([], False, ng_net st) upstreamNames;
               st = st\<lparr>ng_net := n\<rparr>
           in (errs, if changed then invalidateCache (cl_baseURL c) st else st)))"

definition SyncAllUpstreams ::
  "'n net_env \<Rightarrow> nginx_adapter \<Rightarrow> (string, upstream) gomap \<Rightarrow> 'n nginx \<Rightarrow> goerror option \<times> 'n nginx" where
  "SyncAllUpstreams env a desiredUpstreams st =
     (let (errors, st) = foldl (sync_desired env a) ([], st) desiredUpstreams in
      if \<not> ngx_PruneOrphans (na_config a) then (ErrorOrNil errors, st)
      else (case foldl (goroutine env (prune_client env a desiredUpstreams)) (errors, st) (na_clients a) of
              (errors, st) \<Rightarrow> (ErrorOrNil errors, st)))"

text \<open>The adapter as the controller sees it.\<close>

definition nginx_lba :: "'n net_env \<Rightarrow> nginx_adapter \<Rightarrow> 'n nginx adapter" where
  "nginx_lba env a =
     \<lparr>lba_SyncUpstream = SyncUpstream env a, lba_SyncAllUpstreams = SyncAllUpstreams env a\<rparr>"

end
