(* ===== verification/NginxProps.thy ===== *)
theory NginxProps
  imports NginxAdapter
begin

text \<open>
  Properties of the NGINX adapter: the desired map is a table of weights, the plan of updates
  and removals turns the servers of an upstream into the desired ones with no request too many,
  the paths say what they mean, requests are retried within bounds, the cache expires, and no
  request touches an upstream that is to be preserved.
\<close>

section \<open>The desired backends\<close>

definition desired_ini :: "backend \<Rightarrow> backend" where
  "desired_ini b = b\<lparr>be_Weight := weightToAdd b\<rparr>"

definition desired_bump :: "backend \<Rightarrow> backend \<Rightarrow> backend" where
  "desired_bump e b = e\<lparr>be_Weight := be_Weight e + weightToAdd b\<rparr>"

interpretation desired_table:
  weight_table backendKey weightToAdd desired_ini desired_bump desired_add
  by unfold_locales
    (auto simp: desired_add_def desired_ini_def desired_bump_def distinct_update split: option.splits)

lemma desiredBackend_distinct: "distinct (map fst (desiredBackend bs))"
  unfolding desiredBackend_def by (rule desired_table.table_distinct) simp

lemma desiredBackend_weight:
  "map_of (desiredBackend bs) k = Some e \<Longrightarrow>
   be_Weight e = sum_list (map weightToAdd (filter (\<lambda>b. backendKey b = k) bs))"
  unfolding desiredBackend_def by (rule desired_table.table_weight_empty)

lemma desiredBackend_key:
  "map_of (desiredBackend bs) k \<noteq> None \<longleftrightarrow> k \<in> backendKey ` set bs"
  using desired_table.table_key [of "[]" bs k] by (simp add: desiredBackend_def)

lemma desiredBackend_origin:
  assumes "map_of (desiredBackend bs) k = Some e"
  shows "backendKey e = k"
  using desired_table.table_origin_empty [OF assms [unfolded desiredBackend_def]]
  by (auto simp: backendKey_def)

section \<open>The plan\<close>

text \<open>
  The servers of an upstream as NGINX keeps them: a weight for each address. An add request
  sets the weight of its address, a remove request takes the address away.
\<close>

definition weights :: "backend list \<Rightarrow> string \<Rightarrow> 64 word option" where
  "weights bs k = map_option be_Weight (find (\<lambda>b. backendKey b = k) bs)"

definition after_adds ::
  "(string, backend) gomap \<Rightarrow> (string \<Rightarrow> 64 word option) \<Rightarrow> string \<Rightarrow> 64 word option" where
  "after_adds m S = foldl (\<lambda>S (k, b). S(k \<mapsto> be_Weight b)) S (sort_key fst m)"

definition after_removes ::
  "(string, backend) gomap \<Rightarrow> (string \<Rightarrow> 64 word option) \<Rightarrow> string \<Rightarrow> 64 word option" where
  "after_removes m S = foldl (\<lambda>S (k, b). S(k := None)) S (sort_key fst m)"

lemma adds_loop:
  assumes "distinct (map fst m)"
  shows "foldl (\<lambda>S (k, b). S(k \<mapsto> be_Weight b)) S m k =
    (case map_of m k of Some b \<Rightarrow> Some (be_Weight b) | None \<Rightarrow> S k)"
  using assms
proof (induction m arbitrary: S)
  case (Cons e m)
  obtain j b where e: "e = (j, b)" by fastforce
  with Cons.prems have "map_of m j = None" by (simp add: map_of_eq_None_iff)
  with Cons e show ?case by (auto split: option.split)
qed simp

lemma removes_loop:
  "foldl (\<lambda>S (k, b). S(k := None)) S m k = (if k \<in> fst ` set m then None else S k)"
  by (induction m arbitrary: S) (auto split: prod.splits)

lemma sort_key_map_of:
  fixes m :: "('a::linorder \<times> 'b) list"
  assumes "distinct (map fst m)"
  shows "map_of (sort_key fst m) = map_of m"
proof
  fix k
  have "distinct (map fst (sort_key fst m))"
    using assms by (simp add: distinct_map distinct_sort)
  then have "map_of (sort_key fst m) k = Some v \<longleftrightarrow> map_of m k = Some v" for v
    using assms by simp
  then show "map_of (sort_key fst m) k = map_of m k"
    by (cases "map_of m k"; cases "map_of (sort_key fst m) k") auto
qed

lemma after_adds_lookup:
  assumes "distinct (map fst m)"
  shows "after_adds m S k = (case map_of m k of Some b \<Rightarrow> Some (be_Weight b) | None \<Rightarrow> S k)"
proof -
  have "distinct (map fst (sort_key fst m))"
    using assms by (simp add: distinct_map distinct_sort)
  then show ?thesis
    using assms by (simp add: after_adds_def adds_loop sort_key_map_of)
qed

lemma after_removes_lookup:
  "after_removes m S k = (if has_key m k then None else S k)"
  by (simp add: after_removes_def removes_loop has_key_iff)

lemma updateBackends_lookup:
  "map_of (updateBackends (desiredBackend bs) current) k =
     (case map_of (desiredBackend bs) k of
        Some b \<Rightarrow> if needs_update current b then Some b else None
      | None \<Rightarrow> None)"
  by (simp add: updateBackends_def map_of_filter_entry [OF desiredBackend_distinct] split: option.split)

lemma updateBackends_distinct: "distinct (map fst (updateBackends (desiredBackend bs) current))"
  by (simp add: updateBackends_def distinct_keys_filter desiredBackend_distinct)

lemma removeBackends_key:
  "has_key (removeBackends desired current) k \<longleftrightarrow>
     \<not> has_key desired k \<and> k \<in> backendKey ` set current"
proof -
  have "has_key (foldl (\<lambda>m cb. if has_key desired (backendKey cb) then m
        else AList.update (backendKey cb) cb m) m current) k \<longleftrightarrow>
      has_key m k \<or> \<not> has_key desired k \<and> k \<in> backendKey ` set current" for m
    by (induction current arbitrary: m) auto
  then show ?thesis
    by (simp add: removeBackends_def has_key_def)
qed

lemma desired_has_key: "has_key (desiredBackend bs) k \<longleftrightarrow> k \<in> backendKey ` set bs"
  using desiredBackend_key [of bs k] by (simp add: has_key_def)

lemma find_sameBackend:
  "find (\<lambda>cb. sameBackend b cb) bs = find (\<lambda>cb. backendKey cb = backendKey b) bs"
  by (rule find_cong) (auto simp: backendKey_same dest: sameBackend_sym)

lemma needs_update_iff: "needs_update current b \<longleftrightarrow> weights current (backendKey b) \<noteq> Some (be_Weight b)"
  by (simp add: needs_update_def find_sameBackend weights_def split: option.split)

lemma weights_None_iff: "weights current k = None \<longleftrightarrow> k \<notin> backendKey ` set current"
  by (auto simp: weights_def find_None_iff)

lemma map_empty_iff: "m = [] \<longleftrightarrow> (\<forall>k. map_of m k = None)"
  by (metis list.exhaust map_of.simps(1) map_of_eq_empty_iff)

section \<open>Properties of the plan\<close>

text \<open>
  C21: the plan is right. Sending the adds and then the removals of the plan, in the order of the
  code, turns whatever servers an upstream has into exactly the desired ones, each with the sum
  of the weights of the desired backends with its address, every one counted at least once.
\<close>

theorem plan_reaches_desired:
  "after_removes (removeBackends (desiredBackend bs) current)
     (after_adds (updateBackends (desiredBackend bs) current) (weights current)) k =
   (if k \<in> backendKey ` set bs
    then Some (sum_list (map weightToAdd (filter (\<lambda>b. backendKey b = k) bs)))
    else None)"
proof (cases "map_of (desiredBackend bs) k")
  case None
  then have "k \<notin> backendKey ` set bs"
    using desiredBackend_key by metis
  then show ?thesis
    using None
    by (auto simp: after_removes_lookup removeBackends_key after_adds_lookup updateBackends_distinct
        updateBackends_lookup desired_has_key weights_None_iff)
next
  case (Some b)
  then have k: "k \<in> backendKey ` set bs" "backendKey b = k"
    using desiredBackend_key desiredBackend_origin by blast+
  then show ?thesis
    using Some desiredBackend_weight [OF Some]
    by (auto simp: after_removes_lookup removeBackends_key after_adds_lookup updateBackends_distinct
        updateBackends_lookup desired_has_key needs_update_iff)
qed

text \<open>
  C22: the plan has no request too many: nothing is added that is there with the right weight,
  only addresses that are there and not desired are removed, and there is nothing to send, and
  no reason to drop the cache, exactly when the servers are the desired ones already.
\<close>

theorem plan_minimal:
  "(\<forall>(k, b) \<in> set (updateBackends (desiredBackend bs) current).
      weights current k \<noteq> Some (be_Weight b)) \<and>
   (\<forall>(k, b) \<in> set (removeBackends (desiredBackend bs) current).
      weights current k \<noteq> None \<and> k \<notin> backendKey ` set bs) \<and>
   (updateBackends (desiredBackend bs) current = [] \<and> removeBackends (desiredBackend bs) current = [] \<longleftrightarrow>
     (\<forall>k. weights current k = map_option be_Weight (map_of (desiredBackend bs) k)))"
proof (intro conjI)
  have origin: "backendKey b = k" if "(k, b) \<in> set (desiredBackend bs)" for k b
    using that desiredBackend_distinct by (intro desiredBackend_origin) simp
  show "\<forall>(k, b) \<in> set (updateBackends (desiredBackend bs) current).
      weights current k \<noteq> Some (be_Weight b)"
    by (auto simp: updateBackends_def needs_update_iff dest: origin)
  show "\<forall>(k, b) \<in> set (removeBackends (desiredBackend bs) current).
      weights current k \<noteq> None \<and> k \<notin> backendKey ` set bs"
  proof (clarify)
    fix k b
    assume "(k, b) \<in> set (removeBackends (desiredBackend bs) current)"
    then have "has_key (removeBackends (desiredBackend bs) current) k"
      by (force simp: has_key_iff)
    then show "weights current k \<noteq> None \<and> k \<notin> backendKey ` set bs"
      by (auto simp: removeBackends_key desired_has_key weights_None_iff)
  qed
  have "map_of (updateBackends (desiredBackend bs) current) k = None \<and>
      \<not> has_key (removeBackends (desiredBackend bs) current) k \<longleftrightarrow>
      weights current k = map_option be_Weight (map_of (desiredBackend bs) k)" for k
  proof (cases "map_of (desiredBackend bs) k")
    case None
    then have "\<not> has_key (desiredBackend bs) k"
      by (simp add: has_key_def)
    with None show ?thesis
      by (auto simp: updateBackends_lookup removeBackends_key weights_None_iff)
  next
    case (Some b)
    then have "has_key (desiredBackend bs) k"
      by (simp add: has_key_def)
    with Some desiredBackend_origin [OF Some] show ?thesis
      by (auto simp: updateBackends_lookup removeBackends_key needs_update_iff)
  qed
  then show "updateBackends (desiredBackend bs) current = [] \<and> removeBackends (desiredBackend bs) current = [] \<longleftrightarrow>
     (\<forall>k. weights current k = map_option be_Weight (map_of (desiredBackend bs) k))"
    by (simp only: map_empty_iff has_key_def) blast
qed

theorem plan_minimal_witness:
  "(let new = \<lparr>be_IP = ''10.0.0.1'', be_Port = 80, be_Weight = 2\<rparr>;
       old = \<lparr>be_IP = ''10.0.0.1'', be_Port = 80, be_Weight = 1\<rparr>
    in (backendKey new, new) \<in> set (updateBackends (desiredBackend [new]) [old]) \<and>
       weights [old] (backendKey new) \<noteq> Some 2)"
proof -
  let ?new = "\<lparr>be_IP = ''10.0.0.1'', be_Port = 80, be_Weight = 2\<rparr>"
  let ?old = "\<lparr>be_IP = ''10.0.0.1'', be_Port = 80, be_Weight = 1\<rparr>"
  have "(backendKey ?new, ?new) \<in> set (updateBackends (desiredBackend [?new]) [?old])"
    by (simp add: updateBackends_def desiredBackend_def desired_add_def weightToAdd_def needs_update_def
        sameBackend_def)
  with plan_minimal [of "[?new]" "[?old]"] show ?thesis
    by (auto simp: Let_def)
qed

section \<open>The paths\<close>

lemma int_dec_unreserved: "list_all unreserved (int_dec i)"
proof -
  have "unreserved CHR ''-''" by (simp add: unreserved_def)
  then show ?thesis
    unfolding list_all_iff using int_dec_bytes [of _ i] by (auto simp: unreserved_def is_alnum_def)
qed

lemma parse_pair_dec:
  assumes "list_all unreserved k" and "k \<noteq> ''''"
  shows "parse_pair (k @ CHR ''='' # int_dec i) = [(k, int_dec i)]"
proof -
  have "CHR '';'' \<notin> set k" "CHR ''='' \<notin> set k" "CHR '';'' \<notin> set (int_dec i)"
    using assms(1) int_dec_unreserved [of i]
    by (auto simp: list_all_iff unreserved_def is_alnum_def is_digit_def)
  then show ?thesis
    using assms
    by (simp add: parse_pair_def ContainsByte_def Cut_append_sep QueryUnescape_plain int_dec_unreserved)
qed

lemma parse_pair_flag:
  assumes "list_all unreserved k" and "k \<noteq> ''''"
  shows "parse_pair (k @ ''='') = [(k, '''')]"
  using parse_pair_escaped [OF assms, of "''''"] by simp

lemma amp_not_in_int_dec [simp]: "CHR ''&'' \<notin> set (int_dec i)"
  using int_dec_unreserved [of i]
  by (auto simp: list_all_iff unreserved_def is_alnum_def is_digit_def)

lemma unreserved_names [simp]:
  "list_all unreserved ''upstream''" "list_all unreserved ''server''" "list_all unreserved ''weight''"
  "list_all unreserved ''add''" "list_all unreserved ''remove''"
  by (simp_all add: unreserved_def is_alnum_def is_digit_def)

lemma ParseQuery_two:
  "ParseQuery (''upstream='' @ QueryEscape n @ ''&server='' @ QueryEscape s) =
     [(''upstream'', n), (''server'', s)]"
proof -
  have "ParseQuery (''upstream='' @ QueryEscape n) = [(''upstream'', n)]"
    by (subst ParseQuery_pair)
      (use parse_pair_escaped [OF unreserved_names(1), of n] in \<open>simp_all add: QueryEscape_separators\<close>)
  moreover have "ParseQuery (''server='' @ QueryEscape s) = [(''server'', s)]"
    by (subst ParseQuery_pair)
      (use parse_pair_escaped [OF unreserved_names(2), of s] in \<open>simp_all add: QueryEscape_separators\<close>)
  ultimately show ?thesis
    using ParseQuery_amp [of "''upstream='' @ QueryEscape n" "''server='' @ QueryEscape s"] by simp
qed

lemma ParseQuery_weight: "ParseQuery (''weight='' @ int_dec w) = [(''weight'', int_dec w)]"
  by (subst ParseQuery_pair) (use parse_pair_dec [OF unreserved_names(3), of w] in simp_all)

lemma ParseQuery_flag: "ParseQuery ''add='' = [(''add'', '''')]" "ParseQuery ''remove='' = [(''remove'', '''')]"
  using parse_pair_flag [OF unreserved_names(4)] parse_pair_flag [OF unreserved_names(5)]
  by (simp_all add: ParseQuery_pair)

text \<open>The parameters of the query of a path, and those that the configured API brings along.\<close>

definition path_params :: "string \<Rightarrow> (string \<times> string) list" where
  "path_params path = (case Cut path CHR ''?'' of Some (_, q) \<Rightarrow> ParseQuery q | None \<Rightarrow> [])"

lemma Cut_append: "Cut s c = Some (a, b) \<Longrightarrow> Cut (s @ r) c = Some (a, b @ r)"
  by (induction s arbitrary: a) (auto split: if_splits option.splits)

lemma path_params_api:
  "path_params (api @ (if ContainsByte api CHR ''?'' then ''&'' else ''?'') @ q) =
     path_params api @ ParseQuery q"
proof (cases "Cut api CHR ''?''")
  case None
  then have "CHR ''?'' \<notin> set api" by (simp add: Cut_None_iff)
  with None show ?thesis
    by (simp add: path_params_def ContainsByte_def Cut_append_sep)
next
  case (Some ab)
  then obtain a b where ab: "ab = (a, b)" by fastforce
  have "CHR ''?'' \<in> set api"
    using Some Cut_None_iff [of api "CHR ''?''"] by auto
  moreover have "Cut (api @ r) CHR ''?'' = Some (a, b @ r)" for r
    using Some ab Cut_append by simp
  ultimately show ?thesis
    using Some ab ParseQuery_amp [of b q] by (simp add: path_params_def ContainsByte_def)
qed

lemma build_paths_decode:
  "path_params (buildAddPath cfg name server weight) =
     path_params (TrimPrefix (ngx_AddAPI cfg) ''/'') @
     [(''upstream'', name), (''server'', server), (''weight'', int_dec (sint weight))] @
     (if hasQueryParam (ngx_AddAPI cfg) ''add'' then [] else [(''add'', '''')]) \<and>
   path_params (buildRemovePath cfg name server) =
     path_params (TrimPrefix (ngx_RemoveAPI cfg) ''/'') @
     [(''upstream'', name), (''server'', server)] @
     (if hasQueryParam (ngx_RemoveAPI cfg) ''remove'' then [] else [(''remove'', '''')])"
proof
  let ?two = "''upstream='' @ QueryEscape name @ ''&server='' @ QueryEscape server"
  have w: "ParseQuery (?two @ ''&weight='' @ int_dec (sint weight)) =
      [(''upstream'', name), (''server'', server), (''weight'', int_dec (sint weight))]"
    using ParseQuery_amp [of ?two "''weight='' @ int_dec (sint weight)"]
    by (simp add: ParseQuery_two [simplified] ParseQuery_weight [simplified])
  have a: "ParseQuery ((?two @ ''&weight='' @ int_dec (sint weight)) @ ''&add='') =
      [(''upstream'', name), (''server'', server), (''weight'', int_dec (sint weight)), (''add'', '''')]"
    using ParseQuery_amp [of "?two @ ''&weight='' @ int_dec (sint weight)" "''add=''"] w
    by (simp add: ParseQuery_flag)
  have r: "ParseQuery (?two @ ''&remove='') =
      [(''upstream'', name), (''server'', server), (''remove'', '''')]"
    using ParseQuery_amp [of ?two "''remove=''"]
    by (simp add: ParseQuery_two [simplified] ParseQuery_flag)
  show "path_params (buildAddPath cfg name server weight) =
     path_params (TrimPrefix (ngx_AddAPI cfg) ''/'') @
     [(''upstream'', name), (''server'', server), (''weight'', int_dec (sint weight))] @
     (if hasQueryParam (ngx_AddAPI cfg) ''add'' then [] else [(''add'', '''')])"
    using w a path_params_api [of "TrimPrefix (ngx_AddAPI cfg) ''/''" "?two @ ''&weight='' @ int_dec (sint weight)"]
      path_params_api [of "TrimPrefix (ngx_AddAPI cfg) ''/''" "(?two @ ''&weight='' @ int_dec (sint weight)) @ ''&add=''"]
    by (simp add: buildAddPath_def Let_def)
  show "path_params (buildRemovePath cfg name server) =
     path_params (TrimPrefix (ngx_RemoveAPI cfg) ''/'') @
     [(''upstream'', name), (''server'', server)] @
     (if hasQueryParam (ngx_RemoveAPI cfg) ''remove'' then [] else [(''remove'', '''')])"
    using ParseQuery_two [of name server] r path_params_api [of "TrimPrefix (ngx_RemoveAPI cfg) ''/''" ?two]
      path_params_api [of "TrimPrefix (ngx_RemoveAPI cfg) ''/''" "?two @ ''&remove=''"]
    by (simp add: buildRemovePath_def Let_def)
qed

text \<open>
  C29: the paths of the add and remove APIs say what they mean, whatever the names contain: read
  back from the query, they have the parameters of the configured API, then the upstream, the
  server and (to add) the weight, and the marker \<open>add\<close> or \<open>remove\<close> where the configured API does
  not bring it along.
\<close>

theorem build_paths_params:
  "path_params (buildAddPath cfg name server weight) =
     path_params (TrimPrefix (ngx_AddAPI cfg) ''/'') @
     [(''upstream'', name), (''server'', server), (''weight'', int_dec (sint weight))] @
     (if hasQueryParam (ngx_AddAPI cfg) ''add'' then [] else [(''add'', '''')]) \<and>
   path_params (buildRemovePath cfg name server) =
     path_params (TrimPrefix (ngx_RemoveAPI cfg) ''/'') @
     [(''upstream'', name), (''server'', server)] @
     (if hasQueryParam (ngx_RemoveAPI cfg) ''remove'' then [] else [(''remove'', '''')])"
  by (rule build_paths_decode)

section \<open>Requests\<close>

text \<open>An environment that also logs the URL of every request.\<close>

definition logged :: "'n net_env \<Rightarrow> ('n \<times> string list) net_env" where
  "logged env =
     \<lparr>ne_NewRequest = ne_NewRequest env,
      ne_Do = (\<lambda>m u h (n, l). case ne_Do env m u h n of (r, n) \<Rightarrow> (r, (n, l @ [u]))),
      ne_backoff = (\<lambda>t (n, l). case ne_backoff env t n of (e, n) \<Rightarrow> (e, (n, l))),
      ne_Acquire = (\<lambda>(n, l). case ne_Acquire env n of (e, n) \<Rightarrow> (e, (n, l))),
      ne_Release = (\<lambda>(n, l). (ne_Release env n, l)),
      ne_Now = (\<lambda>(n, l). ne_Now env n)\<rparr>"

definition request_url :: "nginx_client \<Rightarrow> string \<Rightarrow> string" where
  "request_url c path = cl_baseURL c @ ''/'' @ TrimPrefix path ''/''"

lemma do_attempts_log:
  assumes "do_attempts (logged env) host m url k i e (n, l) = (r, (n', l'))"
  shows "\<exists>j \<le> k. l' = l @ replicate j url"
  using assms
proof (induction k arbitrary: i e n l r n' l')
  case 0
  then show ?case by auto
next
  case (Suc k)
  show ?case
  proof (cases "ne_NewRequest env m url")
    case (Some x)
    with Suc.prems show ?thesis by (auto simp: logged_def)
  next
    case None
    obtain rep n1 where rep: "ne_Do env m url host n = (rep, n1)" by fastforce
    obtain b n2 where b: "ne_backoff env (100 * 2 ^ i) n1 = (b, n2)" by fastforce
    have "l' = l @ [url] \<or> (\<exists>e'. do_attempts (logged env) host m url k (Suc i) e' (n2, l @ [url]) = (r, (n', l')))"
      using Suc.prems None rep b
      by (auto simp: logged_def Let_def split: http_reply.splits option.splits prod.splits if_splits)
    then show ?thesis
    proof
      assume "l' = l @ [url]"
      then show ?thesis by (intro exI [of _ 1]) simp
    next
      assume "\<exists>e'. do_attempts (logged env) host m url k (Suc i) e' (n2, l @ [url]) = (r, (n', l'))"
      then obtain j where "j \<le> k" "l' = (l @ [url]) @ replicate j url"
        using Suc.IH by blast
      then show ?thesis by (intro exI [of _ "Suc j"]) simp
    qed
  qed
qed

lemma doRequest_log:
  assumes "doRequest (logged env) c m path (n, l) = (r, (n', l'))"
  shows "\<exists>j \<le> 3. l' = l @ replicate j (request_url c path)"
  unfolding request_url_def
  by (rule do_attempts_log [OF assms [unfolded doRequest_def Let_def]])

text \<open>Replies after which the client tries again.\<close>

definition retriable :: "http_reply \<Rightarrow> bool" where
  "retriable reply =
     (case reply of
        Reply status _ _ \<Rightarrow> status \<noteq> 200 \<and> \<not> (400 \<le> status \<and> status < 500 \<and> status \<noteq> 429)
      | DoError _ \<Rightarrow> True
      | ReplyError status _ \<Rightarrow> \<not> (400 \<le> status \<and> status < 500 \<and> status \<noteq> 429))"

lemma do_attempts_exhausted:
  assumes "do_attempts (logged env) host m url k i e (n, l) = (r, (n', l'))"
    and "ne_NewRequest env m url = None"
    and "\<And>n. retriable (fst (ne_Do env m url host n))" and "\<And>t n. fst (ne_backoff env t n) = None"
  shows "l' = l @ replicate k url \<and> isl r"
  using assms(1)
proof (induction k arbitrary: i e n l)
  case 0
  then show ?case by auto
next
  case (Suc k)
  obtain rep n1 where rep: "ne_Do env m url host n = (rep, n1)" by fastforce
  obtain n2 where b: "ne_backoff env (100 * 2 ^ i) n1 = (None, n2)"
    using assms(4) by (metis prod.collapse)
  have "retriable rep"
    using assms(3) [of n] rep by simp
  then have "\<exists>e'. do_attempts (logged env) host m url k (Suc i) e' (n2, l @ [url]) = (r, (n', l'))"
    using Suc.prems assms(2) rep b
    by (auto simp: logged_def Let_def retriable_def split: http_reply.splits prod.splits if_splits)
  then obtain e' where "do_attempts (logged env) host m url k (Suc i) e' (n2, l @ [url]) = (r, (n', l'))" ..
  from Suc.IH [OF this] show ?case by simp
qed

lemma do_attempts_body:
  assumes "do_attempts (logged env) host m url k i e (n, l) = (Inr body, (n', l'))"
  shows "length body \<le> 10 * 1024 * 1024 \<and> length l < length l'"
  using assms
proof (induction k arbitrary: i e n l)
  case 0
  then show ?case by simp
next
  case (Suc k)
  show ?case
  proof (cases "ne_NewRequest env m url")
    case (Some x)
    with Suc.prems show ?thesis by (auto simp: logged_def)
  next
    case None
    obtain rep n1 where rep: "ne_Do env m url host n = (rep, n1)" by fastforce
    obtain b n2 where b: "ne_backoff env (100 * 2 ^ i) n1 = (b, n2)" by fastforce
    have "length body \<le> 10 * 1024 * 1024 \<and> l' = l @ [url] \<or>
        (\<exists>e'. do_attempts (logged env) host m url k (Suc i) e' (n2, l @ [url]) = (Inr body, (n', l')))"
      using Suc.prems None rep b
      by (auto simp: logged_def Let_def ReadAllLimited_def
          split: http_reply.splits option.splits prod.splits if_splits)
    then show ?thesis
      using Suc.IH by fastforce
  qed
qed

lemma do_attempts_first:
  assumes "do_attempts (logged env) host m url (Suc k) i e (n, l) = (r, (n', l'))"
    and "ne_NewRequest env m url = None"
  shows "ne_Do env m url host n = (Reply 200 body None, n1) \<Longrightarrow>
      r = Inr (take (10 * 1024 * 1024) body) \<and> l' = l @ [url]"
    and "ne_Do env m url host n = (Reply status body err, n1) \<and> 400 \<le> status \<and> status < 500 \<and> status \<noteq> 429 \<Longrightarrow>
      r = Inl (status_error status (take (1024 * 1024) body)) \<and> l' = l @ [url]"
  using assms by (auto simp: logged_def Let_def ReadAllLimited_def)

text \<open>
  C32: a request is sent at most three times, always to the same URL, and an answer is at most
  10 MB long and comes from a request that was sent. A first answer with status 200 is returned
  at once, and so is a client error other than 429, as an error; if every attempt ends in
  another status or without an answer, and the context is not done while backing off, there are
  exactly three attempts and an error.
\<close>

theorem doRequest_retries:
  assumes "ne_NewRequest env m (request_url c path) = None"
    and "doRequest (logged env) c m path (n, []) = (r, (n', urls))"
  shows "(\<exists>j \<le> 3. urls = replicate j (request_url c path)) \<and>
    (\<forall>body. r = Inr body \<longrightarrow> length body \<le> 10 * 1024 * 1024 \<and> urls \<noteq> []) \<and>
    (\<forall>body n1. ne_Do env m (request_url c path) (cl_host c) n = (Reply 200 body None, n1) \<longrightarrow>
      r = Inr (take (10 * 1024 * 1024) body) \<and> urls = [request_url c path]) \<and>
    (\<forall>status body err n1.
      ne_Do env m (request_url c path) (cl_host c) n = (Reply status body err, n1) \<and>
      400 \<le> status \<and> status < 500 \<and> status \<noteq> 429 \<longrightarrow>
      r = Inl (status_error status (take (1024 * 1024) body)) \<and> urls = [request_url c path]) \<and>
    ((\<forall>n. retriable (fst (ne_Do env m (request_url c path) (cl_host c) n))) \<and>
      (\<forall>t n. fst (ne_backoff env t n) = None) \<longrightarrow>
      urls = replicate 3 (request_url c path) \<and> isl r)"
proof (intro conjI allI impI)
  have run: "do_attempts (logged env) (cl_host c) m (request_url c path) 3 0 None (n, []) = (r, (n', urls))"
    using assms(2) by (simp add: doRequest_def request_url_def)
  note first = do_attempts_first [OF run [unfolded numeral_3_eq_3] assms(1)]
  show "\<exists>j \<le> 3. urls = replicate j (request_url c path)"
    using do_attempts_log [OF run] by simp
  {
    fix body
    assume "r = Inr body"
    with do_attempts_body [of env "cl_host c" m "request_url c path" 3 0 None n "[]" body n' urls] run
    show "length body \<le> 10 * 1024 * 1024" "urls \<noteq> []" by auto
  }
  {
    fix body n1
    assume "ne_Do env m (request_url c path) (cl_host c) n = (Reply 200 body None, n1)"
    from first(1) [OF this] show "r = Inr (take (10 * 1024 * 1024) body)" "urls = [request_url c path]"
      by simp_all
  }
  {
    fix status body err n1
    assume "ne_Do env m (request_url c path) (cl_host c) n = (Reply status body err, n1) \<and>
      400 \<le> status \<and> status < 500 \<and> status \<noteq> 429"
    from first(2) [OF this] show "r = Inl (status_error status (take (1024 * 1024) body))"
        "urls = [request_url c path]"
      by simp_all
  }
  assume "(\<forall>n. retriable (fst (ne_Do env m (request_url c path) (cl_host c) n))) \<and>
      (\<forall>t n. fst (ne_backoff env t n) = None)"
  with do_attempts_exhausted [OF run assms(1)]
  show "urls = replicate 3 (request_url c path)" "isl r" by auto
qed

definition demo_http :: http_client where
  "demo_http = \<lparr>hc_Timeout = 30, hc_ServerName = '''', hc_Certificates = [], hc_RootCAs = None\<rparr>"

text \<open>An environment in which every request fails with the given status.\<close>

definition failing_env :: "int \<Rightarrow> unit net_env" where
  "failing_env status =
     \<lparr>ne_NewRequest = (\<lambda>m u. None), ne_Do = (\<lambda>m u h n. (Reply status '''' None, n)),
      ne_backoff = (\<lambda>t n. (None, n)), ne_Acquire = (\<lambda>n. (None, n)), ne_Release = (\<lambda>n. n),
      ne_Now = (\<lambda>n. 0)\<rparr>"

theorem doRequest_retries_witness:
  "let c = \<lparr>cl_client = demo_http, cl_baseURL = ''http://10.0.0.9:80'', cl_host = ''''\<rparr> in
   snd (snd (doRequest (logged (failing_env 503)) c ''GET'' ''list'' ((), []))) =
     replicate 3 ''http://10.0.0.9:80/list''"
proof -
  let ?c = "\<lparr>cl_client = demo_http, cl_baseURL = ''http://10.0.0.9:80'', cl_host = ''''\<rparr>"
  obtain r n' urls where run: "doRequest (logged (failing_env 503)) ?c ''GET'' ''list'' ((), []) = (r, (n', urls))"
    by (metis prod.collapse)
  have "ne_NewRequest (failing_env 503) ''GET'' (request_url ?c ''list'') = None"
    by (simp add: failing_env_def)
  from doRequest_retries [OF this run] have "urls = replicate 3 (request_url ?c ''list'')"
    by (simp add: failing_env_def retriable_def)
  with run show ?thesis
    by (simp add: Let_def request_url_def TrimPrefix_def HasPrefix_def)
qed

section \<open>Which upstreams are touched\<close>

text \<open>The URLs of requests that add to or remove from an upstream.\<close>

definition touches :: "nginx_config \<Rightarrow> nginx_client \<Rightarrow> string \<Rightarrow> string set" where
  "touches cfg c name =
     {request_url c (buildAddPath cfg name server weight) | server weight. True} \<union>
     {request_url c (buildRemovePath cfg name server) | server. True}"

definition list_url :: "nginx_config \<Rightarrow> nginx_client \<Rightarrow> string" where
  "list_url cfg c = request_url c (TrimPrefix (ngx_ListAPI cfg) ''/'')"

definition log_of :: "('n \<times> string list) nginx \<Rightarrow> string set" where
  "log_of st = set (snd (ng_net st))"

lemma doRequest_log_set:
  "set (snd (snd (doRequest (logged env) c m path nl))) \<subseteq> set (snd nl) \<union> {request_url c path}"
proof -
  obtain n l where nl: "nl = (n, l)" by fastforce
  obtain r n' l' where run: "doRequest (logged env) c m path (n, l) = (r, (n', l'))"
    by (metis prod.collapse)
  from doRequest_log [OF run] show ?thesis
    unfolding nl run by auto
qed

lemma refreshCache_log:
  "log_of (snd (refreshCache (logged env) a c st)) \<subseteq> log_of st \<union> {list_url (na_config a) c}"
  using doRequest_log_set [of env c "''GET''" "TrimPrefix (ngx_ListAPI (na_config a)) ''/''" "ng_net st"]
  unfolding refreshCache_def log_of_def list_url_def Let_def
  by (auto split: option.split sum.split prod.split)

lemma send_log:
  assumes "list_all (\<lambda>p. request_url c p \<in> U) paths"
  shows "set (snd (snd (foldl (send (logged env) c what) st paths))) \<subseteq> set (snd (snd st)) \<union> U"
  using assms
proof (induction paths arbitrary: st)
  case (Cons p paths)
  have "snd (send (logged env) c what st p) = snd (doRequest (logged env) c ''GET'' p (snd st))"
    by (simp add: send_def split: sum.split prod.split)
  then have "set (snd (snd (send (logged env) c what st p))) \<subseteq> set (snd (snd st)) \<union> U"
    using doRequest_log_set [of env c "''GET''" p "snd st"] Cons.prems by auto
  with Cons.IH [of "send (logged env) c what st p"] Cons.prems show ?case by auto
qed simp

lemma ng_net_invalidate [simp]: "ng_net (invalidateCache u st) = ng_net st"
  by (simp add: invalidateCache_def)

lemma sync_client_log:
  "log_of (snd (sync_client (logged env) a u c st)) \<subseteq>
     log_of st \<union> {list_url (na_config a) c} \<union> touches (na_config a) c (up_Name u)"
proof -
  obtain r st1 where fetch: "refreshCache (logged env) a c st = (r, st1)" by fastforce
  have st1: "log_of st1 \<subseteq> log_of st \<union> {list_url (na_config a) c}"
    using refreshCache_log [of env a c st] fetch by simp
  show ?thesis
  proof (cases r)
    case (Inl e)
    with fetch st1 show ?thesis by (auto simp: sync_client_def)
  next
    case (Inr ups)
    let ?U = "touches (na_config a) c (up_Name u)"
    let ?desired = "desiredBackend (up_Backends u)" and ?current = "currentBackends ups (up_Name u)"
    let ?adds = "add_paths (na_config a) (up_Name u) (updateBackends ?desired ?current)"
    let ?removes = "remove_paths (na_config a) (up_Name u) (removeBackends ?desired ?current)"
    obtain e1 n1 where adds: "foldl (send (logged env) c ''add'') ([], ng_net st1) ?adds = (e1, n1)"
      by (meson surj_pair)
    obtain e2 n2 where removes: "foldl (send (logged env) c ''remove'') (e1, n1) ?removes = (e2, n2)"
      by (meson surj_pair)
    have "list_all (\<lambda>p. request_url c p \<in> ?U) ?adds" "list_all (\<lambda>p. request_url c p \<in> ?U) ?removes"
      by (auto simp: list_all_iff add_paths_def remove_paths_def touches_def)
    then have "set (snd n1) \<subseteq> set (snd (ng_net st1)) \<union> ?U" "set (snd n2) \<subseteq> set (snd n1) \<union> ?U"
      using send_log [of c ?U ?adds env "''add''" "([], ng_net st1)"]
        send_log [of c ?U ?removes env "''remove''" "(e1, n1)"]
      by (simp_all add: adds removes)
    moreover have "ng_net (snd (sync_client (logged env) a u c st)) = n2"
      using fetch Inr adds removes by (simp add: sync_client_def Let_def)
    ultimately show ?thesis
      using st1 by (auto simp: log_of_def)
  qed
qed

lemma subset_Un_trans: "A \<subseteq> B \<union> U \<Longrightarrow> B \<subseteq> C \<union> U \<Longrightarrow> A \<subseteq> C \<union> U"
  by blast

lemma goroutine_log:
  assumes "\<And>s. log_of (snd (body c s)) \<subseteq> log_of s \<union> U"
  shows "log_of (snd (goroutine (logged env) body st c)) \<subseteq> log_of (snd st) \<union> U"
proof -
  obtain n l where nl: "ng_net (snd st) = (n, l)" by fastforce
  obtain e n1 where acq: "ne_Acquire env n = (e, n1)" by fastforce
  show ?thesis
  proof (cases e)
    case (Some x)
    with nl acq show ?thesis by (simp add: goroutine_def logged_def log_of_def)
  next
    case None
    let ?s = "(snd st)\<lparr>ng_net := (n1, l)\<rparr>"
    obtain errs s where run: "body c ?s = (errs, s)" by fastforce
    obtain n2 l2 where s: "ng_net s = (n2, l2)" by fastforce
    have "log_of s \<subseteq> log_of ?s \<union> U"
      using assms [of ?s] run by simp
    with None nl acq run s show ?thesis
      by (simp add: goroutine_def logged_def log_of_def)
  qed
qed

lemma goroutines_log:
  assumes "\<And>c s. c \<in> set cs \<Longrightarrow> log_of (snd (body c s)) \<subseteq> log_of s \<union> U"
  shows "log_of (snd (foldl (goroutine (logged env) body) st cs)) \<subseteq> log_of (snd st) \<union> U"
  using assms
proof (induction cs arbitrary: st)
  case (Cons c cs)
  have "log_of (snd (goroutine (logged env) body st c)) \<subseteq> log_of (snd st) \<union> U"
    by (rule goroutine_log) (use Cons.prems in simp)
  moreover have "log_of (snd (foldl (goroutine (logged env) body) (goroutine (logged env) body st c) cs)) \<subseteq>
      log_of (snd (goroutine (logged env) body st c)) \<union> U"
    by (rule Cons.IH) (use Cons.prems in simp)
  ultimately show ?case by auto
qed simp

lemma remove_orphans_log:
  "set (snd (snd (snd (foldl (remove_orphan (logged env) a c name) st bs)))) \<subseteq>
     set (snd (snd (snd st))) \<union> touches (na_config a) c name"
proof (induction bs arbitrary: st)
  case (Cons b bs)
  let ?path = "buildRemovePath (na_config a) name (formatServerAddr (be_IP b) (be_Port b))"
  obtain errs changed nl where st: "st = (errs, changed, nl)" by (metis prod.collapse)
  have "snd (snd (remove_orphan (logged env) a c name st b)) = snd (doRequest (logged env) c ''GET'' ?path nl)"
    by (simp add: remove_orphan_def st Let_def split: sum.split prod.split)
  moreover have "request_url c ?path \<in> touches (na_config a) c name"
    by (auto simp: touches_def)
  ultimately have "set (snd (snd (snd (remove_orphan (logged env) a c name st b)))) \<subseteq>
      set (snd nl) \<union> touches (na_config a) c name"
    using doRequest_log_set [of env c "''GET''" ?path nl] by auto
  with Cons.IH [of "remove_orphan (logged env) a c name st b"] st show ?case by auto
qed simp

lemma prune_loop_log:
  assumes "\<And>n. n \<noteq> '''' \<Longrightarrow> \<not> has_key desired n \<Longrightarrow> touches (na_config a) c n \<subseteq> U"
  shows "set (snd (snd (snd (foldl (prune_upstream (logged env) a desired c ups) st names)))) \<subseteq>
    set (snd (snd (snd st))) \<union> U"
proof (induction names arbitrary: st)
  case (Cons n names)
  have "set (snd (snd (snd (prune_upstream (logged env) a desired c ups st n)))) \<subseteq> set (snd (snd (snd st))) \<union> U"
    using remove_orphans_log [of env a c n st "slice_get ups n"] assms [of n]
    by (auto simp: prune_upstream_def)
  with Cons.IH [of "prune_upstream (logged env) a desired c ups st n"] show ?case by auto
qed simp

lemma prune_client_log:
  assumes "\<And>n. n \<noteq> '''' \<Longrightarrow> \<not> has_key desired n \<Longrightarrow> touches (na_config a) c n \<subseteq> U"
  shows "log_of (snd (prune_client (logged env) a desired c st)) \<subseteq> log_of st \<union> ({list_url (na_config a) c} \<union> U)"
proof -
  obtain r st1 where fetch: "refreshCache (logged env) a c st = (r, st1)" by fastforce
  have st1: "log_of st1 \<subseteq> log_of st \<union> {list_url (na_config a) c}"
    using refreshCache_log [of env a c st] fetch by simp
  show ?thesis
  proof (cases r)
    case (Inl e)
    with fetch st1 show ?thesis by (auto simp: prune_client_def)
  next
    case (Inr ups)
    obtain errs changed n where loop: "foldl (prune_upstream (logged env) a desired c ups)
        ([], False, ng_net st1) (sort (map fst ups)) = (errs, changed, n)"
      by (metis prod.collapse)
    have "set (snd n) \<subseteq> set (snd (ng_net st1)) \<union> U"
      using prune_loop_log [where desired = desired and a = a and c = c and U = U and env = env and ups = ups
          and names = "sort (map fst ups)" and st = "([], False, ng_net st1)"] assms loop by simp
    moreover have "ng_net (snd (prune_client (logged env) a desired c st)) = n"
      using fetch Inr loop by (simp add: prune_client_def Let_def)
    ultimately show ?thesis
      using st1 by (auto simp: log_of_def)
  qed
qed

text \<open>The URLs that the sync of one upstream may request.\<close>

definition sync_urls :: "nginx_adapter \<Rightarrow> string \<Rightarrow> string set" where
  "sync_urls a name =
     (\<Union>c \<in> set (na_clients a). {list_url (na_config a) c} \<union> touches (na_config a) c name)"

lemma SyncUpstream_log:
  "log_of (snd (SyncUpstream (logged env) a u st)) \<subseteq> log_of st \<union> sync_urls a (up_Name u)"
proof -
  have "log_of (snd (sync_client (logged env) a u c s)) \<subseteq> log_of s \<union> sync_urls a (up_Name u)"
    if "c \<in> set (na_clients a)" for c s
    using sync_client_log [of env a u c s] that by (auto simp: sync_urls_def)
  from goroutines_log [OF this, where st = "([], st)" and cs = "na_clients a"]
  show ?thesis
    by (simp add: SyncUpstream_def case_prod_beta)
qed

lemma sync_desired_log:
  assumes "\<And>e. e \<in> set desired \<Longrightarrow> \<not> up_PreserveExistingBackends (snd e) \<Longrightarrow>
    sync_urls a (up_Name (snd e)) \<subseteq> U"
  shows "log_of (snd (foldl (sync_desired (logged env) a) st desired)) \<subseteq> log_of (snd st) \<union> U"
  using assms
proof (induction desired arbitrary: st)
  case (Cons e desired)
  have "log_of (snd (sync_desired (logged env) a st e)) \<subseteq> log_of (snd st) \<union> U"
  proof (cases "up_PreserveExistingBackends (snd e)")
    case False
    have "snd (sync_desired (logged env) a st e) = snd (SyncUpstream (logged env) a (snd e) (snd st))"
      using False by (simp add: sync_desired_def Let_def split: prod.split option.split)
    moreover have "sync_urls a (up_Name (snd e)) \<subseteq> U"
      using False by (intro Cons.prems) simp_all
    ultimately show ?thesis
      using SyncUpstream_log [of env a "snd e" "snd st"] by auto
  qed (simp add: sync_desired_def)
  moreover have "log_of (snd (foldl (sync_desired (logged env) a) (sync_desired (logged env) a st e) desired)) \<subseteq>
      log_of (snd (sync_desired (logged env) a st e)) \<union> U"
    by (rule Cons.IH) (use Cons.prems in simp)
  ultimately show ?case by auto
qed simp

text \<open>
  C28: a reconciliation touches no upstream that it should leave alone: whatever the network does,
  each URL it requests is the list API of one of the clients, or adds to or removes from an
  upstream that is in the desired state and not preserved, or (only where orphans are pruned)
  from a named upstream that is not in the desired state at all. A preserved upstream gets no
  request.
\<close>

theorem SyncAllUpstreams_touches:
  assumes "url \<in> log_of (snd (SyncAllUpstreams (logged env) a desired st))" and "url \<notin> log_of st"
  shows "\<exists>c \<in> set (na_clients a). url = list_url (na_config a) c \<or>
    (\<exists>name. url \<in> touches (na_config a) c name \<and>
      ((\<exists>k u. (k, u) \<in> set desired \<and> \<not> up_PreserveExistingBackends u \<and> name = up_Name u) \<or>
       ngx_PruneOrphans (na_config a) \<and> name \<noteq> '''' \<and> \<not> has_key desired name))"
proof -
  let ?ok = "\<lambda>name. (\<exists>k u. (k, u) \<in> set desired \<and> \<not> up_PreserveExistingBackends u \<and> name = up_Name u) \<or>
       ngx_PruneOrphans (na_config a) \<and> name \<noteq> '''' \<and> \<not> has_key desired name"
  let ?U = "\<Union>c \<in> set (na_clients a). {list_url (na_config a) c} \<union>
    (\<Union>name \<in> {name. ?ok name}. touches (na_config a) c name)"
  obtain errs st1 where loop: "foldl (sync_desired (logged env) a) ([], st) desired = (errs, st1)"
    by fastforce
  have "sync_urls a (up_Name (snd e)) \<subseteq> ?U"
    if "e \<in> set desired" "\<not> up_PreserveExistingBackends (snd e)" for e
  proof -
    have "(fst e, snd e) \<in> set desired" using that by simp
    with that(2) show ?thesis unfolding sync_urls_def by blast
  qed
  then have "log_of (snd (foldl (sync_desired (logged env) a) ([], st) desired)) \<subseteq>
      log_of (snd ([] :: goerror list, st)) \<union> ?U"
    by (rule sync_desired_log)
  then have st1: "log_of st1 \<subseteq> log_of st \<union> ?U"
    by (simp add: loop)
  have "log_of (snd (SyncAllUpstreams (logged env) a desired st)) \<subseteq> log_of st \<union> ?U"
  proof (cases "ngx_PruneOrphans (na_config a)")
    case False
    with loop st1 show ?thesis by (simp add: SyncAllUpstreams_def)
  next
    case True
    have "log_of (snd (foldl (goroutine (logged env) (prune_client (logged env) a desired)) (errs, st1) (na_clients a))) \<subseteq>
        log_of (snd (errs, st1)) \<union> ?U"
    proof (rule goroutines_log)
      fix c s
      assume c: "c \<in> set (na_clients a)"
      have "log_of (snd (prune_client (logged env) a desired c s)) \<subseteq>
          log_of s \<union> ({list_url (na_config a) c} \<union> (\<Union>name \<in> {name. ?ok name}. touches (na_config a) c name))"
        by (rule prune_client_log) (use True in blast)
      moreover have "{list_url (na_config a) c} \<union> (\<Union>name \<in> {name. ?ok name}. touches (na_config a) c name) \<subseteq> ?U"
        by (rule UN_upper [OF c])
      ultimately show "log_of (snd (prune_client (logged env) a desired c s)) \<subseteq> log_of s \<union> ?U"
        by (rule order.trans [OF _ Un_mono [OF order.refl]])
    qed
    then have "log_of (snd (foldl (goroutine (logged env) (prune_client (logged env) a desired))
        (errs, st1) (na_clients a))) \<subseteq> log_of st \<union> ?U"
      by (rule subset_Un_trans, unfold snd_conv) (rule st1)
    moreover have "snd (SyncAllUpstreams (logged env) a desired st) =
        snd (foldl (goroutine (logged env) (prune_client (logged env) a desired)) (errs, st1) (na_clients a))"
      using loop True by (simp add: SyncAllUpstreams_def case_prod_beta)
    ultimately show ?thesis
      by (simp only:)
  qed
  with assms have "url \<in> ?U" by blast
  then show ?thesis by blast
qed

section \<open>The cache\<close>

text \<open>
  The cache of the list API. With no valid entry for the client (at the start, or after the
  entry was dropped) a request is sent, and a successful answer is parsed, stored and good for two
  seconds: until then the same upstreams come back without any request, whatever happened to the
  rest of the adapter's state; afterwards a request is sent again. A sync that had anything to
  change drops the entry of its client.
\<close>

lemma refreshCache_ttl:
  assumes "map_of (ng_cacheExp st) (cl_baseURL c) = None"
    and "doRequest env c ''GET'' (TrimPrefix (ngx_ListAPI (na_config a)) ''/'') (ng_net st) = (Inr body, n)"
  shows "case refreshCache env a c st of
    (r, st1) \<Rightarrow> r = Inr (parseBulkNginxBackends body) \<and> ng_net st1 = n \<and>
      (\<forall>st2. ng_cache st2 = ng_cache st1 \<and> ng_cacheExp st2 = ng_cacheExp st1 \<longrightarrow>
        (ne_Now env (ng_net st2) < ne_Now env n + 2 * 1000000000 \<longrightarrow>
          refreshCache env a c st2 = (Inr (parseBulkNginxBackends body), st2)) \<and>
        (ne_Now env (ng_net st2) \<ge> ne_Now env n + 2 * 1000000000 \<longrightarrow>
          ng_net (snd (refreshCache env a c st2)) =
            snd (doRequest env c ''GET'' (TrimPrefix (ngx_ListAPI (na_config a)) ''/'') (ng_net st2)))) \<and>
      map_of (ng_cacheExp (invalidateCache (cl_baseURL c) st1)) (cl_baseURL c) = None"
proof -
  have fresh: "refreshCache env a c st =
     (Inr (parseBulkNginxBackends body),
      st\<lparr>ng_cache := AList.update (cl_baseURL c) (parseBulkNginxBackends body) (ng_cache st),
         ng_cacheExp := AList.update (cl_baseURL c) (ne_Now env n + 2 * 1000000000) (ng_cacheExp st),
         ng_net := n\<rparr>)"
    using assms by (simp add: refreshCache_def Let_def)
  show ?thesis
    unfolding fresh prod.case
    by (auto simp: refreshCache_def Let_def invalidateCache_def split: sum.splits prod.splits)
qed

text \<open>A small configuration, client and adapter.\<close>

definition demo_ngx :: nginx_config where
  "demo_ngx =
     \<lparr>ngx_Type = ''nginx'', ngx_Name = ''lb1'', ngx_IPReplacement = False,
      ngx_IPReplacementList = \<lparr>irl_Nets = [], irl_IPs = [], irl_GlobalNets = [], irl_GlobalIPs = []\<rparr>,
      ngx_Addresses = [\<lparr>addr_IP = ''10.0.0.9'', addr_Port = 80\<rparr>],
      ngx_ListAPI = ''/list'', ngx_AddAPI = ''/api?add='', ngx_RemoveAPI = ''/api?remove='',
      ngx_UpstreamSyncPeriod = 0, ngx_FailTimeout = 0, ngx_RequestTimeout = 0, ngx_Protocol = ''http'',
      ngx_Hostname = '''', ngx_CertPath = '''', ngx_KeyPath = '''', ngx_CAPath = '''', ngx_Cert = '''',
      ngx_Key = '''', ngx_CA = '''', ngx_RequestPoolSize = 0, ngx_PruneOrphans = False,
      ngx_AllowEmptyUpstream = False, ngx_DefaultBackend = None\<rparr>"

definition demo_client :: nginx_client where
  "demo_client = \<lparr>cl_client = demo_http, cl_baseURL = ''http://10.0.0.9:80'', cl_host = ''''\<rparr>"

definition demo_adapter :: nginx_adapter where
  "demo_adapter = \<lparr>na_clients = [demo_client], na_config = demo_ngx, na_semaphore = 5\<rparr>"

definition demo_state :: "'n \<Rightarrow> 'n nginx" where
  "demo_state n = \<lparr>ng_cache = [], ng_cacheExp = [], ng_net = n\<rparr>"

lemma demo_list_path: "TrimPrefix (ngx_ListAPI (na_config demo_adapter)) ''/'' = ''list''"
  by (simp add: demo_adapter_def demo_ngx_def TrimPrefix_def HasPrefix_def)

lemma demo_doRequest: "doRequest (failing_env 200) demo_client ''GET'' ''list'' () = (Inr '''', ())"
  by (simp add: doRequest_def failing_env_def ReadAllLimited_def numeral_3_eq_3 Let_def)

lemma refreshCache_ttl_witness:
  "fst (refreshCache (failing_env 200) demo_adapter demo_client (demo_state ())) =
     Inr (parseBulkNginxBackends '''')"
proof -
  obtain r s where eq: "refreshCache (failing_env 200) demo_adapter demo_client (demo_state ()) = (r, s)"
    by fastforce
  have "map_of (ng_cacheExp (demo_state ())) (cl_baseURL demo_client) = None"
    "doRequest (failing_env 200) demo_client ''GET'' (TrimPrefix (ngx_ListAPI (na_config demo_adapter)) ''/'')
       (ng_net (demo_state ())) = (Inr '''', ())"
    using demo_doRequest unfolding demo_list_path by (simp_all add: demo_state_def)
  from refreshCache_ttl [OF this, unfolded eq prod.case] have "r = Inr (parseBulkNginxBackends '''')"
    by (rule conjunct1)
  with eq show ?thesis by simp
qed

theorem SyncAllUpstreams_touches_witness:
  "log_of (snd (SyncAllUpstreams (logged (failing_env 200)) demo_adapter [] (demo_state ((), [])))) \<subseteq>
     {list_url demo_ngx demo_client}"
proof
  fix url
  assume url: "url \<in> log_of (snd (SyncAllUpstreams (logged (failing_env 200)) demo_adapter []
    (demo_state ((), []))))"
  have "url \<notin> log_of (demo_state ((), []))"
    by (simp add: log_of_def demo_state_def)
  from SyncAllUpstreams_touches [OF url this] show "url \<in> {list_url demo_ngx demo_client}"
    by (auto simp: demo_adapter_def demo_ngx_def)
qed

end
