(* ===== verification/NginxServer.thy ===== *)
theory NginxServer
  imports NginxProps
begin

text \<open>
  The adapter against running NGINX servers. The dynamic upstream module is third-party code; what
  the adapter relies on is \<open>nginx_servers\<close>, over an abstraction \<open>S\<close> of what each server serves:
  the list API lists it, an add request adds a server, a remove request removes one, and nothing
  else changes. Whether an add request for a server that is already there replaces its weight, or
  is refused with status 400, is left open (\<open>replaces\<close>). Under these laws, and as long as nobody
  else changes the servers, a sync brings them to what is desired.
\<close>

section \<open>What a server serves\<close>

text \<open>For each upstream and each server address the weight, if it is there.\<close>

type_synonym served = "string \<Rightarrow> string \<Rightarrow> 64 word option"

definition server_addr :: "backend \<Rightarrow> string" where
  "server_addr b = formatServerAddr (be_IP b) (be_Port b)"

definition listed :: "nginx_upstreams \<Rightarrow> served" where
  "listed ups up s = map_option be_Weight (find (\<lambda>b. server_addr b = s) (slice_get ups up))"

definition listing_ok :: "nginx_upstreams \<Rightarrow> bool" where
  "listing_ok ups \<longleftrightarrow> distinct (map fst ups) \<and>
     list_all (\<lambda>(up, bs). up \<noteq> '''' \<and> distinct (map server_addr bs)) ups"

definition set_served ::
  "(nginx_client \<Rightarrow> served) \<Rightarrow> nginx_client \<Rightarrow> string \<Rightarrow> (string \<Rightarrow> 64 word option) \<Rightarrow>
    nginx_client \<Rightarrow> served" where
  "set_served S c up f = S(c := (S c)(up := f))"

text \<open>The server answers a request with a status and a complete body.\<close>

definition answers :: "'n net_env \<Rightarrow> nginx_client \<Rightarrow> string \<Rightarrow> 'n \<Rightarrow> int \<Rightarrow> string \<Rightarrow> 'n \<Rightarrow> bool" where
  "answers env c path n status body n1 \<longleftrightarrow>
     ne_NewRequest env ''GET'' (request_url c path) = None \<and>
     ne_Do env ''GET'' (request_url c path) (cl_host c) n = (Reply status body None, n1)"

text \<open>
  The laws: \<open>I\<close> holds of the worlds considered, \<open>ok\<close> of the upstreams and servers there is room for.
\<close>

definition nginx_servers ::
  "'n net_env \<Rightarrow> nginx_config \<Rightarrow> nginx_client list \<Rightarrow> bool \<Rightarrow> (string \<Rightarrow> backend \<Rightarrow> bool) \<Rightarrow>
    ('n \<Rightarrow> bool) \<Rightarrow> ('n \<Rightarrow> nginx_client \<Rightarrow> served) \<Rightarrow> bool" where
  "nginx_servers env cfg cs replaces ok I S \<longleftrightarrow>
     (\<forall>n. I n \<longrightarrow>
        (\<exists>n1. ne_Acquire env n = (None, n1) \<and> I n1 \<and> S n1 = S n) \<and>
        I (ne_Release env n) \<and> S (ne_Release env n) = S n) \<and>
     (\<forall>c \<in> set cs. \<forall>n. I n \<longrightarrow>
        (\<exists>body n1. answers env c (TrimPrefix (ngx_ListAPI cfg) ''/'') n 200 body n1 \<and>
           length body \<le> 10 * 1024 * 1024 \<and> listing_ok (parseBulkNginxBackends body) \<and>
           listed (parseBulkNginxBackends body) = S n c \<and> I n1 \<and> S n1 = S n) \<and>
        (\<forall>up b. ok up b \<longrightarrow>
           (let s = server_addr b; added = (replaces \<or> S n c up s = None) in
            \<exists>body n1. answers env c (buildAddPath cfg up s (be_Weight b)) n (if added then 200 else 400) body n1 \<and>
              I n1 \<and>
              S n1 = (if added then set_served (S n) c up ((S n c up)(s \<mapsto> be_Weight b)) else S n))) \<and>
        (\<forall>up s. S n c up s \<noteq> None \<longrightarrow>
           (\<exists>body n1. answers env c (buildRemovePath cfg up s) n 200 body n1 \<and>
              I n1 \<and> S n1 = set_served (S n) c up ((S n c up)(s := None)))))"

lemma nginx_servers_list:
  assumes "nginx_servers env cfg cs replaces ok I S" and "c \<in> set cs" and "I n"
  obtains body n1 where "answers env c (TrimPrefix (ngx_ListAPI cfg) ''/'') n 200 body n1"
    and "length body \<le> 10 * 1024 * 1024" and "listing_ok (parseBulkNginxBackends body)"
    and "listed (parseBulkNginxBackends body) = S n c" and "I n1" and "S n1 = S n"
proof -
  have "\<exists>body n1. answers env c (TrimPrefix (ngx_ListAPI cfg) ''/'') n 200 body n1 \<and>
           length body \<le> 10 * 1024 * 1024 \<and> listing_ok (parseBulkNginxBackends body) \<and>
           listed (parseBulkNginxBackends body) = S n c \<and> I n1 \<and> S n1 = S n"
    using assms unfolding nginx_servers_def by blast
  with that show ?thesis by (elim exE conjE) rule
qed

lemma nginx_servers_acquire:
  assumes "nginx_servers env cfg cs replaces ok I S" and "I n"
  shows "\<exists>n1. ne_Acquire env n = (None, n1) \<and> I n1 \<and> S n1 = S n"
    and "I (ne_Release env n)" and "S (ne_Release env n) = S n"
  using assms unfolding nginx_servers_def by blast+

section \<open>Single requests\<close>

lemma doRequest_answers:
  assumes "answers env c path n status body n1"
  shows "status = 200 \<Longrightarrow> doRequest env c ''GET'' path n = (Inr (take (10 * 1024 * 1024) body), n1)"
    and "status = 400 \<Longrightarrow> \<exists>e. doRequest env c ''GET'' path n = (Inl e, n1)"
  using assms
  by (simp_all add: doRequest_def answers_def request_url_def Let_def numeral_3_eq_3 ReadAllLimited_def)

lemma send_answers:
  assumes "answers env c path n status body n1"
  shows "status = 200 \<Longrightarrow> send env c what (errs, n) path = (errs, n1)"
    and "status = 400 \<Longrightarrow> \<exists>e. send env c what (errs, n) path = (errs @ [e], n1)"
  using doRequest_answers [OF assms] by (auto simp: send_def)

section \<open>The loops of requests\<close>

text \<open>What adding servers with their weights makes of the servers of an upstream.\<close>

definition overlay ::
  "bool \<Rightarrow> (string \<Rightarrow> 64 word option) \<Rightarrow> (string \<Rightarrow> 64 word option) \<Rightarrow> string \<Rightarrow> 64 word option" where
  "overlay replaces T f s =
     (case T s of None \<Rightarrow> f s | Some w \<Rightarrow> if replaces \<or> f s = None then Some w else f s)"

text \<open>No add request is refused.\<close>

definition agrees :: "bool \<Rightarrow> (string \<Rightarrow> 64 word option) \<Rightarrow> (string \<Rightarrow> 64 word option) \<Rightarrow> bool" where
  "agrees replaces T f \<longleftrightarrow> replaces \<or> (\<forall>s w. T s = Some w \<longrightarrow> f s \<in> {None, Some w})"

definition addresses :: "('k \<times> backend) list \<Rightarrow> string \<Rightarrow> 64 word option" where
  "addresses items = map_of (map (\<lambda>(k, b). (server_addr b, be_Weight b)) items)"

lemma addresses_simps [simp]:
  "addresses [] s = None"
  "addresses ((k, b) # items) s = (if server_addr b = s then Some (be_Weight b) else addresses items s)"
  by (auto simp: addresses_def)

lemma addresses_None_iff: "addresses items s = None \<longleftrightarrow> s \<notin> (server_addr \<circ> snd) ` set items"
  by (force simp: addresses_def map_of_eq_None_iff)

lemma set_served_same [simp]:
  "set_served (set_served S c up f) c up g = set_served S c up g"
  "set_served S c up f c up = f" "set_served S c up (S c up) = S"
  by (simp_all add: set_served_def)

lemma adds_run:
  assumes "nginx_servers env cfg cs replaces ok I S" and "c \<in> set cs"
    and "I n" and "distinct (map (server_addr \<circ> snd) items)" and "list_all (\<lambda>(k, b). ok up b) items"
  shows "\<exists>errs' n'. foldl (send env c what) (errs, n)
      (map (\<lambda>(k, b). buildAddPath cfg up (server_addr b) (be_Weight b)) items) = (errs @ errs', n') \<and>
    I n' \<and> S n' = set_served (S n) c up (overlay replaces (addresses items) (S n c up)) \<and>
    (errs' = [] \<longleftrightarrow> list_all (\<lambda>(k, b). replaces \<or> S n c up (server_addr b) = None) items)"
  using assms(3-5)
proof (induction items arbitrary: errs n)
  case Nil
  have "overlay replaces (\<lambda>s. None) f = f" for f
    by (simp add: overlay_def fun_eq_iff)
  with Nil show ?case by simp
next
  case (Cons item items)
  obtain k b where item: "item = (k, b)" by fastforce
  let ?s = "server_addr b" and ?added = "replaces \<or> S n c up (server_addr b) = None"
  have "ok up b" using Cons.prems(3) item by simp
  then obtain body n1 where n1: "answers env c (buildAddPath cfg up ?s (be_Weight b)) n (if ?added then 200 else 400) body n1"
      "I n1" "S n1 = (if ?added then set_served (S n) c up ((S n c up)(?s \<mapsto> be_Weight b)) else S n)"
    using assms(1,2) Cons.prems(1) unfolding nginx_servers_def Let_def by blast
  obtain new where first: "send env c what (errs, n) (buildAddPath cfg up ?s (be_Weight b)) = (errs @ new, n1)"
      "new = [] \<longleftrightarrow> ?added"
    using send_answers [OF n1(1), of what errs] by (cases ?added) auto
  have fresh: "?s \<notin> (server_addr \<circ> snd) ` set items"
    using Cons.prems(2) item by auto
  have served: "S n1 c up s = (if s = ?s \<and> ?added then Some (be_Weight b) else S n c up s)" for s
    using n1(3) by (auto simp: set_served_def)
  obtain errs' n' where rest: "foldl (send env c what) (errs @ new, n1)
        (map (\<lambda>(k, b). buildAddPath cfg up (server_addr b) (be_Weight b)) items) = ((errs @ new) @ errs', n')"
      "I n'" "S n' = set_served (S n1) c up (overlay replaces (addresses items) (S n1 c up))"
      "errs' = [] \<longleftrightarrow> list_all (\<lambda>(k, b). replaces \<or> S n1 c up (server_addr b) = None) items"
    using Cons.IH [of n1 "errs @ new"] Cons.prems n1(2) by auto
  have "overlay replaces (addresses items) (S n1 c up) = overlay replaces (addresses (item # items)) (S n c up)"
    using fresh addresses_None_iff [of items ?s] item
    by (auto simp: overlay_def served fun_eq_iff split: option.split)
  moreover have "set_served (S n1) c up f = set_served (S n) c up f" for f
    using n1(3) by auto
  moreover have "list_all (\<lambda>(k, b). replaces \<or> S n1 c up (server_addr b) = None) items \<longleftrightarrow>
      list_all (\<lambda>(k, b). replaces \<or> S n c up (server_addr b) = None) items"
    using fresh by (force simp: list_all_iff served)
  ultimately show ?case
    using first rest item
    by (intro exI [of _ "new @ errs'"] exI [of _ n']) (auto simp del: addresses_simps)
qed

lemma removes_run:
  assumes "nginx_servers env cfg cs replaces ok I S" and "c \<in> set cs"
    and "I n" and "distinct ss" and "list_all (\<lambda>s. S n c up s \<noteq> None) ss"
  shows "\<exists>n'. foldl (send env c what) (errs, n) (map (buildRemovePath cfg up) ss) = (errs, n') \<and>
    I n' \<and> S n' = set_served (S n) c up (\<lambda>s. if s \<in> set ss then None else S n c up s)"
  using assms(3-5)
proof (induction ss arbitrary: n)
  case (Cons s ss)
  then have "S n c up s \<noteq> None" by simp
  then obtain body n1 where n1: "answers env c (buildRemovePath cfg up s) n 200 body n1" "I n1"
      "S n1 = set_served (S n) c up ((S n c up)(s := None))"
    using assms(1,2) Cons.prems(1) unfolding nginx_servers_def by blast
  have "list_all (\<lambda>s. S n1 c up s \<noteq> None) ss"
    using Cons.prems n1(3) by (auto simp: list_all_iff)
  then obtain n' where rest: "foldl (send env c what) (errs, n1) (map (buildRemovePath cfg up) ss) = (errs, n')"
      "I n'" "S n' = set_served (S n1) c up (\<lambda>s. if s \<in> set ss then None else S n1 c up s)"
    using Cons.IH [of n1] Cons.prems n1(2) by auto
  have "(\<lambda>s'. if s' \<in> set ss then None else S n1 c up s') = (\<lambda>s'. if s' \<in> set (s # ss) then None else S n c up s')"
    using n1(3) by (auto simp: fun_eq_iff)
  with rest n1(3) send_answers(1) [OF n1(1)] show ?case
    by (intro exI [of _ n']) simp
qed simp

section \<open>What is desired\<close>

text \<open>The weight that a list of backends asks for at an address.\<close>

definition target :: "backend list \<Rightarrow> string \<Rightarrow> 64 word option" where
  "target bs s =
     (if s \<in> server_addr ` set bs
      then Some (sum_list (map weightToAdd (filter (\<lambda>b. server_addr b = s) bs))) else None)"

text \<open>An upstream on a server after a sync: what is asked for, save for refused weights.\<close>

definition after_sync ::
  "bool \<Rightarrow> (string \<Rightarrow> 64 word option) \<Rightarrow> (string \<Rightarrow> 64 word option) \<Rightarrow> string \<Rightarrow> 64 word option" where
  "after_sync replaces T f s =
     (case T s of None \<Rightarrow> None | Some w \<Rightarrow> if replaces \<or> f s = None then Some w else f s)"

lemma after_sync_replaces: "after_sync True T f = T"
  by (auto simp: after_sync_def fun_eq_iff split: option.split)

lemma server_addr_key: "server_addr a = server_addr b \<longleftrightarrow> backendKey a = backendKey b"
  using names_agree [of a b] by (simp add: server_addr_def)

lemma desired_entry_key: "(k, b) \<in> set (desiredBackend bs) \<Longrightarrow> backendKey b = k"
  using desiredBackend_origin [of bs k b] desiredBackend_distinct [of bs] by simp

lemma desired_addr_distinct: "distinct (map (server_addr \<circ> snd) (desiredBackend bs))"
proof -
  have "map (backendKey \<circ> snd) (desiredBackend bs) = map fst (desiredBackend bs)"
    using desired_entry_key [of _ _ bs] by force
  then have "distinct (map (backendKey \<circ> snd) (desiredBackend bs))"
    by (simp only: desiredBackend_distinct)
  then show ?thesis
    by (auto simp: distinct_map inj_on_def server_addr_key)
qed

lemma desired_addresses: "addresses (desiredBackend bs) = target bs"
proof
  fix s
  show "addresses (desiredBackend bs) s = target bs s"
  proof (cases "s \<in> server_addr ` set bs")
    case True
    then obtain b0 where b0: "b0 \<in> set bs" "s = server_addr b0" by blast
    then obtain e where e: "map_of (desiredBackend bs) (backendKey b0) = Some e"
      using desiredBackend_key [of bs "backendKey b0"] by blast
    have key: "backendKey e = backendKey b0" by (rule desiredBackend_origin [OF e])
    have "(server_addr e, be_Weight e) \<in> set (map (\<lambda>(k, b). (server_addr b, be_Weight b)) (desiredBackend bs))"
      using map_of_SomeD [OF e] by force
    moreover have "distinct (map fst (map (\<lambda>(k, b). (server_addr b, be_Weight b)) (desiredBackend bs)))"
      using desired_addr_distinct [of bs] by (simp add: comp_def split_beta)
    ultimately have "addresses (desiredBackend bs) (server_addr e) = Some (be_Weight e)"
      unfolding addresses_def by (simp add: map_of_is_SomeI)
    moreover have "server_addr e = s" using key b0(2) server_addr_key by simp
    moreover have "be_Weight e = sum_list (map weightToAdd (filter (\<lambda>b. server_addr b = s) bs))"
      using desiredBackend_weight [OF e] by (simp add: b0(2) server_addr_key)
    ultimately show ?thesis using True by (simp add: target_def)
  next
    case False
    have "s \<notin> (server_addr \<circ> snd) ` set (desiredBackend bs)"
    proof
      assume "s \<in> (server_addr \<circ> snd) ` set (desiredBackend bs)"
      then obtain k e where e: "(k, e) \<in> set (desiredBackend bs)" "s = server_addr e" by auto
      then have look: "map_of (desiredBackend bs) k = Some e"
        using desiredBackend_distinct [of bs] by simp
      then have "k \<in> backendKey ` set bs" "backendKey e = k"
        using desiredBackend_key [of bs k] desiredBackend_origin [OF look] by auto
      then have "s \<in> server_addr ` set bs"
        using e(2) server_addr_key by (metis image_iff)
      with False show False by simp
    qed
    with False show ?thesis by (simp add: target_def addresses_None_iff)
  qed
qed

text \<open>The plan in terms of addresses.\<close>

lemma addresses_entry:
  assumes "distinct (map (server_addr \<circ> snd) items)"
  shows "addresses items s = Some w \<longleftrightarrow> (\<exists>k b. (k, b) \<in> set items \<and> server_addr b = s \<and> be_Weight b = w)"
  using assms by (induction items) (force simp: addresses_None_iff)+

lemma desired_entry_target:
  "(k, b) \<in> set (desiredBackend bs) \<Longrightarrow> target bs (server_addr b) = Some (be_Weight b)"
  unfolding desired_addresses [symmetric] addresses_entry [OF desired_addr_distinct] by blast

section \<open>The plan in terms of addresses\<close>

lemma distinct_map_sort_key: "distinct (map f (sort_key g xs)) \<longleftrightarrow> distinct (map f xs)"
  by (metis mset_eq_imp_distinct_iff mset_map mset_sort)

lemma needs_update_listed:
  "needs_update (slice_get ups up) b \<longleftrightarrow> listed ups up (server_addr b) \<noteq> Some (be_Weight b)"
  by (simp add: needs_update_iff weights_def listed_def server_addr_key)

lemma listed_None_iff: "listed ups up s = None \<longleftrightarrow> s \<notin> server_addr ` set (slice_get ups up)"
  by (auto simp: listed_def find_None_iff)

lemma updates_addresses:
  fixes up :: string and ups :: nginx_upstreams and bs :: "backend list"
  defines "items \<equiv> sort_key fst (updateBackends (desiredBackend bs) (slice_get ups up))"
  shows "distinct (map (server_addr \<circ> snd) items)"
    and "overlay r (addresses items) (listed ups up) = overlay r (target bs) (listed ups up)"
    and "list_all (\<lambda>(k, b). r \<or> listed ups up (server_addr b) = None) items \<longleftrightarrow>
      agrees r (target bs) (listed ups up)"
proof -
  have mem: "(k, b) \<in> set items \<longleftrightarrow>
      (k, b) \<in> set (desiredBackend bs) \<and> listed ups up (server_addr b) \<noteq> Some (be_Weight b)" for k b
    by (auto simp: items_def updateBackends_def needs_update_listed)
  show dist: "distinct (map (server_addr \<circ> snd) items)"
    unfolding items_def distinct_map_sort_key updateBackends_def
    using desired_addr_distinct [of bs] by (auto simp: distinct_map intro: inj_on_subset)
  have look: "addresses items s = Some w \<longleftrightarrow> target bs s = Some w \<and> listed ups up s \<noteq> Some w" for s w
    unfolding desired_addresses [symmetric] addresses_entry [OF dist] addresses_entry [OF desired_addr_distinct]
    using mem by metis
  show "overlay r (addresses items) (listed ups up) = overlay r (target bs) (listed ups up)"
  proof
    fix s
    show "overlay r (addresses items) (listed ups up) s = overlay r (target bs) (listed ups up) s"
    proof (cases "addresses items s")
      case None
      then have "target bs s = None \<or> listed ups up s = target bs s"
        using look [of s] by (cases "target bs s") auto
      with None show ?thesis by (auto simp: overlay_def split: option.split)
    next
      case (Some w)
      with look [of s w] show ?thesis by (simp add: overlay_def)
    qed
  qed
  show "list_all (\<lambda>(k, b). r \<or> listed ups up (server_addr b) = None) items \<longleftrightarrow>
      agrees r (target bs) (listed ups up)"
  proof
    assume all: "list_all (\<lambda>(k, b). r \<or> listed ups up (server_addr b) = None) items"
    have "listed ups up s \<in> {None, Some w}" if "target bs s = Some w" "\<not> r" for s w
    proof (rule ccontr)
      assume other: "listed ups up s \<notin> {None, Some w}"
      then have "addresses items s = Some w" using look that(1) by simp
      then obtain k b where "(k, b) \<in> set items" "server_addr b = s"
        using addresses_entry [OF dist] by blast
      with all other that(2) show False by (auto simp: list_all_iff)
    qed
    then show "agrees r (target bs) (listed ups up)" by (auto simp: agrees_def)
  next
    assume "agrees r (target bs) (listed ups up)"
    then show "list_all (\<lambda>(k, b). r \<or> listed ups up (server_addr b) = None) items"
      using desired_entry_target [of _ _ bs] by (fastforce simp: list_all_iff agrees_def mem)
  qed
qed

lemma removeBackends_entries:
  "distinct (map fst (removeBackends desired current)) \<and>
   list_all (\<lambda>(k, b). k = backendKey b \<and> b \<in> set current \<and> \<not> has_key desired k) (removeBackends desired current)"
  unfolding removeBackends_def
proof (rule foldl_invariant [where I = "\<lambda>m. distinct (map fst m) \<and>
    list_all (\<lambda>(k, b). k = backendKey b \<and> b \<in> set current \<and> \<not> has_key desired k) m"])
  fix m cb
  assume "cb \<in> set current"
    and I: "distinct (map fst m) \<and> list_all (\<lambda>(k, b). k = backendKey b \<and> b \<in> set current \<and> \<not> has_key desired k) m"
  then show "distinct (map fst (if has_key desired (backendKey cb) then m else AList.update (backendKey cb) cb m)) \<and>
      list_all (\<lambda>(k, b). k = backendKey b \<and> b \<in> set current \<and> \<not> has_key desired k)
        (if has_key desired (backendKey cb) then m else AList.update (backendKey cb) cb m)"
    using set_update_subset [of "backendKey cb" cb m]
    by (auto simp: list_all_iff distinct_update)
qed simp

lemma removes_addresses:
  fixes up :: string and ups :: nginx_upstreams and bs :: "backend list"
  defines "ss \<equiv> map (server_addr \<circ> snd)
    (sort_key fst (removeBackends (desiredBackend bs) (slice_get ups up)))"
  shows "distinct ss"
    and "s \<in> set ss \<longleftrightarrow> listed ups up s \<noteq> None \<and> target bs s = None"
proof -
  let ?R = "removeBackends (desiredBackend bs) (slice_get ups up)"
  have entry: "k = backendKey b \<and> b \<in> set (slice_get ups up) \<and> \<not> has_key (desiredBackend bs) k"
    if "(k, b) \<in> set ?R" for k b
    using removeBackends_entries [of "desiredBackend bs" "slice_get ups up"] that by (auto simp: list_all_iff)
  have "map (backendKey \<circ> snd) ?R = map fst ?R"
    using entry by force
  then have "distinct (map (backendKey \<circ> snd) ?R)"
    using removeBackends_entries [of "desiredBackend bs" "slice_get ups up"] by (simp only: simp_thms)
  then show "distinct ss"
    unfolding ss_def distinct_map_sort_key by (auto simp: distinct_map inj_on_def server_addr_key)
  have wanted: "has_key (desiredBackend bs) (backendKey b) \<longleftrightarrow> target bs (server_addr b) \<noteq> None" for b
    by (auto simp: desired_has_key target_def server_addr_key image_iff)
  show "s \<in> set ss \<longleftrightarrow> listed ups up s \<noteq> None \<and> target bs s = None"
  proof
    assume "s \<in> set ss"
    then obtain k b where "(k, b) \<in> set ?R" "s = server_addr b" by (auto simp: ss_def)
    with entry [of k b] wanted [of b] show "listed ups up s \<noteq> None \<and> target bs s = None"
      by (auto simp: listed_None_iff)
  next
    assume there: "listed ups up s \<noteq> None \<and> target bs s = None"
    then obtain b where b: "b \<in> set (slice_get ups up)" "s = server_addr b"
      by (auto simp: listed_None_iff)
    then have "has_key ?R (backendKey b)"
      using there wanted [of b] by (auto simp: removeBackends_key)
    then obtain b' where "(backendKey b, b') \<in> set ?R"
      by (auto simp: has_key_iff)
    with entry b(2) show "s \<in> set ss"
      by (force simp: ss_def server_addr_key)
  qed
qed

text \<open>Adding, then removing.\<close>

lemma plan_after_sync:
  "(\<lambda>s. if listed ups up s \<noteq> None \<and> target bs s = None then None
        else overlay r (target bs) (listed ups up) s) = after_sync r (target bs) (listed ups up)"
  by (auto simp: overlay_def after_sync_def fun_eq_iff split: option.split)

section \<open>One client\<close>

text \<open>What is cached for a client is what its server serves.\<close>

definition coherent ::
  "nginx_client list \<Rightarrow> ('n \<Rightarrow> nginx_client \<Rightarrow> served) \<Rightarrow> 'n nginx \<Rightarrow> bool" where
  "coherent cs S st \<longleftrightarrow>
     (\<forall>c \<in> set cs. \<forall>ups. map_of (ng_cache st) (cl_baseURL c) = Some ups \<longrightarrow>
        listing_ok ups \<and> listed ups = S (ng_net st) c)"

lemma currentBackends_named:
  assumes "listing_ok ups"
  shows "currentBackends ups up = slice_get ups up"
proof -
  have "'''' \<notin> fst ` set ups" using assms by (force simp: listing_ok_def list_all_iff)
  then have "map_of ups '''' = None" by (simp add: map_of_eq_None_iff)
  then have "slice_get ups '''' = []" by (simp add: slice_get_def)
  then show ?thesis by (simp add: currentBackends_def)
qed

lemma refreshCache_served:
  assumes laws: "nginx_servers env (na_config a) cs r ok I S" and c: "c \<in> set cs"
    and urls: "distinct (map cl_baseURL cs)"
    and I: "I (ng_net st)" and coh: "coherent cs S st"
  shows "\<exists>ups st1. refreshCache env a c st = (Inr ups, st1) \<and> listing_ok ups \<and>
    listed ups = S (ng_net st) c \<and> I (ng_net st1) \<and> S (ng_net st1) = S (ng_net st) \<and> coherent cs S st1"
proof -
  obtain body n1 where n1: "answers env c (TrimPrefix (ngx_ListAPI (na_config a)) ''/'') (ng_net st) 200 body n1"
      "length body \<le> 10 * 1024 * 1024" "listing_ok (parseBulkNginxBackends body)"
      "listed (parseBulkNginxBackends body) = S (ng_net st) c" "I n1" "S n1 = S (ng_net st)"
    by (rule nginx_servers_list [OF laws c I])
  let ?ups = "parseBulkNginxBackends body"
  let ?st1 = "st\<lparr>ng_cache := AList.update (cl_baseURL c) ?ups (ng_cache st),
    ng_cacheExp := AList.update (cl_baseURL c) (ne_Now env n1 + 2 * 1000000000) (ng_cacheExp st), ng_net := n1\<rparr>"
  have body: "doRequest env c ''GET'' (TrimPrefix (ngx_ListAPI (na_config a)) ''/'') (ng_net st) = (Inr body, n1)"
    using doRequest_answers(1) [OF n1(1)] n1(2) by simp
  have same: "c' = c" if "c' \<in> set cs" "cl_baseURL c' = cl_baseURL c" for c'
    using urls that c by (auto simp: distinct_map inj_on_def)
  have fetched: "coherent cs S ?st1"
    unfolding coherent_def
  proof (intro ballI allI impI)
    fix c' ups
    assume c': "c' \<in> set cs" "map_of (ng_cache ?st1) (cl_baseURL c') = Some ups"
    show "listing_ok ups \<and> listed ups = S (ng_net ?st1) c'"
    proof (cases "cl_baseURL c' = cl_baseURL c")
      case True
      with c' same [OF c'(1)] n1 show ?thesis by (simp add: update_conv')
    next
      case False
      with c' coh n1(6) show ?thesis by (simp add: update_conv' coherent_def)
    qed
  qed
  show ?thesis
  proof (cases "map_of (ng_cacheExp st) (cl_baseURL c)")
    case None
    then have "refreshCache env a c st = (Inr ?ups, ?st1)"
      by (simp add: refreshCache_def Let_def body)
    with fetched n1 show ?thesis by (intro exI [of _ ?ups] exI [of _ ?st1]) simp
  next
    case (Some exp)
    show ?thesis
    proof (cases "map_of (ng_cache st) (cl_baseURL c)")
      case None
      then have "refreshCache env a c st = (Inr ?ups, ?st1)"
        using Some by (simp add: refreshCache_def Let_def body)
      with fetched n1 show ?thesis by (intro exI [of _ ?ups] exI [of _ ?st1]) simp
    next
      case cached: (Some ups)
      show ?thesis
      proof (cases "ne_Now env (ng_net st) < exp")
        case True
        then have "refreshCache env a c st = (Inr ups, st)"
          using Some cached by (simp add: refreshCache_def)
        with cached coh c I show ?thesis
          by (intro exI [of _ ups] exI [of _ st]) (auto simp: coherent_def)
      next
        case False
        then have "refreshCache env a c st = (Inr ?ups, ?st1)"
          using Some cached by (simp add: refreshCache_def Let_def body)
        with fetched n1 show ?thesis by (intro exI [of _ ?ups] exI [of _ ?st1]) simp
      qed
    qed
  qed
qed

text \<open>The upstream can be sent: there is room for its servers.\<close>

definition sendable :: "(string \<Rightarrow> backend \<Rightarrow> bool) \<Rightarrow> upstream \<Rightarrow> bool" where
  "sendable ok u \<longleftrightarrow> list_all (\<lambda>(k, b). ok (up_Name u) b) (desiredBackend (up_Backends u))"

lemma remove_paths_addresses:
  "remove_paths cfg up m = map (buildRemovePath cfg up) (map (server_addr \<circ> snd) (sort_key fst m))"
  by (simp add: remove_paths_def server_addr_def comp_def split_beta)

lemma add_paths_addresses:
  "add_paths cfg up m =
     map (\<lambda>(k, b). buildAddPath cfg up (server_addr b) (be_Weight b)) (sort_key fst m)"
  by (simp add: add_paths_def server_addr_def)

lemma coherent_invalidate:
  assumes "coherent cs S st" and "c \<in> set cs" and "distinct (map cl_baseURL cs)"
    and "\<And>c'. c' \<noteq> c \<Longrightarrow> S n c' = S (ng_net st) c'"
  shows "coherent cs S (invalidateCache (cl_baseURL c) (st\<lparr>ng_net := n\<rparr>))"
proof -
  have "listing_ok ups \<and> listed ups = S n c'"
    if "c' \<in> set cs" "cl_baseURL c' \<noteq> cl_baseURL c" "map_of (ng_cache st) (cl_baseURL c') = Some ups" for c' ups
    using that assms(1,4) unfolding coherent_def by metis
  then show ?thesis
    by (auto simp: coherent_def invalidateCache_def delete_conv')
qed

lemma sync_client_served:
  assumes laws: "nginx_servers env (na_config a) cs r ok I S" and c: "c \<in> set cs"
    and urls: "distinct (map cl_baseURL cs)"
    and I: "I (ng_net st)" and coh: "coherent cs S st" and u: "sendable ok u"
  shows "\<exists>errs st'. sync_client env a u c st = (errs, st') \<and> I (ng_net st') \<and> coherent cs S st' \<and>
    S (ng_net st') = set_served (S (ng_net st)) c (up_Name u)
      (after_sync r (target (up_Backends u)) (S (ng_net st) c (up_Name u))) \<and>
    (errs = [] \<longleftrightarrow> agrees r (target (up_Backends u)) (S (ng_net st) c (up_Name u)))"
proof -
  let ?up = "up_Name u" and ?bs = "up_Backends u" and ?cfg = "na_config a"
  obtain ups st1 where fetch: "refreshCache env a c st = (Inr ups, st1)" "listing_ok ups"
      "listed ups = S (ng_net st) c" "I (ng_net st1)" "S (ng_net st1) = S (ng_net st)" "coherent cs S st1"
    using refreshCache_served [OF laws c urls I coh] by blast
  let ?f = "S (ng_net st) c ?up"
  have cur: "currentBackends ups ?up = slice_get ups ?up"
    by (rule currentBackends_named [OF fetch(2)])
  define updates where "updates = updateBackends (desiredBackend ?bs) (slice_get ups ?up)"
  define removes where "removes = removeBackends (desiredBackend ?bs) (slice_get ups ?up)"
  note addr = updates_addresses [where up = ?up and ups = ups and bs = ?bs, folded updates_def]
  note gone = removes_addresses [where up = ?up and ups = ups and bs = ?bs, folded removes_def]
  have "list_all (\<lambda>(k, b). ok ?up b) (sort_key fst updates)"
    using u by (auto simp: sendable_def list_all_iff updates_def updateBackends_def)
  from adds_run [OF laws c fetch(4) addr(1) this, of "''add''" "[]"]
  obtain errs n1 where adds: "foldl (send env c ''add'') ([], ng_net st1) (add_paths ?cfg ?up updates) = (errs, n1)"
      "I n1" "S n1 = set_served (S (ng_net st)) c ?up (overlay r (addresses (sort_key fst updates)) ?f)"
      "errs = [] \<longleftrightarrow> list_all (\<lambda>(k, b). r \<or> ?f (server_addr b) = None) (sort_key fst updates)"
    by (auto simp: add_paths_addresses fetch(5))
  have added: "S n1 = set_served (S (ng_net st)) c ?up (overlay r (target ?bs) ?f)"
    using adds(3) addr(2) [of r] by (simp add: fetch(3))
  have refused: "errs = [] \<longleftrightarrow> agrees r (target ?bs) ?f"
    using adds(4) addr(3) [of r] by (simp add: fetch(3))
  have "list_all (\<lambda>s. S n1 c ?up s \<noteq> None) (map (server_addr \<circ> snd) (sort_key fst removes))"
    using gone(2) by (auto simp: list_all_iff added overlay_def fetch(3) split: option.split)
  from removes_run [OF laws c adds(2) gone(1) this, of "''remove''" errs]
  obtain n2 where rem: "foldl (send env c ''remove'') (errs, n1) (remove_paths ?cfg ?up removes) = (errs, n2)"
      "I n2" "S n2 = set_served (S n1) c ?up
        (\<lambda>s. if s \<in> set (map (server_addr \<circ> snd) (sort_key fst removes)) then None else S n1 c ?up s)"
    by (auto simp: remove_paths_addresses)
  have final: "S n2 = set_served (S (ng_net st)) c ?up (after_sync r (target ?bs) ?f)"
    using plan_after_sync [of ups ?up ?bs r]
    unfolding rem(3) added gone(2) fetch(3) set_served_same by simp
  let ?changed = "updates \<noteq> [] \<or> removes \<noteq> []"
  let ?st' = "if ?changed then invalidateCache (cl_baseURL c) (st1\<lparr>ng_net := n2\<rparr>) else st1\<lparr>ng_net := n2\<rparr>"
  have run: "sync_client env a u c st = (errs, ?st')"
    by (simp add: sync_client_def fetch(1) Let_def cur updates_def [symmetric] removes_def [symmetric] adds(1) rem(1))
  have "coherent cs S ?st'"
  proof (cases ?changed)
    case True
    have "S n2 c' = S (ng_net st1) c'" if "c' \<noteq> c" for c'
      using that by (simp add: final fetch(5) set_served_def)
    with True coherent_invalidate [OF fetch(6) c urls] show ?thesis by simp
  next
    case False
    then have "n1 = ng_net st1" "n2 = n1"
      using adds(1) rem(1) by (simp_all add: add_paths_def remove_paths_def)
    with False fetch(6) show ?thesis by (simp add: coherent_def)
  qed
  with run rem(2) final refused show ?thesis
    by (intro exI [of _ errs] exI [of _ ?st']) simp
qed

section \<open>All clients\<close>

text \<open>
  A goroutine's body that changes what its client's server serves by \<open>F\<close>, without an error where
  \<open>P\<close> holds, does so for all clients, one after the other.
\<close>

definition served_body ::
  "nginx_client list \<Rightarrow> ('n \<Rightarrow> bool) \<Rightarrow> ('n \<Rightarrow> nginx_client \<Rightarrow> served) \<Rightarrow> (served \<Rightarrow> served) \<Rightarrow>
    (served \<Rightarrow> bool) \<Rightarrow> (nginx_client \<Rightarrow> 'n nginx \<Rightarrow> goerror list \<times> 'n nginx) \<Rightarrow> bool" where
  "served_body cs I S F P body \<longleftrightarrow>
     (\<forall>c st. c \<in> set cs \<longrightarrow> I (ng_net st) \<longrightarrow> coherent cs S st \<longrightarrow>
        (\<exists>errs st'. body c st = (errs, st') \<and> I (ng_net st') \<and> coherent cs S st' \<and>
           S (ng_net st') = (S (ng_net st))(c := F (S (ng_net st) c)) \<and>
           (errs = [] \<longleftrightarrow> P (S (ng_net st) c))))"

lemma served_body_step:
  assumes "served_body cs I S F P body" and "c \<in> set cs" and "I (ng_net st)" and "coherent cs S st"
  obtains errs st' where "body c st = (errs, st')" and "I (ng_net st')" and "coherent cs S st'"
    and "S (ng_net st') = (S (ng_net st))(c := F (S (ng_net st) c))"
    and "errs = [] \<longleftrightarrow> P (S (ng_net st) c)"
proof -
  have "\<exists>errs st'. body c st = (errs, st') \<and> I (ng_net st') \<and> coherent cs S st' \<and>
      S (ng_net st') = (S (ng_net st))(c := F (S (ng_net st) c)) \<and> (errs = [] \<longleftrightarrow> P (S (ng_net st) c))"
    using assms unfolding served_body_def by blast
  with that show ?thesis by (elim exE conjE) rule
qed

lemma coherent_net:
  assumes "coherent cs S st" and "S n = S (ng_net st)"
  shows "coherent cs S (st\<lparr>ng_net := n\<rparr>)"
  using assms by (simp add: coherent_def)

lemma goroutine_served:
  assumes laws: "nginx_servers env cfg cs r ok I S" and body: "served_body cs I S F P body"
    and c: "c \<in> set cs" and I: "I (ng_net st)" and coh: "coherent cs S st"
  shows "\<exists>errs' st'. goroutine env body (errs, st) c = (errs @ errs', st') \<and> I (ng_net st') \<and> coherent cs S st' \<and>
    S (ng_net st') = (S (ng_net st))(c := F (S (ng_net st) c)) \<and> (errs' = [] \<longleftrightarrow> P (S (ng_net st) c))"
proof -
  obtain n1 where n1: "ne_Acquire env (ng_net st) = (None, n1)" "I n1" "S n1 = S (ng_net st)"
    using nginx_servers_acquire(1) [OF laws I] by blast
  have coh1: "coherent cs S (st\<lparr>ng_net := n1\<rparr>)" by (rule coherent_net [OF coh n1(3)])
  have I1: "I (ng_net (st\<lparr>ng_net := n1\<rparr>))" using n1(2) by simp
  obtain errs' st2 where st2: "body c (st\<lparr>ng_net := n1\<rparr>) = (errs', st2)" "I (ng_net st2)"
      "coherent cs S st2" "S (ng_net st2) = (S n1)(c := F (S n1 c))" "errs' = [] \<longleftrightarrow> P (S n1 c)"
    by (rule served_body_step [OF body c I1 coh1]) simp
  let ?st' = "st2\<lparr>ng_net := ne_Release env (ng_net st2)\<rparr>"
  have "goroutine env body (errs, st) c = (errs @ errs', ?st')"
    by (simp add: goroutine_def n1(1) st2(1))
  moreover have "coherent cs S ?st'"
    by (rule coherent_net [OF st2(3) nginx_servers_acquire(3) [OF laws st2(2)]])
  ultimately show ?thesis
    using st2 n1(3) nginx_servers_acquire(2,3) [OF laws st2(2)]
    by (intro exI [of _ errs'] exI [of _ ?st']) simp
qed

lemma goroutines_served:
  assumes laws: "nginx_servers env cfg cs r ok I S" and body: "served_body cs I S F P body"
    and "set cs' \<subseteq> set cs" and "distinct cs'" and "I (ng_net st)" and "coherent cs S st"
  shows "\<exists>errs' st'. foldl (goroutine env body) (errs, st) cs' = (errs @ errs', st') \<and> I (ng_net st') \<and>
    coherent cs S st' \<and>
    S (ng_net st') = (\<lambda>c. if c \<in> set cs' then F (S (ng_net st) c) else S (ng_net st) c) \<and>
    (errs' = [] \<longleftrightarrow> (\<forall>c \<in> set cs'. P (S (ng_net st) c)))"
  using assms(3-)
proof (induction cs' arbitrary: errs st)
  case (Cons c cs')
  then obtain e1 st1 where st1: "goroutine env body (errs, st) c = (errs @ e1, st1)" "I (ng_net st1)"
      "coherent cs S st1" "S (ng_net st1) = (S (ng_net st))(c := F (S (ng_net st) c))"
      "e1 = [] \<longleftrightarrow> P (S (ng_net st) c)"
    using goroutine_served [OF laws body, of c st errs] by auto
  obtain e2 st2 where st2: "foldl (goroutine env body) (errs @ e1, st1) cs' = ((errs @ e1) @ e2, st2)"
      "I (ng_net st2)" "coherent cs S st2"
      "S (ng_net st2) = (\<lambda>c. if c \<in> set cs' then F (S (ng_net st1) c) else S (ng_net st1) c)"
      "e2 = [] \<longleftrightarrow> (\<forall>c \<in> set cs'. P (S (ng_net st1) c))"
    using Cons.IH [of st1 "errs @ e1"] Cons.prems st1(2,3) by auto
  have "c \<notin> set cs'" using Cons.prems(2) by simp
  then have "S (ng_net st2) = (\<lambda>c'. if c' \<in> set (c # cs') then F (S (ng_net st) c') else S (ng_net st) c')"
    "e2 = [] \<longleftrightarrow> (\<forall>c \<in> set cs'. P (S (ng_net st) c))"
    using st2(4,5) by (auto simp: st1(4) fun_eq_iff)
  with st1 st2(1-3) show ?case
    by (intro exI [of _ "e1 @ e2"] exI [of _ st2]) auto
qed simp

text \<open>A load balancer: its servers obey the laws, and no two of its clients have the same URL.\<close>

definition obeying ::
  "'n net_env \<Rightarrow> nginx_adapter \<Rightarrow> bool \<Rightarrow> (string \<Rightarrow> backend \<Rightarrow> bool) \<Rightarrow> ('n \<Rightarrow> bool) \<Rightarrow>
    ('n \<Rightarrow> nginx_client \<Rightarrow> served) \<Rightarrow> bool" where
  "obeying env a replaces ok I S \<longleftrightarrow>
     nginx_servers env (na_config a) (na_clients a) replaces ok I S \<and> distinct (map cl_baseURL (na_clients a))"

lemma SyncUpstream_served:
  assumes "obeying env a r ok I S" and "sendable ok u"
    and "I (ng_net st)" and "coherent (na_clients a) S st"
  shows "\<exists>res st'. SyncUpstream env a u st = (res, st') \<and> I (ng_net st') \<and> coherent (na_clients a) S st' \<and>
    S (ng_net st') = (\<lambda>c. if c \<in> set (na_clients a)
      then (S (ng_net st) c)(up_Name u := after_sync r (target (up_Backends u)) (S (ng_net st) c (up_Name u)))
      else S (ng_net st) c) \<and>
    (res = None \<longleftrightarrow> (\<forall>c \<in> set (na_clients a). agrees r (target (up_Backends u)) (S (ng_net st) c (up_Name u))))"
proof -
  from assms(1) have laws: "nginx_servers env (na_config a) (na_clients a) r ok I S"
    and urls: "distinct (map cl_baseURL (na_clients a))" by (simp_all add: obeying_def)
  have body: "served_body (na_clients a) I S
      (\<lambda>f. f(up_Name u := after_sync r (target (up_Backends u)) (f (up_Name u))))
      (\<lambda>f. agrees r (target (up_Backends u)) (f (up_Name u))) (sync_client env a u)"
    unfolding served_body_def
  proof (intro allI impI)
    fix c st
    assume "c \<in> set (na_clients a)" "I (ng_net st)" "coherent (na_clients a) S st"
    from sync_client_served [OF laws this(1) urls this(2,3) assms(2), unfolded set_served_def]
    show "\<exists>errs st'. sync_client env a u c st = (errs, st') \<and> I (ng_net st') \<and> coherent (na_clients a) S st' \<and>
        S (ng_net st') = (S (ng_net st))(c := (S (ng_net st) c)(up_Name u :=
          after_sync r (target (up_Backends u)) (S (ng_net st) c (up_Name u)))) \<and>
        (errs = [] \<longleftrightarrow> agrees r (target (up_Backends u)) (S (ng_net st) c (up_Name u)))" .
  qed
  have dist: "distinct (na_clients a)" using urls by (simp add: distinct_map)
  obtain errs' st' where run: "foldl (goroutine env (sync_client env a u)) ([], st) (na_clients a) = (errs', st')"
      and props: "I (ng_net st')" "coherent (na_clients a) S st'"
        "S (ng_net st') = (\<lambda>c. if c \<in> set (na_clients a)
           then (S (ng_net st) c)(up_Name u := after_sync r (target (up_Backends u)) (S (ng_net st) c (up_Name u)))
           else S (ng_net st) c)"
        "errs' = [] \<longleftrightarrow> (\<forall>c \<in> set (na_clients a). agrees r (target (up_Backends u)) (S (ng_net st) c (up_Name u)))"
    using goroutines_served [OF laws body subset_refl dist assms(3,4), of "[]", unfolded append_Nil]
    by (elim exE conjE) rule
  have "SyncUpstream env a u st = (ErrorOrNil errs', st')"
    by (simp add: SyncUpstream_def run)
  with props show ?thesis
    by (intro exI [of _ "ErrorOrNil errs'"] exI [of _ st']) (simp only: ErrorOrNil_None_iff simp_thms)
qed

section \<open>Pruning\<close>

lemma nginx_servers_remove:
  assumes "nginx_servers env cfg cs replaces ok I S" and "c \<in> set cs" and "I n" and "S n c up s \<noteq> None"
  obtains body n1 where "answers env c (buildRemovePath cfg up s) n 200 body n1" and "I n1"
    and "S n1 = set_served (S n) c up ((S n c up)(s := None))"
proof -
  have "\<exists>body n1. answers env c (buildRemovePath cfg up s) n 200 body n1 \<and> I n1 \<and>
      S n1 = set_served (S n) c up ((S n c up)(s := None))"
    using assms unfolding nginx_servers_def by blast
  with that show ?thesis by (elim exE conjE) rule
qed

lemma remove_orphans_run:
  assumes "nginx_servers env (na_config a) cs r ok I S" and "c \<in> set cs"
    and "I n" and "distinct (map server_addr bs)" and "list_all (\<lambda>b. S n c up (server_addr b) \<noteq> None) bs"
  shows "\<exists>n'. foldl (remove_orphan env a c up) (errs, changed, n) bs = (errs, changed \<or> bs \<noteq> [], n') \<and>
    I n' \<and> S n' = set_served (S n) c up (\<lambda>s. if s \<in> server_addr ` set bs then None else S n c up s)"
  using assms(3-5)
proof (induction bs arbitrary: n changed)
  case (Cons b bs)
  then have "S n c up (server_addr b) \<noteq> None" by simp
  then obtain body n1 where n1: "answers env c (buildRemovePath (na_config a) up (server_addr b)) n 200 body n1"
      "I n1" "S n1 = set_served (S n) c up ((S n c up)(server_addr b := None))"
    by (rule nginx_servers_remove [OF assms(1,2) Cons.prems(1)])
  have step: "remove_orphan env a c up (errs, changed, n) b = (errs, True, n1)"
    using doRequest_answers(1) [OF n1(1)] by (simp add: remove_orphan_def server_addr_def Let_def)
  have fresh: "server_addr x \<noteq> server_addr b" if "x \<in> set bs" for x
    using Cons.prems(2) that by (metis distinct.simps(2) image_eqI list.set_map list.simps(9))
  have "list_all (\<lambda>b. S n1 c up (server_addr b) \<noteq> None) bs"
    using Cons.prems(3) fresh unfolding n1(3) by (simp add: list_all_iff set_served_def)
  then obtain n' where rest: "foldl (remove_orphan env a c up) (errs, True, n1) bs = (errs, True, n')"
      "I n'" "S n' = set_served (S n1) c up (\<lambda>s. if s \<in> server_addr ` set bs then None else S n1 c up s)"
    using Cons.IH [of n1 True] Cons.prems n1(2) by auto
  have "(\<lambda>s. if s \<in> server_addr ` set bs then None else S n1 c up s) =
      (\<lambda>s. if s \<in> server_addr ` set (b # bs) then None else S n c up s)"
    using n1(3) by (auto simp: fun_eq_iff)
  with step rest n1(3) show ?case
    by (intro exI [of _ n']) simp
qed simp

text \<open>What pruning leaves of a server: nothing of the upstreams that are not desired.\<close>

definition pruned :: "(string, upstream) gomap \<Rightarrow> served \<Rightarrow> served" where
  "pruned desired f up = (if has_key desired up then f up else (\<lambda>s. None))"

lemma listed_none: "up \<notin> fst ` set ups \<Longrightarrow> listed ups up = (\<lambda>s. None)"
proof -
  assume "up \<notin> fst ` set ups"
  then have "map_of ups up = None" by (simp add: map_of_eq_None_iff)
  then show "listed ups up = (\<lambda>s. None)" by (simp add: listed_def slice_get_def fun_eq_iff)
qed

lemma slice_get_distinct:
  assumes "listing_ok ups"
  shows "distinct (map server_addr (slice_get ups up))"
proof (cases "map_of ups up")
  case (Some bs)
  then have "(up, bs) \<in> set ups" by (rule map_of_SomeD)
  with assms have "distinct (map server_addr bs)" by (auto simp: listing_ok_def list_all_iff)
  with Some show ?thesis by (simp add: slice_get_def)
qed (simp add: slice_get_def)

lemma prune_run:
  assumes laws: "nginx_servers env (na_config a) cs r ok I S" and c: "c \<in> set cs" and ups: "listing_ok ups"
    and "I n" and "distinct names" and "'''' \<notin> set names" and "list_all (\<lambda>up. S n c up = listed ups up) names"
  shows "\<exists>changed' n'. foldl (prune_upstream env a desired c ups) ([], changed, n) names = ([], changed', n') \<and>
    I n' \<and> S n' = (S n)(c := (\<lambda>up. if up \<in> set names then pruned desired (S n c) up else S n c up)) \<and>
    (\<not> changed' \<longrightarrow> \<not> changed \<and> n' = n)"
  using assms(4-)
proof (induction names arbitrary: n changed)
  case (Cons up names)
  show ?case
  proof (cases "has_key desired up")
    case True
    then have step: "prune_upstream env a desired c ups ([], changed, n) up = ([], changed, n)"
      by (simp add: prune_upstream_def)
    have p: "I n" "distinct names" "'''' \<notin> set names" "list_all (\<lambda>up. S n c up = listed ups up) names"
      using Cons.prems by simp_all
    obtain changed' n' where rest: "foldl (prune_upstream env a desired c ups) ([], changed, n) names = ([], changed', n')"
        "I n'" "S n' = (S n)(c := (\<lambda>up. if up \<in> set names then pruned desired (S n c) up else S n c up))"
        "\<not> changed' \<longrightarrow> \<not> changed \<and> n' = n"
      using Cons.IH [OF p, of changed] by (elim exE conjE) rule
    have "(\<lambda>x. if x \<in> set names then pruned desired (S n c) x else S n c x) =
        (\<lambda>x. if x \<in> set (up # names) then pruned desired (S n c) x else S n c x)"
      using True by (auto simp: pruned_def fun_eq_iff)
    with step rest show ?thesis by (intro exI [of _ changed'] exI [of _ n']) simp
  next
    case False
    let ?bs = "slice_get ups up"
    have up: "up \<noteq> ''''" "S n c up = listed ups up" using Cons.prems by auto
    have "list_all (\<lambda>b. S n c up (server_addr b) \<noteq> None) ?bs"
      unfolding up(2) by (auto simp: list_all_iff listed_None_iff)
    from remove_orphans_run [OF laws c Cons.prems(1) slice_get_distinct [OF ups] this, of "[]" changed]
    obtain n1 where n1: "foldl (remove_orphan env a c up) ([], changed, n) ?bs = ([], changed \<or> ?bs \<noteq> [], n1)"
        "I n1" "S n1 = set_served (S n) c up (\<lambda>s. if s \<in> server_addr ` set ?bs then None else S n c up s)"
      by blast
    have none: "(\<lambda>s. if s \<in> server_addr ` set ?bs then None else S n c up s) = (\<lambda>s. None)"
      unfolding up(2) by (auto simp: fun_eq_iff) (metis listed_None_iff)
    have step: "prune_upstream env a desired c ups ([], changed, n) up = ([], changed \<or> ?bs \<noteq> [], n1)"
      using False up(1) n1(1) by (simp add: prune_upstream_def)
    have "S n1 c x = S n c x" if "x \<in> set names" for x
      using Cons.prems(2) that unfolding n1(3) by (auto simp: set_served_def)
    then have p: "distinct names" "'''' \<notin> set names" "list_all (\<lambda>x. S n1 c x = listed ups x) names"
      using Cons.prems by (simp_all add: list_all_iff)
    obtain changed' n' where rest:
        "foldl (prune_upstream env a desired c ups) ([], changed \<or> ?bs \<noteq> [], n1) names = ([], changed', n')"
        "I n'" "S n' = (S n1)(c := (\<lambda>x. if x \<in> set names then pruned desired (S n1 c) x else S n1 c x))"
        "\<not> changed' \<longrightarrow> \<not> (changed \<or> ?bs \<noteq> []) \<and> n' = n1"
      using Cons.IH [OF n1(2) p, of "changed \<or> ?bs \<noteq> []"] by (elim exE conjE) rule
    have "(\<lambda>x. if x \<in> set names then pruned desired (S n1 c) x else S n1 c x) =
        (\<lambda>x. if x \<in> set (up # names) then pruned desired (S n c) x else S n c x)"
      using False Cons.prems(2) unfolding n1(3) none by (auto simp: pruned_def set_served_def fun_eq_iff)
    moreover have "(S n1)(c := g) = (S n)(c := g)" for g
      unfolding n1(3) by (simp add: set_served_def)
    moreover have "\<not> changed' \<longrightarrow> \<not> changed \<and> n' = n"
      using rest(4) n1(1) by auto
    ultimately show ?thesis
      using step rest by (intro exI [of _ changed'] exI [of _ n']) simp
  qed
qed simp

lemma prune_client_served:
  assumes "obeying env a r ok I S"
  shows "served_body (na_clients a) I S (pruned desired) (\<lambda>f. True) (prune_client env a desired)"
  unfolding served_body_def
proof (intro allI impI)
  from assms have laws: "nginx_servers env (na_config a) (na_clients a) r ok I S"
    and urls: "distinct (map cl_baseURL (na_clients a))" by (simp_all add: obeying_def)
  fix c st
  assume c: "c \<in> set (na_clients a)" and I: "I (ng_net st)" and coh: "coherent (na_clients a) S st"
  obtain ups st1 where fetch: "refreshCache env a c st = (Inr ups, st1)" "listing_ok ups"
      "listed ups = S (ng_net st) c" "I (ng_net st1)" "S (ng_net st1) = S (ng_net st)" "coherent (na_clients a) S st1"
    using refreshCache_served [OF laws c urls I coh] by blast
  let ?names = "sort (map fst ups)" and ?f = "S (ng_net st) c"
  have names: "distinct ?names" "'''' \<notin> set ?names" "list_all (\<lambda>up. S (ng_net st1) c up = listed ups up) ?names"
    using fetch(2,3,5) by (auto simp: listing_ok_def list_all_iff)
  from prune_run [OF laws c fetch(2,4) names, of desired False]
  obtain changed n where n: "foldl (prune_upstream env a desired c ups) ([], False, ng_net st1) ?names = ([], changed, n)"
      "I n" "S n = (S (ng_net st1))(c := (\<lambda>up. if up \<in> set ?names then pruned desired (S (ng_net st1) c) up
        else S (ng_net st1) c up))" "\<not> changed \<longrightarrow> n = ng_net st1"
    by blast
  have "(\<lambda>up. if up \<in> set ?names then pruned desired ?f up else ?f up) = pruned desired ?f"
    using listed_none [of _ ups] by (auto simp: fun_eq_iff pruned_def fetch(3) [symmetric])
  then have final: "S n = (S (ng_net st))(c := pruned desired ?f)"
    unfolding n(3) fetch(5) by simp
  let ?st' = "if changed then invalidateCache (cl_baseURL c) (st1\<lparr>ng_net := n\<rparr>) else st1\<lparr>ng_net := n\<rparr>"
  have run: "prune_client env a desired c st = ([], ?st')"
    by (simp add: prune_client_def fetch(1) n(1) Let_def)
  have "coherent (na_clients a) S ?st'"
  proof (cases changed)
    case True
    have "S n c' = S (ng_net st1) c'" if "c' \<noteq> c" for c'
      using that by (simp add: final fetch(5))
    with True coherent_invalidate [OF fetch(6) c urls] show ?thesis by simp
  next
    case False
    with n(4) fetch(6) show ?thesis by (simp add: coherent_def)
  qed
  with run n(2) final show "\<exists>errs st'. prune_client env a desired c st = (errs, st') \<and> I (ng_net st') \<and>
      coherent (na_clients a) S st' \<and> S (ng_net st') = (S (ng_net st))(c := pruned desired (S (ng_net st) c)) \<and>
      (errs = []) = True"
    by (intro exI [of _ "[]"] exI [of _ ?st']) simp
qed

end
