(* ===== verification/GoRegexp.thy ===== *)
theory GoRegexp
  imports GoStrings
begin

text \<open>
  Regular expressions, as far as the program uses Go's package \<open>regexp\<close>: an anchored pattern
  of character classes, groups, bounded repetition, \<open>?\<close> and \<open>+\<close>. The matcher takes derivatives;
  the lemmas say that it decides the language of the expression.
\<close>

section \<open>Expressions and the matcher\<close>

datatype rexp =
    Never
  | Empty
  | Class "char \<Rightarrow> bool"
  | Seq rexp rexp
  | Alt rexp rexp
  | Star rexp

definition Opt :: "rexp \<Rightarrow> rexp" where
  "Opt r = Alt Empty r"

definition Plus :: "rexp \<Rightarrow> rexp" where
  "Plus r = Seq r (Star r)"

fun Times :: "nat \<Rightarrow> rexp \<Rightarrow> rexp" where
  "Times 0 r = Empty"
| "Times (Suc n) r = Seq r (Times n r)"

text \<open>Between none and \<open>n\<close> times.\<close>

fun UpTo :: "nat \<Rightarrow> rexp \<Rightarrow> rexp" where
  "UpTo 0 r = Empty"
| "UpTo (Suc n) r = Opt (Seq r (UpTo n r))"

fun nullable :: "rexp \<Rightarrow> bool" where
  "nullable Never = False"
| "nullable Empty = True"
| "nullable (Class p) = False"
| "nullable (Seq r s) = (nullable r \<and> nullable s)"
| "nullable (Alt r s) = (nullable r \<or> nullable s)"
| "nullable (Star r) = True"

fun deriv :: "char \<Rightarrow> rexp \<Rightarrow> rexp" where
  "deriv c Never = Never"
| "deriv c Empty = Never"
| "deriv c (Class p) = (if p c then Empty else Never)"
| "deriv c (Seq r s) =
     (if nullable r then Alt (Seq (deriv c r) s) (deriv c s) else Seq (deriv c r) s)"
| "deriv c (Alt r s) = Alt (deriv c r) (deriv c s)"
| "deriv c (Star r) = Seq (deriv c r) (Star r)"

fun matches :: "rexp \<Rightarrow> string \<Rightarrow> bool" where
  "matches r [] = nullable r"
| "matches r (c # s) = matches (deriv c r) s"

section \<open>The language of an expression\<close>

inductive in_lang :: "rexp \<Rightarrow> string \<Rightarrow> bool" where
  empty: "in_lang Empty []"
| class_char: "p c \<Longrightarrow> in_lang (Class p) [c]"
| seq: "in_lang r a \<Longrightarrow> in_lang s b \<Longrightarrow> in_lang (Seq r s) (a @ b)"
| alt_left: "in_lang r a \<Longrightarrow> in_lang (Alt r s) a"
| alt_right: "in_lang s a \<Longrightarrow> in_lang (Alt r s) a"
| star_empty: "in_lang (Star r) []"
| star_more: "in_lang r a \<Longrightarrow> in_lang (Star r) b \<Longrightarrow> in_lang (Star r) (a @ b)"

inductive_simps in_lang_simps:
  "in_lang Never w" "in_lang Empty w" "in_lang (Class p) w" "in_lang (Seq r s) w" "in_lang (Alt r s) w"

inductive_cases StarE: "in_lang (Star r) w"

lemma nullable_iff: "nullable r \<longleftrightarrow> in_lang r []"
  by (induction r) (auto simp: in_lang_simps intro: in_lang.intros)

lemma star_Cons:
  assumes "in_lang (Star r) (c # w)"
  shows "\<exists>a b. w = a @ b \<and> in_lang r (c # a) \<and> in_lang (Star r) b"
  using assms
proof (induction "Star r" "c # w" arbitrary: c w rule: in_lang.induct)
  case (star_more a b)
  then show ?case by (cases a) auto
qed

lemma deriv_iff: "in_lang (deriv c r) w \<longleftrightarrow> in_lang r (c # w)"
proof (induction r arbitrary: w)
  case (Seq r s)
  have "in_lang (Seq r s) (c # w) \<longleftrightarrow>
      in_lang (Seq (deriv c r) s) w \<or> nullable r \<and> in_lang (deriv c s) w"
    by (auto simp: in_lang_simps Seq nullable_iff Cons_eq_append_conv)
  then show ?case by (simp add: in_lang_simps)
next
  case (Star r)
  have "in_lang (Star r) (c # w) \<longleftrightarrow> in_lang (Seq (deriv c r) (Star r)) w"
    using in_lang.star_more [of r "c # _"] by (auto simp: in_lang_simps Star dest: star_Cons)
  then show ?case by simp
qed (auto simp: in_lang_simps)

lemma matches_iff: "matches r w \<longleftrightarrow> in_lang r w"
  by (induction w arbitrary: r) (simp_all add: nullable_iff deriv_iff)

section \<open>Repetition\<close>

lemma in_lang_Opt: "in_lang (Opt r) w \<longleftrightarrow> w = [] \<or> in_lang r w"
  by (auto simp: Opt_def in_lang_simps)

lemma in_lang_Class_Seq:
  "in_lang (Seq (Class p) r) w \<longleftrightarrow> (\<exists>c v. w = c # v \<and> p c \<and> in_lang r v)"
  unfolding in_lang_simps by (metis append_Cons append_Nil)

lemma in_lang_Times_Class:
  "in_lang (Times n (Class p)) w \<longleftrightarrow> length w = n \<and> list_all p w"
proof (induction n arbitrary: w)
  case (Suc n)
  then show ?case by (cases w) (simp_all add: in_lang_Class_Seq, blast)
qed (auto simp: in_lang_simps)

lemma in_lang_UpTo_Class:
  "in_lang (UpTo n (Class p)) w \<longleftrightarrow> length w \<le> n \<and> list_all p w"
proof (induction n arbitrary: w)
  case (Suc n)
  then show ?case by (cases w) (simp_all add: in_lang_Class_Seq in_lang_Opt, blast)
qed (auto simp: in_lang_simps)

lemma in_lang_Star_iff:
  "in_lang (Star r) w \<longleftrightarrow> (\<exists>ws. w = concat ws \<and> list_all (in_lang r) ws)"
proof
  assume "in_lang (Star r) w"
  then show "\<exists>ws. w = concat ws \<and> list_all (in_lang r) ws"
  proof (induction "Star r" w rule: in_lang.induct)
    case star_empty
    show ?case by (intro exI [of _ "[]"]) simp
  next
    case (star_more a b)
    then obtain ws where "b = concat ws" "list_all (in_lang r) ws" by blast
    with star_more show ?case by (intro exI [of _ "a # ws"]) simp
  qed
next
  assume "\<exists>ws. w = concat ws \<and> list_all (in_lang r) ws"
  then obtain ws where "w = concat ws" "list_all (in_lang r) ws" by blast
  then show "in_lang (Star r) w"
    by (induction ws arbitrary: w) (auto intro: in_lang.star_empty in_lang.star_more)
qed

lemma in_lang_Star_Class: "in_lang (Star (Class p)) w \<longleftrightarrow> list_all p w"
proof
  assume "in_lang (Star (Class p)) w"
  then show "list_all p w"
    by (fastforce simp: in_lang_Star_iff list_all_iff in_lang_simps)
next
  assume "list_all p w"
  then show "in_lang (Star (Class p)) w"
    unfolding in_lang_Star_iff by (intro exI [of _ "map (\<lambda>c. [c]) w"]) (auto simp: list_all_iff in_lang_simps)
qed

lemma in_lang_Plus_iff:
  "in_lang (Plus r) w \<longleftrightarrow> (\<exists>ws. ws \<noteq> [] \<and> w = concat ws \<and> list_all (in_lang r) ws)"
proof -
  have "in_lang (Plus r) w \<longleftrightarrow> (\<exists>v ws. w = v @ concat ws \<and> in_lang r v \<and> list_all (in_lang r) ws)"
    by (auto simp: Plus_def in_lang_simps in_lang_Star_iff)
  also have "\<dots> \<longleftrightarrow> (\<exists>ws. ws \<noteq> [] \<and> w = concat ws \<and> list_all (in_lang r) ws)"
    by (metis concat.simps(2) list.exhaust list.pred_inject(2) neq_Nil_conv)
  finally show ?thesis .
qed

end
