(* ===== verification/Validation.thy ===== *)
theory Validation
  imports IpReplacement GoRegexp GoUrl
begin

text \<open>
  \<open>internal/util/validation.go\<close> and the validators of \<open>internal/adapters/validator\<close>: one definition
  per function, which returns the first error it meets, with its text. \<open>IsFileExists\<close> belongs to
  the certificates.
\<close>

section \<open>Helpers\<close>

definition IsValidIP :: "string \<Rightarrow> bool" where
  "IsValidIP ip \<longleftrightarrow> ParseIP ip \<noteq> None"

definition IsValidPort :: "int \<Rightarrow> bool" where
  "IsValidPort port \<longleftrightarrow> 1 \<le> port \<and> port \<le> 65535"

definition is_letter :: "char \<Rightarrow> bool" where
  "is_letter c \<longleftrightarrow> is_alnum c \<and> \<not> is_digit c"

text \<open>The pattern of \<open>IsValidDomain\<close>; \<open>^\<close> and \<open>$\<close> anchor it to the whole text.\<close>

definition domain_label :: rexp where
  "domain_label =
     Seq (Class is_alnum)
       (Opt (Seq (UpTo 61 (Class (\<lambda>c. is_alnum c \<or> c = CHR ''-''))) (Class is_alnum)))"

definition domainRegex :: rexp where
  "domainRegex =
     Seq (Plus (Seq domain_label (Class (\<lambda>c. c = CHR ''.''))))
       (Seq (Times 2 (Class is_letter)) (Star (Class is_letter)))"

definition IsValidDomain :: "string \<Rightarrow> bool" where
  "IsValidDomain hostname \<longleftrightarrow> hostname \<noteq> '''' \<and> matches domainRegex hostname"

text \<open>\<open>time.Duration\<close> as text, for the errors of the leader election.\<close>

definition fmtFrac :: "nat \<Rightarrow> nat \<Rightarrow> string" where
  "fmtFrac v prec =
     (let f = v mod 10 ^ prec;
          digits = nat_dec f
      in if f = 0 then ''''
         else CHR ''.'' #
           rev (dropWhile (\<lambda>c. c = CHR ''0'') (rev (replicate (prec - length digits) CHR ''0'' @ digits))))"

definition Duration_String :: "int \<Rightarrow> string" where
  "Duration_String d =
     (let u = nat \<bar>d\<bar>;
          s = u div 1000000000;
          t = (if u = 0 then ''0s''
               else if u < 1000 then nat_dec u @ ''ns''
               else if u < 1000000 then
                 nat_dec (u div 1000) @ fmtFrac u 3 @ [CHR 0xC2, CHR 0xB5, CHR ''s'']
               else if u < 1000000000 then nat_dec (u div 1000000) @ fmtFrac u 6 @ ''ms''
               else (if s div 60 = 0 then ''''
                     else (if s div 3600 = 0 then '''' else nat_dec (s div 3600) @ ''h'') @
                       nat_dec (s div 60 mod 60) @ ''m'') @
                 nat_dec (s mod 60) @ fmtFrac u 9 @ ''s'')
      in if d < 0 then CHR ''-'' # t else t)"

section \<open>Replacement lists\<close>

text \<open>A text in single quotes, as in \<open>fmt\<close>'s patterns of the errors.\<close>

definition quoted :: "string \<Rightarrow> string" where
  "quoted s = CHR 0x27 # s @ [CHR 0x27]"

text \<open>The largest mask for the source of a rule.\<close>

definition max_mask :: "string \<Rightarrow> int" where
  "max_mask source =
     (case ParseIP source of
        Some parsedIP \<Rightarrow> if To4 parsedIP = None then 128 else 32
      | None \<Rightarrow> 32)"

definition net_text :: "net_config \<Rightarrow> string" where
  "net_text n = quoted (net_Source n @ ''/'' @ int_dec (net_Mask n))"

definition overlap :: "net_config \<Rightarrow> net_config \<Rightarrow> bool" where
  "overlap n1 n2 \<longleftrightarrow> IsNetworkOverlap (net_Source n1) (net_Mask n1) (net_Source n2) (net_Mask n2)"

text \<open>
  The loop over a list of network rules, which \<open>ValidateIPReplacementList\<close> and the global
  validator have with different texts.
\<close>

definition check_nets ::
  "(net_config \<Rightarrow> goerror) \<Rightarrow> (int \<Rightarrow> goerror) \<Rightarrow> (net_config \<Rightarrow> net_config \<Rightarrow> goerror) \<Rightarrow>
    net_config list \<Rightarrow> goerror option" where
  "check_nets invalid badMask overlaps nets =
     first_some (\<lambda>(i, netCfg).
       if \<not> IsValidIP (net_Source netCfg) \<or> \<not> IsValidIP (net_Target netCfg) then Some (invalid netCfg)
       else (let maxMask = max_mask (net_Source netCfg) in
       if net_Mask netCfg < 0 \<or> maxMask < net_Mask netCfg then Some (badMask maxMask)
       else first_some (\<lambda>(j, netCfg2).
         if i = j then None
         else if overlap netCfg netCfg2 then Some (overlaps netCfg netCfg2) else None)
         (List.enumerate 0 nets))) (List.enumerate 0 nets)"

definition check_ips ::
  "(ip_config \<Rightarrow> goerror) \<Rightarrow> (ip_config \<Rightarrow> goerror) \<Rightarrow> ip_config list \<Rightarrow> goerror option" where
  "check_ips invalid dup ips =
     error_of (fold_err (unique_step
       (\<lambda>ip. if \<not> IsValidIP (ip_Source ip) \<or> \<not> IsValidIP (ip_Target ip) then Some (invalid ip) else None)
       ip_Source dup) [] ips)"

definition ValidateIPReplacementList ::
  "ip_replacement_list \<Rightarrow> global_ip_replacement_list \<Rightarrow> goerror option" where
  "ValidateIPReplacementList lst globalList =
     and_then (check_nets
       (\<lambda>n. Errorf (''invalid IP in nets: source='' @ net_Source n @ '', target='' @ net_Target n))
       (\<lambda>m. Errorf (''nets.mask must be between 0 and '' @ int_dec m))
       (\<lambda>n n2. Errorf (''nets.net source '' @ net_text n @ '' and '' @ net_text n2 @ '' must not overlap''))
       (irl_Nets lst))
     (and_then (check_ips
       (\<lambda>ip. Errorf (''invalid IP in ips: source='' @ ip_Source ip @ '', target='' @ ip_Target ip))
       (\<lambda>ip. Errorf (''ips source '' @ quoted (ip_Source ip) @ '' must be unique''))
       (irl_IPs lst))
     (let globalNetNames = map gnr_Name (grl_Net globalList);
          globalIPNames = map gir_Name (grl_IP globalList)
      in and_then
        (first_some (\<lambda>name.
           if name \<notin> set globalNetNames
           then Some (Errorf (''global_nets '' @ quoted name @ '' does not exist in global_ip_replacement_list.net''))
           else None) (irl_GlobalNets lst))
        (first_some (\<lambda>name.
           if name \<notin> set globalIPNames
           then Some (Errorf (''global_ips '' @ quoted name @ '' does not exist in global_ip_replacement_list.ip''))
           else None) (irl_GlobalIPs lst))))"

text \<open>\<open>GlobalIPReplacementValidator\<close>: the names of both lists share one map.\<close>

definition GlobalIPReplacementValidator :: "config \<Rightarrow> goerror option" where
  "GlobalIPReplacementValidator cfg =
     (let globalList = cfg_GlobalIPReplacementList cfg in
      case fold_err (unique_step
          (\<lambda>g. if gnr_Name g = '''' then Some (Errorf ''global_ip_replacement_list.net.name is required'') else None)
          gnr_Name
          (\<lambda>g. Errorf (''global_ip_replacement_list.net.name '' @ quoted (gnr_Name g) @ '' must be unique'')))
        [] (grl_Net globalList) of
        Inl e \<Rightarrow> Some e
      | Inr names \<Rightarrow>
      (case fold_err (unique_step
          (\<lambda>g. if gir_Name g = '''' then Some (Errorf ''global_ip_replacement_list.ip.name is required'') else None)
          gir_Name
          (\<lambda>g. Errorf (''global_ip_replacement_list.ip.name '' @ quoted (gir_Name g) @ '' must be unique'')))
        names (grl_IP globalList) of
        Inl e \<Rightarrow> Some e
      | Inr _ \<Rightarrow>
          and_then (first_some (\<lambda>netConf.
            check_nets
              (\<lambda>n. Errorf (''invalid IP in global_ip_replacement_list.net: source='' @ net_Source n @
                 '', target='' @ net_Target n))
              (\<lambda>m. Errorf (''global_ip_replacement_list.net.mask must be between 0 and '' @ int_dec m))
              (\<lambda>n n2. Errorf (''global_ip_replacement_list.net source '' @ net_text n @ '' and '' @
                 net_text n2 @ '' must not overlap''))
              (gnr_Nets netConf)) (grl_Net globalList))
          (first_some (\<lambda>ip.
            check_ips
              (\<lambda>i. Errorf (''invalid IP in global_ip_replacement_list.ip: source='' @ ip_Source i @
                 '', target='' @ ip_Target i))
              (\<lambda>i. Errorf (''global_ip_replacement_list.ip source '' @ quoted (ip_Source i) @
                 '' must be unique in group '' @ quoted (gir_Name ip)))
              (gir_IPs ip)) (grl_IP globalList))))"

section \<open>Load balancers\<close>

definition lb_text :: "string \<Rightarrow> string \<Rightarrow> string" where
  "lb_text lbType name = ''loadbalancers.'' @ lbType @ '' '' @ quoted name"

definition validateAddresses :: "address_config list \<Rightarrow> string \<Rightarrow> string \<Rightarrow> goerror option" where
  "validateAddresses addresses name lbType =
     first_some (\<lambda>addr.
       if \<not> IsValidIP (addr_IP addr) then
         Some (Errorf (lb_text lbType name @ '': invalid IP in addresses: '' @ addr_IP addr))
       else if \<not> IsValidPort (addr_Port addr) then
         Some (Errorf (lb_text lbType name @ '': port must be between 0 and 65535: '' @ int_dec (addr_Port addr)))
       else None) addresses"

text \<open>The rules of the global groups that a list refers to, in the order of the loops.\<close>

definition referenced_nets :: "ip_replacement_list \<Rightarrow> global_ip_replacement_list \<Rightarrow> net_config list" where
  "referenced_nets lst globalList =
     concat (map (\<lambda>globalNetName. concat (map gnr_Nets
       (filter (\<lambda>g. gnr_Name g = globalNetName) (grl_Net globalList)))) (irl_GlobalNets lst))"

definition referenced_ips :: "ip_replacement_list \<Rightarrow> global_ip_replacement_list \<Rightarrow> ip_config list" where
  "referenced_ips lst globalList =
     concat (map (\<lambda>globalIPName. concat (map gir_IPs
       (filter (\<lambda>g. gir_Name g = globalIPName) (grl_IP globalList)))) (irl_GlobalIPs lst))"

text \<open>The loop over the referenced networks: the later ones, then the local ones.\<close>

fun check_referenced_nets ::
  "string \<Rightarrow> net_config list \<Rightarrow> net_config list \<Rightarrow> goerror option" where
  "check_referenced_nets name [] nets = None"
| "check_referenced_nets name (n1 # later) nets =
     and_then (first_some (\<lambda>n2.
         if overlap n1 n2 then
           Some (Errorf (''network overlap detected between referenced global nets '' @ net_text n1 @
             '' and '' @ net_text n2 @ '' in load balancer '' @ quoted name))
         else None) later)
     (and_then (first_some (\<lambda>lNet.
         if overlap n1 lNet then
           Some (Errorf (''network overlap detected: global_nets '' @ net_text n1 @
             '' overlaps with nets '' @ net_text lNet @ '' in load balancer '' @ quoted name))
         else None) nets)
     (check_referenced_nets name later nets))"

definition referenced_ip_step ::
  "string \<Rightarrow> ip_config list \<Rightarrow> string list \<Rightarrow> ip_config \<Rightarrow> goerror + string list" where
  "referenced_ip_step name ips referencedIPs gIP =
     (if ip_Source gIP \<in> set referencedIPs then
        Inl (Errorf (''duplicate source IP '' @ quoted (ip_Source gIP) @
          '' detected across referenced global_ips in load balancer '' @ quoted name))
      else (case first_some (\<lambda>lIP.
                if ip_Source gIP = ip_Source lIP then
                  Some (Errorf (''IP overlap detected: global_ips '' @ quoted (ip_Source gIP) @
                    '' overlaps with ips '' @ quoted (ip_Source lIP) @ '' in load balancer '' @ quoted name))
                else None) ips of
              Some e \<Rightarrow> Inl e
            | None \<Rightarrow> Inr (ip_Source gIP # referencedIPs)))"

definition validateIPReplacementList ::
  "ip_replacement_list \<Rightarrow> global_ip_replacement_list \<Rightarrow> string \<Rightarrow> string \<Rightarrow> goerror option" where
  "validateIPReplacementList lst globalList name lbType =
     (case ValidateIPReplacementList lst globalList of
        Some e \<Rightarrow> Some (Wrapf (lb_text lbType name) e)
      | None \<Rightarrow>
          and_then (check_referenced_nets name (referenced_nets lst globalList) (irl_Nets lst))
            (error_of (fold_err (referenced_ip_step name (irl_IPs lst)) [] (referenced_ips lst globalList))))"

text \<open>The body of the loop of \<open>LoadBalancerValidator\<close>, after the check of the name.\<close>

definition validate_lb :: "config \<Rightarrow> lb_config \<Rightarrow> goerror option" where
  "validate_lb cfg lb =
     (let name = GetName lb; t = lb_text (GetType lb) name in
      and_then
        (if GetHostName lb \<noteq> '''' \<and> \<not> IsValidDomain (GetHostName lb)
         then Some (Errorf (t @ '': invalid hostname: '' @ GetHostName lb)) else None)
     (and_then (validateAddresses (GetAddresses lb) name (GetType lb))
     (and_then
        (if GetIPReplacement lb then
           (let ipList = GetIPReplacementList lb in
            if irl_GlobalIPs ipList = [] \<and> irl_GlobalNets ipList = [] \<and> irl_Nets ipList = [] \<and> irl_IPs ipList = []
            then Some (Errorf (t @ '': ip_replacement_list is empty; at least one of nets, ips, global_nets, or global_ips must be provided when ip_replacement is enabled''))
            else validateIPReplacementList ipList (cfg_GlobalIPReplacementList cfg) name (GetType lb))
         else None)
     (case GetDefaultBackend lb of
        None \<Rightarrow> None
      | Some defBackend \<Rightarrow>
          if \<not> IsValidIP (db_IP defBackend) then
            Some (Errorf (t @ '': invalid IP in default_backend: '' @ db_IP defBackend))
          else if \<not> IsValidPort (sint (db_Port defBackend)) then
            Some (Errorf (t @ '': invalid port in default_backend: '' @ int_dec (sint (db_Port defBackend))))
          else None))))"

definition LoadBalancerValidator :: "config \<Rightarrow> goerror option" where
  "LoadBalancerValidator cfg =
     error_of (fold_err (\<lambda>names lb.
       (let name = GetName lb in
        if name = '''' then Inl (Errorf (''loadbalancers.'' @ GetType lb @ ''.name is required''))
        else if name \<in> set names then
          Inl (Errorf (''loadbalancers.'' @ GetType lb @ ''.name '' @ quoted name @
            '' must be unique across all loadbalancers''))
        else (case validate_lb cfg lb of Some e \<Rightarrow> Inl e | None \<Rightarrow> Inr (name # names))))
       [] (cfg_LoadBalancers cfg))"

section \<open>NGINX and Envoy\<close>

definition isValidRelativeURI :: "string \<Rightarrow> bool" where
  "isValidRelativeURI s =
     (if \<not> HasPrefix s ''/'' then False
      else (case url_Parse s of
              None \<Rightarrow> False
            | Some parsed \<Rightarrow>
                if url_Scheme parsed \<noteq> '''' \<or> url_Host parsed \<noteq> '''' then False
                else url_Path parsed \<noteq> ''''))"

definition validateNginxConfig :: "nginx_config \<Rightarrow> goerror option" where
  "validateNginxConfig lb =
     (let t = lb_text (ngx_Type lb) (ngx_Name lb) in
      if ngx_Protocol lb \<noteq> ''http'' \<and> ngx_Protocol lb \<noteq> ''https'' then
        Some (Errorf (t @ '': protocol must be one of: http, https, got: '' @ ngx_Protocol lb))
      else if ngx_Protocol lb = ''https'' \<and> \<not> IsValidDomain (ngx_Hostname lb) then
        (if ngx_Hostname lb = '''' then Some (Errorf (t @ '': hostname is required for https protocol''))
         else Some (Errorf (t @ '': invalid hostname: '' @ ngx_Hostname lb)))
      else if ngx_ListAPI lb = '''' then Some (Errorf ''list_api is required'')
      else if ngx_AddAPI lb = '''' then Some (Errorf ''add_api is required'')
      else if ngx_RemoveAPI lb = '''' then Some (Errorf ''remove_api is required'')
      else if \<not> isValidRelativeURI (ngx_ListAPI lb) then Some (Errorf ''list_api is invalid'')
      else if \<not> isValidRelativeURI (ngx_AddAPI lb) then Some (Errorf ''add_api is invalid'')
      else if \<not> isValidRelativeURI (ngx_RemoveAPI lb) then Some (Errorf ''remove_api is invalid'')
      else if ngx_UpstreamSyncPeriod lb < 0 then Some (Errorf ''upstream_sync_period must be non-negative'')
      else if ngx_FailTimeout lb < 0 then Some (Errorf ''fail_timeout must be non-negative'')
      else if ngx_RequestTimeout lb < 0 then Some (Errorf ''request_timeout must be non-negative'')
      else None)"

definition NginxValidator :: "config \<Rightarrow> goerror option" where
  "NginxValidator cfg =
     first_some (\<lambda>lb.
       let check = (\<lambda>nginx. map_option (Wrapf (''nginx '' @ quoted (ngx_Name nginx))) (validateNginxConfig nginx))
       in case lb of NginxConfig c \<Rightarrow> check c | NginxPtr c \<Rightarrow> check c | _ \<Rightarrow> None)
       (cfg_LoadBalancers cfg)"

definition validateEnvoyConfig :: "envoy_config \<Rightarrow> goerror option" where
  "validateEnvoyConfig lb =
     (if env_Protocol lb \<noteq> ''grpc'' then
        Some (Errorf (lb_text (env_Type lb) (env_Name lb) @ '': protocol must be grpc, got: '' @ env_Protocol lb))
      else if env_UpstreamSyncPeriod lb < 0 then Some (Errorf ''upstream_sync_period must be non-negative'')
      else if env_RequestTimeout lb < 0 then Some (Errorf ''request_timeout must be non-negative'')
      else None)"

definition EnvoyValidator :: "config \<Rightarrow> goerror option" where
  "EnvoyValidator cfg =
     first_some (\<lambda>lb.
       let check = (\<lambda>envoy. map_option (Wrapf (''envoy '' @ quoted (env_Name envoy))) (validateEnvoyConfig envoy))
       in case lb of EnvoyConfig c \<Rightarrow> check c | EnvoyPtr c \<Rightarrow> check c | _ \<Rightarrow> None)
       (cfg_LoadBalancers cfg)"

section \<open>Global settings\<close>

definition GlobalConfigValidator :: "config \<Rightarrow> goerror option" where
  "GlobalConfigValidator cfg =
     (if cfg_RequestPoolSize cfg < 1 \<or> 100 < cfg_RequestPoolSize cfg then
        Some (Errorf (''request_pool_size must be between 1 and 100, got '' @ int_dec (cfg_RequestPoolSize cfg)))
      else if cfg_GlobalUpstreamSyncPeriod cfg < 0 then
        Some (Errorf ''global_upstream_sync_period must be non-negative'')
      else and_then
        (case cfg_DefaultBackend cfg of
           None \<Rightarrow> None
         | Some b \<Rightarrow>
             if \<not> IsValidIP (db_IP b) then Some (Errorf (''global default_backend: invalid IP: '' @ db_IP b))
             else if \<not> IsValidPort (sint (db_Port b)) then
               Some (Errorf (''global default_backend: invalid port: '' @ int_dec (sint (db_Port b))))
             else None)
        (first_some (\<lambda>lb.
           if GetRequestPoolSize lb < 1 \<or> 100 < GetRequestPoolSize lb then
             Some (Errorf (''loadbalancer '' @ quoted (GetName lb) @ '': request_pool_size must be between 1 and 100, got: '' @
               int_dec (GetRequestPoolSize lb)))
           else if GetRequestTimeOut lb \<le> 0 then
             Some (Errorf (''loadbalancer '' @ quoted (GetName lb) @ '': request_timeout must be non-negative, got: '' @
               int_dec (GetRequestTimeOut lb)))
           else None) (cfg_LoadBalancers cfg)))"

definition LeaderElectionValidator :: "config \<Rightarrow> goerror option" where
  "LeaderElectionValidator cfg =
     (let le = cfg_LeaderElection cfg in
      if \<not> le_Enabled le then None
      else if le_LeaseName le = '''' then Some (Errorf ''leader_election.lease_name is required when enabled'')
      else if le_LeaseNamespace le = '''' then
        Some (Errorf ''leader_election.lease_namespace is required when enabled'')
      else if le_LeaseDuration le \<le> 0 then Some (Errorf ''leader_election.lease_duration must be positive'')
      else if le_RenewDeadline le \<le> 0 then Some (Errorf ''leader_election.renew_deadline must be positive'')
      else if le_RetryPeriod le \<le> 0 then Some (Errorf ''leader_election.retry_period must be positive'')
      else if le_LeaseDuration le \<le> le_RenewDeadline le then
        Some (Errorf (''leader_election.lease_duration ('' @ Duration_String (le_LeaseDuration le) @
          '') must be greater than renew_deadline ('' @ Duration_String (le_RenewDeadline le) @ '')''))
      else if le_RenewDeadline le \<le> le_RetryPeriod le then
        Some (Errorf (''leader_election.renew_deadline ('' @ Duration_String (le_RenewDeadline le) @
          '') must be greater than retry_period ('' @ Duration_String (le_RetryPeriod le) @ '')''))
      else None)"

definition LogValidator :: "config \<Rightarrow> goerror option" where
  "LogValidator cfg =
     (let log = cfg_Log cfg in
      if \<not> log_Enabled log then None
      else if ToLower (log_Level log) \<notin> set [''debug'', ''info'', ''warn'', ''error'', ''fatal''] then
        Some (Errorf ''log.level must be one of: debug, info, warn, error, fatal'')
      else if ToLower (log_Format log) \<notin> set [''json'', ''console''] then
        Some (Errorf ''log.format must be one of: console, json'')
      else None)"

definition MetricsValidator :: "config \<Rightarrow> goerror option" where
  "MetricsValidator cfg =
     (let metrics = cfg_Metrics cfg in
      if \<not> met_Enabled metrics then None
      else if met_Port metrics < 0 \<or> 65535 < met_Port metrics then
        Some (Errorf ''metrics.port must be between 0 and 65535'')
      else if met_URI metrics = '''' then Some (Errorf ''metrics.uri is required when enabled'')
      else None)"

definition KubernetesValidator :: "config \<Rightarrow> goerror option" where
  "KubernetesValidator cfg =
     (if kub_ResyncPeriod (cfg_Kubernetes cfg) < 0
      then Some (Errorf ''kubernetes.resync_period must be non-negative'') else None)"

text \<open>\<open>CompositeValidator\<close>: all of them, in this order.\<close>

definition validators :: "(config \<Rightarrow> goerror option) list" where
  "validators =
     [GlobalConfigValidator, LeaderElectionValidator, LogValidator, MetricsValidator,
      KubernetesValidator, GlobalIPReplacementValidator, LoadBalancerValidator, NginxValidator,
      EnvoyValidator]"

definition Validate :: "config \<Rightarrow> goerror option" where
  "Validate cfg = first_some (\<lambda>v. map_option (Wrapf ''validation failed'') (v cfg)) validators"

end
