(* ===== verification/Certificates.thy ===== *)
theory Certificates
  imports Validation
begin

text \<open>
  \<open>internal/adapters/certificate/loader.go\<close>: loading the certificate, key and CA files of a load
  balancer, and the checks they must pass. The file system and Go's \<open>crypto/tls\<close> and
  \<open>crypto/x509\<close> are parameters: the records \<open>files\<close> and \<open>x509_env\<close> hold what the loader calls of
  them. One reading of the clock stands for those that a function takes moments apart.
\<close>

section \<open>What is called\<close>

record files =
  fs_Stat :: "string \<Rightarrow> bool"
  fs_ReadFile :: "string \<Rightarrow> goerror + string"

text \<open>\<open>x509.Certificate.PublicKey\<close>, with the length in bits, or the name of another type.\<close>

datatype public_key = RsaKey nat | EcdsaKey nat | Ed25519Key | OtherKey string

record x509_cert =
  x5_NotBefore :: int
  x5_NotAfter :: int
  x5_VerifyHostname :: "string \<Rightarrow> goerror option"
  x5_PublicKey :: public_key

text \<open>
  \<open>tls.X509KeyPair\<close> returns the chain of certificates in DER form; \<open>time_text\<close> is how \<open>fmt\<close> prints
  a time.
\<close>

record x509_env =
  x5_X509KeyPair :: "string \<Rightarrow> string \<Rightarrow> goerror + string list"
  x5_ParseCertificate :: "string \<Rightarrow> goerror + x509_cert"
  x5_AppendCertsFromPEM :: "string \<Rightarrow> bool"
  x5_Now :: int
  x5_time_text :: "int \<Rightarrow> string"

record certificate_content =
  cc_Cert :: string
  cc_Key :: string
  cc_CA :: string

definition no_certificates :: certificate_content where
  "no_certificates = \<lparr>cc_Cert = '''', cc_Key = '''', cc_CA = ''''\<rparr>"

section \<open>The loader\<close>

definition IsFileExists :: "files \<Rightarrow> string \<Rightarrow> bool" where
  "IsFileExists fs filename = fs_Stat fs filename"

definition validateCA :: "files \<Rightarrow> x509_env \<Rightarrow> string \<Rightarrow> goerror option" where
  "validateCA fs x caFilePath =
     (case fs_ReadFile fs caFilePath of
        Inl e \<Rightarrow> Some (Wrapf (''failed to read ca_file '' @ quoted caFilePath) e)
      | Inr caContent \<Rightarrow>
          if \<not> x5_AppendCertsFromPEM x caContent
          then Some (Errorf (''invalid CA certificate in ca_file '' @ quoted caFilePath)) else None)"

definition check_key_strength :: "public_key \<Rightarrow> goerror option" where
  "check_key_strength key =
     (case key of
        RsaKey bits \<Rightarrow>
          if bits < 2048 then
            Some (Errorf (''certificate uses insecure RSA key length: '' @ nat_dec bits @
              '' bits (minimum 2048 required)''))
          else None
      | EcdsaKey bits \<Rightarrow>
          if bits < 256 then
            Some (Errorf (''certificate uses insecure ECDSA key length: '' @ nat_dec bits @
              '' bits (minimum 256 required)''))
          else None
      | Ed25519Key \<Rightarrow> None
      | OtherKey t \<Rightarrow> Some (Errorf (''unsupported public key type: '' @ t)))"

text \<open>Reading the first element of an empty chain panics, which ends the process.\<close>

definition index_panic :: goerror where
  "index_panic = Errorf ''panic: runtime error: index out of range [0] with length 0''"

definition validateCertKey :: "files \<Rightarrow> x509_env \<Rightarrow> string \<Rightarrow> string \<Rightarrow> string \<Rightarrow> goerror option" where
  "validateCertKey fs x certPath keyPath hostname =
     (case fs_ReadFile fs certPath of
        Inl e \<Rightarrow> Some (Wrapf (''failed to read cert_file '' @ quoted certPath) e)
      | Inr certContent \<Rightarrow>
     (case fs_ReadFile fs keyPath of
        Inl e \<Rightarrow> Some (Wrapf (''failed to read key_file '' @ quoted keyPath) e)
      | Inr keyContent \<Rightarrow>
     (case x5_X509KeyPair x certContent keyContent of
        Inl e \<Rightarrow> Some (Wrapf ''invalid certificate or key'' e)
      | Inr [] \<Rightarrow> Some index_panic
      | Inr (leaf # _) \<Rightarrow>
     (case x5_ParseCertificate x leaf of
        Inl e \<Rightarrow> Some (Wrapf ''failed to parse certificate'' e)
      | Inr x509Cert \<Rightarrow>
          if x5_NotAfter x509Cert < x5_Now x then
            Some (Errorf (''certificate '' @ certPath @ '' has expired: NotAfter='' @
              x5_time_text x (x5_NotAfter x509Cert)))
          else if x5_Now x < x5_NotBefore x509Cert then
            Some (Errorf (''certificate '' @ certPath @ '' is not yet valid: NotBefore='' @
              x5_time_text x (x5_NotBefore x509Cert)))
          else and_then
            (if hostname \<noteq> '''' then
               map_option (Wrapf (''certificate '' @ certPath @ '' SAN does not match hostname '' @ hostname))
                 (x5_VerifyHostname x509Cert hostname)
             else None)
            (check_key_strength (x5_PublicKey x509Cert))))))"

definition validateCert ::
  "files \<Rightarrow> x509_env \<Rightarrow> string \<Rightarrow> string \<Rightarrow> string \<Rightarrow> string \<Rightarrow> goerror option" where
  "validateCert fs x certPath keyPath caPath hostname =
     (if certPath \<noteq> '''' \<and> keyPath = '''' \<or> certPath = '''' \<and> keyPath \<noteq> '''' then
        Some (Errorf ''both cert_file and key_file must be provided together'')
      else if certPath \<noteq> '''' \<and> \<not> IsFileExists fs certPath then
        Some (Errorf (''cert_file '' @ certPath @ '' does not exist''))
      else if keyPath \<noteq> '''' \<and> \<not> IsFileExists fs keyPath then
        Some (Errorf (''key_file '' @ keyPath @ '' does not exist''))
      else and_then
        (if certPath \<noteq> '''' then
           map_option (Wrapf ''invalid certificate'') (validateCertKey fs x certPath keyPath hostname)
         else None)
        (if caPath \<noteq> '''' then
           (if \<not> IsFileExists fs caPath then Some (Errorf (''ca_file '' @ caPath @ '' does not exist''))
            else map_option (Wrapf ''invalid ca_file'') (validateCA fs x caPath))
         else None))"

text \<open>\<open>FileLoader.Load\<close>.\<close>

definition FileLoader_Load ::
  "files \<Rightarrow> x509_env \<Rightarrow> string \<Rightarrow> string \<Rightarrow> string \<Rightarrow> string \<Rightarrow> goerror + certificate_content" where
  "FileLoader_Load fs x certPath keyPath caPath hostname =
     (case validateCert fs x certPath keyPath caPath hostname of
        Some e \<Rightarrow> Inl e
      | None \<Rightarrow>
     (case (if certPath = '''' then Inr ('''', '''')
            else (case fs_ReadFile fs certPath of
                    Inl e \<Rightarrow> Inl (Wrapf (''failed to read cert file '' @ quoted certPath) e)
                  | Inr certContent \<Rightarrow>
                 (case fs_ReadFile fs keyPath of
                    Inl e \<Rightarrow> Inl (Wrapf (''failed to read key file '' @ quoted keyPath) e)
                  | Inr keyContent \<Rightarrow> Inr (certContent, keyContent)))) of
        Inl e \<Rightarrow> Inl e
      | Inr (certContent, keyContent) \<Rightarrow>
     (case (if caPath = '''' then Inr '''' else fs_ReadFile fs caPath) of
        Inl e \<Rightarrow> Inl (Wrapf (''failed to read ca file '' @ quoted caPath) e)
      | Inr caContent \<Rightarrow>
          Inr \<lparr>cc_Cert = certContent, cc_Key = keyContent, cc_CA = caContent\<rparr>)))"

section \<open>What a loaded certificate is\<close>

text \<open>
  Loaded contents: a pair whose certificate parses, is not expired, matches the host name and has
  a strong key, or no pair at all; and a CA text that the pool takes, or none.
\<close>

definition strong_key :: "public_key \<Rightarrow> bool" where
  "strong_key key \<longleftrightarrow>
     (case key of RsaKey n \<Rightarrow> 2048 \<le> n | EcdsaKey n \<Rightarrow> 256 \<le> n | Ed25519Key \<Rightarrow> True | OtherKey _ \<Rightarrow> False)"

definition good_pair :: "x509_env \<Rightarrow> string \<Rightarrow> string \<Rightarrow> string \<Rightarrow> bool" where
  "good_pair x cert key hostname \<longleftrightarrow>
     (\<exists>leaf rest c. x5_X509KeyPair x cert key = Inr (leaf # rest) \<and> x5_ParseCertificate x leaf = Inr c \<and>
        x5_NotBefore c \<le> x5_Now x \<and> x5_Now x \<le> x5_NotAfter c \<and>
        (hostname \<noteq> '''' \<longrightarrow> x5_VerifyHostname c hostname = None) \<and> strong_key (x5_PublicKey c))"

lemma check_key_strength_iff: "check_key_strength k = None \<longleftrightarrow> strong_key k"
  by (auto simp: check_key_strength_def strong_key_def split: public_key.split)

lemma validateCertKey_iff:
  "validateCertKey fs x certPath keyPath hostname = None \<longleftrightarrow>
     (\<exists>cert key. fs_ReadFile fs certPath = Inr cert \<and> fs_ReadFile fs keyPath = Inr key \<and>
        good_pair x cert key hostname)"
  by (auto simp: validateCertKey_def good_pair_def check_key_strength_iff not_less
      split: sum.split list.split)

lemma validateCA_iff:
  "validateCA fs x p = None \<longleftrightarrow> (\<exists>ca. fs_ReadFile fs p = Inr ca \<and> x5_AppendCertsFromPEM x ca)"
  by (auto simp: validateCA_def split: sum.split)

lemma FileLoader_Load_Inr:
  "FileLoader_Load fs x certPath keyPath caPath hostname = Inr cc \<longleftrightarrow>
     (certPath = '''' \<longleftrightarrow> keyPath = '''') \<and>
     (if certPath = '''' then cc_Cert cc = '''' \<and> cc_Key cc = ''''
      else fs_Stat fs certPath \<and> fs_Stat fs keyPath \<and>
        fs_ReadFile fs certPath = Inr (cc_Cert cc) \<and> fs_ReadFile fs keyPath = Inr (cc_Key cc) \<and>
        good_pair x (cc_Cert cc) (cc_Key cc) hostname) \<and>
     (if caPath = '''' then cc_CA cc = ''''
      else fs_Stat fs caPath \<and> fs_ReadFile fs caPath = Inr (cc_CA cc) \<and> x5_AppendCertsFromPEM x (cc_CA cc))"
proof -
  have valid: "validateCert fs x certPath keyPath caPath hostname = None \<longleftrightarrow>
      (certPath = '''' \<longleftrightarrow> keyPath = '''') \<and>
      (certPath \<noteq> '''' \<longrightarrow> fs_Stat fs certPath \<and> fs_Stat fs keyPath \<and>
        validateCertKey fs x certPath keyPath hostname = None) \<and>
      (caPath \<noteq> '''' \<longrightarrow> fs_Stat fs caPath \<and> validateCA fs x caPath = None)"
    by (auto simp: validateCert_def IsFileExists_def)
  show ?thesis
  proof (cases "validateCert fs x certPath keyPath caPath hostname")
    case None
    with valid show ?thesis
      by (cases cc) (auto simp: FileLoader_Load_def validateCertKey_iff validateCA_iff)
  next
    case (Some e)
    with valid show ?thesis
      by (auto simp: FileLoader_Load_def validateCertKey_iff validateCA_iff split: if_splits)
  qed
qed

text \<open>
  C35: the loader returns contents exactly when the certificate and the key are given together or
  not at all, the files exist and can be read, the pair is good (it parses, is valid now, matches
  the host name if there is one, and its key is strong enough), and the CA file is one that the
  certificate pool takes; the contents are those of the files.
\<close>

theorem FileLoader_Load_iff:
  "FileLoader_Load fs x certPath keyPath caPath hostname = Inr cc \<longleftrightarrow>
     (certPath = '''' \<longleftrightarrow> keyPath = '''') \<and>
     (if certPath = '''' then cc_Cert cc = '''' \<and> cc_Key cc = ''''
      else fs_Stat fs certPath \<and> fs_Stat fs keyPath \<and>
        fs_ReadFile fs certPath = Inr (cc_Cert cc) \<and> fs_ReadFile fs keyPath = Inr (cc_Key cc) \<and>
        good_pair x (cc_Cert cc) (cc_Key cc) hostname) \<and>
     (if caPath = '''' then cc_CA cc = ''''
      else fs_Stat fs caPath \<and> fs_ReadFile fs caPath = Inr (cc_CA cc) \<and> x5_AppendCertsFromPEM x (cc_CA cc))"
  by (rule FileLoader_Load_Inr)

end
