(* ===== verification/NginxSetup.thy ===== *)
theory NginxSetup
  imports NginxAdapter Certificates
begin

text \<open>
  Building the adapters: \<open>NewNginxClientSet\<close> and \<open>NewNginxAdapter\<close> of
  \<open>internal/adapters/loadbalancer/nginx\<close> and the factory \<open>internal/adapters/loadbalancer/factory.go\<close>.
  Of the transport only what depends on the configuration is kept.
\<close>

text \<open>The client certificates and root CAs of the TLS configuration.\<close>

definition client_certificates :: "x509_env \<Rightarrow> nginx_config \<Rightarrow> goerror + string list list" where
  "client_certificates x ngx =
     (if ngx_Protocol ngx = ''https'' \<and> (0 < length (ngx_Cert ngx) \<or> 0 < length (ngx_Key ngx)) then
        (case x5_X509KeyPair x (ngx_Cert ngx) (ngx_Key ngx) of
           Inl e \<Rightarrow> Inl (Wrapf ''failed to load client certificate/key'' e)
         | Inr cert \<Rightarrow>
             (case cert of
                [] \<Rightarrow> Inl (Errorf (''empty certificate chain for host: '' @ ngx_Hostname ngx))
              | leaf # _ \<Rightarrow>
                  (case x5_ParseCertificate x leaf of
                     Inl e \<Rightarrow> Inl (Wrapf ''failed to parse client certificate'' e)
                   | Inr x509Cert \<Rightarrow>
                       if x5_NotAfter x509Cert < x5_Now x then
                         Inl (Errorf (''certificate '' @ ngx_Hostname ngx @ '' has expired: NotAfter='' @
                           x5_time_text x (x5_NotAfter x509Cert)))
                       else Inr [cert])))
      else Inr [])"

definition root_CAs :: "x509_env \<Rightarrow> nginx_config \<Rightarrow> goerror + string option" where
  "root_CAs x ngx =
     (if ngx_Protocol ngx = ''https'' \<and> 0 < length (ngx_CA ngx) then
        (if \<not> x5_AppendCertsFromPEM x (ngx_CA ngx)
         then Inl (Errorf ''failed to append CA certificate to pool'')
         else Inr (Some (ngx_CA ngx)))
      else Inr None)"

definition new_client :: "http_client \<Rightarrow> nginx_config \<Rightarrow> address_config \<Rightarrow> nginx_client" where
  "new_client http ngx addr =
     \<lparr>cl_client = http,
      cl_baseURL = ngx_Protocol ngx @ ''://'' @ JoinHostPort (addr_IP addr) (int_dec (addr_Port addr)),
      cl_host = ngx_Hostname ngx\<rparr>"

definition NewNginxClientSet :: "x509_env \<Rightarrow> nginx_config \<Rightarrow> goerror + nginx_client list" where
  "NewNginxClientSet x ngx =
     (case client_certificates x ngx of
        Inl e \<Rightarrow> Inl e
      | Inr certs \<Rightarrow>
     (case root_CAs x ngx of
        Inl e \<Rightarrow> Inl e
      | Inr cas \<Rightarrow>
          (let http = \<lparr>hc_Timeout = ngx_RequestTimeout ngx, hc_ServerName = ngx_Hostname ngx,
                 hc_Certificates = certs, hc_RootCAs = cas\<rparr>
           in Inr (map (new_client http ngx) (ngx_Addresses ngx)))))"

text \<open>The adapter, which starts with an empty cache.\<close>

definition NewNginxAdapter :: "x509_env \<Rightarrow> nginx_config \<Rightarrow> goerror + nginx_adapter" where
  "NewNginxAdapter x cfg =
     (if ngx_Type cfg \<noteq> ''nginx'' then
        Inl (Errorf (''invalid load balancer type: '' @ ngx_Type cfg @ '', expected nginx''))
      else (case NewNginxClientSet x cfg of
              Inl e \<Rightarrow> Inl (Wrapf (''failed to create clients for nginx addresses '' @ ngx_Name cfg) e)
            | Inr clients \<Rightarrow>
                Inr \<lparr>na_clients = clients, na_config = cfg, na_semaphore = ngx_RequestPoolSize cfg\<rparr>))"

definition new_nginx_state :: "'n \<Rightarrow> 'n nginx" where
  "new_nginx_state n = \<lparr>ng_cache = [], ng_cacheExp = [], ng_net = n\<rparr>"

text \<open>\<open>LoadBalancerFactory.CreateLoadBalancerAdapter\<close>.\<close>

definition CreateLoadBalancerAdapter :: "x509_env \<Rightarrow> lb_config \<Rightarrow> goerror + nginx_adapter" where
  "CreateLoadBalancerAdapter x lbConfig =
     (if GetType lbConfig = ''nginx'' then
        (case lbConfig of
           NginxConfig c \<Rightarrow> NewNginxAdapter x c
         | NginxPtr c \<Rightarrow> NewNginxAdapter x c
         | _ \<Rightarrow> Inl (Errorf (''failed to cast load balancer config to NginxConfig for '' @ GetName lbConfig)))
      else if GetType lbConfig = ''envoy'' then Inl (Errorf ''envoy adapter not implemented'')
      else Inl (Errorf (''unsupported load balancer type: '' @ GetType lbConfig)))"

section \<open>When the adapter can be built\<close>

lemma CreateLoadBalancerAdapter_nginx:
  assumes "ngx_Type c = ''nginx''"
    and "ngx_Cert c = '''' \<and> ngx_Key c = '''' \<or> good_pair x (ngx_Cert c) (ngx_Key c) h"
    and "ngx_CA c = '''' \<or> x5_AppendCertsFromPEM x (ngx_CA c)"
  shows "\<exists>http. CreateLoadBalancerAdapter x (NginxConfig c) =
      Inr \<lparr>na_clients = map (new_client http c) (ngx_Addresses c), na_config = c,
        na_semaphore = ngx_RequestPoolSize c\<rparr> \<and>
    hc_Timeout http = ngx_RequestTimeout c \<and> hc_ServerName http = ngx_Hostname c"
proof -
  have "\<exists>certs. client_certificates x c = Inr certs"
    using assms(2) by (auto simp: client_certificates_def good_pair_def)
  then obtain certs where certs: "client_certificates x c = Inr certs" ..
  have "\<exists>cas. root_CAs x c = Inr cas"
    using assms(3) by (auto simp: root_CAs_def)
  then obtain cas where "root_CAs x c = Inr cas" ..
  with certs assms(1) show ?thesis
    by (auto simp: CreateLoadBalancerAdapter_def NewNginxAdapter_def NewNginxClientSet_def Let_def)
qed

end
