(* ===== verification/Convergence.thy ===== *)
theory Convergence
  imports NginxServer NginxSetup ReconcileProps
begin

text \<open>
  What a reconciliation of \<open>internal/controller/controller.go\<close> through the NGINX adapter makes of the
  servers, where these obey the laws of \<open>NginxServer\<close>: afterwards they serve what the services ask
  for. A simulated server shows that the laws can be met.
\<close>

section \<open>Syncing all upstreams\<close>

text \<open>
  What an entry of the desired state makes of the upstream of that name: a preserved one is left
  alone, the others are brought to what is asked for.
\<close>

definition entry_served ::
  "bool \<Rightarrow> upstream option \<Rightarrow> (string \<Rightarrow> 64 word option) \<Rightarrow> string \<Rightarrow> 64 word option" where
  "entry_served replaces entry f =
     (case entry of
        Some u \<Rightarrow> if up_PreserveExistingBackends u then f else after_sync replaces (target (up_Backends u)) f
      | None \<Rightarrow> f)"

definition entry_agrees :: "bool \<Rightarrow> upstream \<Rightarrow> (string \<Rightarrow> 64 word option) \<Rightarrow> bool" where
  "entry_agrees replaces u f \<longleftrightarrow> up_PreserveExistingBackends u \<or> agrees replaces (target (up_Backends u)) f"

definition entry_sendable :: "(string \<Rightarrow> backend \<Rightarrow> bool) \<Rightarrow> string \<times> upstream \<Rightarrow> bool" where
  "entry_sendable ok e \<longleftrightarrow>
     up_PreserveExistingBackends (snd e) \<or> up_Name (snd e) = fst e \<and> sendable ok (snd e)"

lemma entry_served_simps [simp]:
  "entry_served r None f = f"
  "up_PreserveExistingBackends u \<Longrightarrow> entry_served r (Some u) f = f"
  "\<not> up_PreserveExistingBackends u \<Longrightarrow> entry_served r (Some u) f = after_sync r (target (up_Backends u)) f"
  by (simp_all add: entry_served_def)

lemma sync_desired_step:
  assumes "obeying env a r ok I S" and "entry_sendable ok e"
    and "I (ng_net st)" and "coherent (na_clients a) S st"
  shows "\<exists>errs' st'. sync_desired env a (errs, st) e = (errs @ errs', st') \<and> I (ng_net st') \<and>
    coherent (na_clients a) S st' \<and>
    S (ng_net st') = (\<lambda>c. if c \<in> set (na_clients a)
      then (S (ng_net st) c)(fst e := entry_served r (Some (snd e)) (S (ng_net st) c (fst e)))
      else S (ng_net st) c) \<and>
    (errs' = [] \<longleftrightarrow> (\<forall>c \<in> set (na_clients a). entry_agrees r (snd e) (S (ng_net st) c (fst e))))"
proof (cases "up_PreserveExistingBackends (snd e)")
  case True
  then show ?thesis
    using assms(3,4)
    by (intro exI [of _ "[]"] exI [of _ st]) (simp add: sync_desired_def entry_agrees_def fun_eq_iff)
next
  case False
  let ?u = "snd e"
  have u: "up_Name ?u = fst e" "sendable ok ?u"
    using assms(2) False by (simp_all add: entry_sendable_def)
  have es: "after_sync r (target (up_Backends ?u)) f = entry_served r (Some ?u) f" for f
    using False by simp
  obtain res st' where run: "SyncUpstream env a ?u st = (res, st')" and props: "I (ng_net st')"
      "coherent (na_clients a) S st'"
      "S (ng_net st') = (\<lambda>c. if c \<in> set (na_clients a)
        then (S (ng_net st) c)(fst e := entry_served r (Some ?u) (S (ng_net st) c (fst e)))
        else S (ng_net st) c)"
      "res = None \<longleftrightarrow> (\<forall>c \<in> set (na_clients a). agrees r (target (up_Backends ?u)) (S (ng_net st) c (fst e)))"
    using SyncUpstream_served [OF assms(1) u(2) assms(3,4), unfolded u(1) es] by (elim exE conjE) rule
  show ?thesis
  proof (cases res)
    case None
    with run False have "sync_desired env a (errs, st) e = (errs @ [], st')"
      by (simp add: sync_desired_def)
    with None props False show ?thesis
      by (intro exI [of _ "[]"] exI [of _ st']) (simp add: entry_agrees_def)
  next
    case (Some err)
    let ?new = "[Wrapf (''sync upstream '' @ up_Name ?u @ '' failed'') err]"
    from run False Some have "sync_desired env a (errs, st) e = (errs @ ?new, st')"
      by (simp add: sync_desired_def)
    with Some props False show ?thesis
      by (intro exI [of _ ?new] exI [of _ st']) (simp add: entry_agrees_def)
  qed
qed

lemma sync_desired_loop:
  assumes "obeying env a r ok I S"
    and "list_all (entry_sendable ok) desired" and "distinct (map fst desired)"
    and "I (ng_net st)" and "coherent (na_clients a) S st"
  shows "\<exists>errs' st'. foldl (sync_desired env a) (errs, st) desired = (errs @ errs', st') \<and> I (ng_net st') \<and>
    coherent (na_clients a) S st' \<and>
    S (ng_net st') = (\<lambda>c. if c \<in> set (na_clients a)
      then (\<lambda>up. entry_served r (map_of desired up) (S (ng_net st) c up)) else S (ng_net st) c) \<and>
    (errs' = [] \<longleftrightarrow> (\<forall>c \<in> set (na_clients a). \<forall>up u. map_of desired up = Some u \<longrightarrow>
       entry_agrees r u (S (ng_net st) c up)))"
  using assms(2-)
proof (induction desired arbitrary: errs st)
  case Nil
  then show ?case by (intro exI [of _ "[]"] exI [of _ st]) (simp add: fun_eq_iff)
next
  case (Cons e desired)
  have "entry_sendable ok e" using Cons.prems(1) by simp
  from sync_desired_step [OF assms(1) this Cons.prems(3,4), of errs]
  obtain e1 st1 where st1: "sync_desired env a (errs, st) e = (errs @ e1, st1)" "I (ng_net st1)"
      "coherent (na_clients a) S st1"
      "S (ng_net st1) = (\<lambda>c. if c \<in> set (na_clients a)
        then (S (ng_net st) c)(fst e := entry_served r (Some (snd e)) (S (ng_net st) c (fst e)))
        else S (ng_net st) c)"
      "e1 = [] \<longleftrightarrow> (\<forall>c \<in> set (na_clients a). entry_agrees r (snd e) (S (ng_net st) c (fst e)))"
    by (elim exE conjE) rule
  have p: "list_all (entry_sendable ok) desired" "distinct (map fst desired)"
    using Cons.prems(1,2) by simp_all
  from Cons.IH [OF p st1(2,3), of "errs @ e1"]
  obtain e2 st2 where st2: "foldl (sync_desired env a) (errs @ e1, st1) desired = ((errs @ e1) @ e2, st2)"
      "I (ng_net st2)" "coherent (na_clients a) S st2"
      "S (ng_net st2) = (\<lambda>c. if c \<in> set (na_clients a)
        then (\<lambda>up. entry_served r (map_of desired up) (S (ng_net st1) c up)) else S (ng_net st1) c)"
      "e2 = [] \<longleftrightarrow> (\<forall>c \<in> set (na_clients a). \<forall>up u. map_of desired up = Some u \<longrightarrow>
         entry_agrees r u (S (ng_net st1) c up))"
    by (elim exE conjE) rule
  have fresh: "map_of desired (fst e) = None"
    using Cons.prems(2) by (simp add: map_of_eq_None_iff)
  have split: "map_of (e # desired) up = (if up = fst e then Some (snd e) else map_of desired up)" for up
    by (cases e) simp
  have "S (ng_net st2) = (\<lambda>c. if c \<in> set (na_clients a)
      then (\<lambda>up. entry_served r (map_of (e # desired) up) (S (ng_net st) c up)) else S (ng_net st) c)"
    unfolding st2(4) st1(4) split by (auto simp: fun_eq_iff fresh)
  moreover have "e1 @ e2 = [] \<longleftrightarrow> (\<forall>c \<in> set (na_clients a). \<forall>up u. map_of (e # desired) up = Some u \<longrightarrow>
      entry_agrees r u (S (ng_net st) c up))"
    unfolding append_is_Nil_conv st1(5) st2(5) split st1(4) by (auto simp: fresh split: if_splits)
  ultimately show ?case
    using st1(1) st2(1-3) by (intro exI [of _ "e1 @ e2"] exI [of _ st2]) simp
qed

section \<open>A reconciliation\<close>

text \<open>
  What is served of an upstream after a reconciliation. An upstream that is not asked for is
  removed, where orphans are pruned.
\<close>

definition reconciled ::
  "bool \<Rightarrow> bool \<Rightarrow> upstream option \<Rightarrow> (string \<Rightarrow> 64 word option) \<Rightarrow> string \<Rightarrow> 64 word option" where
  "reconciled replaces prune entry f =
     (if entry = None \<and> prune then (\<lambda>s. None) else entry_served replaces entry f)"

lemma SyncAllUpstreams_served:
  assumes obeying: "obeying env a r ok I S"
    and sendable: "list_all (entry_sendable ok) desired" and distinct: "distinct (map fst desired)"
    and I: "I (ng_net st)" and coh: "coherent (na_clients a) S st"
  shows "\<exists>res st'. SyncAllUpstreams env a desired st = (res, st') \<and> I (ng_net st') \<and>
    coherent (na_clients a) S st' \<and>
    (\<forall>c \<in> set (na_clients a). \<forall>up. S (ng_net st') c up =
       reconciled r (ngx_PruneOrphans (na_config a)) (map_of desired up) (S (ng_net st) c up)) \<and>
    (res = None \<longleftrightarrow> (\<forall>c \<in> set (na_clients a). \<forall>up u. map_of desired up = Some u \<longrightarrow>
       entry_agrees r u (S (ng_net st) c up)))"
proof -
  obtain errs st1 where st1: "foldl (sync_desired env a) ([], st) desired = (errs, st1)"
      "I (ng_net st1)" "coherent (na_clients a) S st1"
      "S (ng_net st1) = (\<lambda>c. if c \<in> set (na_clients a)
        then (\<lambda>up. entry_served r (map_of desired up) (S (ng_net st) c up)) else S (ng_net st) c)"
      "errs = [] \<longleftrightarrow> (\<forall>c \<in> set (na_clients a). \<forall>up u. map_of desired up = Some u \<longrightarrow>
         entry_agrees r u (S (ng_net st) c up))"
    using sync_desired_loop [OF assms, of "[]", unfolded append_Nil] by (elim exE conjE) rule
  show ?thesis
  proof (cases "ngx_PruneOrphans (na_config a)")
    case False
    then have "SyncAllUpstreams env a desired st = (ErrorOrNil errs, st1)"
      by (simp add: SyncAllUpstreams_def st1(1))
    moreover have "\<forall>c \<in> set (na_clients a). \<forall>up. S (ng_net st1) c up =
        reconciled r (ngx_PruneOrphans (na_config a)) (map_of desired up) (S (ng_net st) c up)"
      using False by (simp add: st1(4) reconciled_def)
    ultimately show ?thesis
      using st1(2,3,5)
      by (intro exI [of _ "ErrorOrNil errs"] exI [of _ st1]) (simp only: ErrorOrNil_None_iff simp_thms)
  next
    case True
    have laws: "nginx_servers env (na_config a) (na_clients a) r ok I S" and dist: "distinct (na_clients a)"
      using obeying by (simp_all add: obeying_def distinct_map)
    obtain more st2 where st2: "foldl (goroutine env (prune_client env a desired)) (errs, st1) (na_clients a) =
          (errs @ more, st2)" "I (ng_net st2)" "coherent (na_clients a) S st2"
        "S (ng_net st2) = (\<lambda>c. if c \<in> set (na_clients a) then pruned desired (S (ng_net st1) c)
          else S (ng_net st1) c)" "more = [] \<longleftrightarrow> (\<forall>c \<in> set (na_clients a). True)"
      using goroutines_served [OF laws prune_client_served [OF obeying, of desired] subset_refl dist st1(2,3),
          of errs]
      by (elim exE conjE) rule
    then have "SyncAllUpstreams env a desired st = (ErrorOrNil errs, st2)"
      using True by (simp add: SyncAllUpstreams_def st1(1))
    moreover have "\<forall>c \<in> set (na_clients a). \<forall>up. S (ng_net st2) c up =
        reconciled r (ngx_PruneOrphans (na_config a)) (map_of desired up) (S (ng_net st) c up)"
      using True by (auto simp: st2(4) st1(4) reconciled_def pruned_def has_key_def fun_eq_iff)
    ultimately show ?thesis
      using st2(2,3) st1(5)
      by (intro exI [of _ "ErrorOrNil errs"] exI [of _ st2]) (simp only: ErrorOrNil_None_iff simp_thms)
  qed
qed

lemma desiredState_sendable:
  assumes "\<And>up u. reconcile_entry k cfg upstreams lb svcs up = Some u \<Longrightarrow>
    up_PreserveExistingBackends u \<or> sendable ok u"
  shows "list_all (entry_sendable ok) (desiredState k cfg upstreams lb svcs)"
  unfolding list_all_iff
proof
  fix e
  assume "e \<in> set (desiredState k cfg upstreams lb svcs)"
  then have "(fst e, snd e) \<in> set (desiredState k cfg upstreams lb svcs)" by simp
  with desiredState_distinct have "map_of (desiredState k cfg upstreams lb svcs) (fst e) = Some (snd e)"
    by (rule map_of_is_SomeI)
  then have entry: "reconcile_entry k cfg upstreams lb svcs (fst e) = Some (snd e)"
    by (simp add: desiredState_lookup)
  then obtain v where "desired_entry k cfg upstreams lb svcs (fst e) = Some v"
      "snd e = fallback_step cfg upstreams lb (fst e) v"
    by (auto simp: reconcile_entry_def)
  with desired_entry_names(1) [OF this(1)] assms [OF entry] show "entry_sendable ok e"
    by (simp add: entry_sendable_def)
qed

lemma syncSingleLoadBalancer_served:
  assumes "obeying env a r ok I S"
    and "k8s_HasSynced (dep_k8s d)" and "k8s_ListServices (dep_k8s d) = Inr svcs"
    and asked: "asked = reconcile_entry (dep_k8s d) (dep_config d) (st_Upstreams c) lb svcs"
    and room: "\<And>up u. asked up = Some u \<Longrightarrow> up_PreserveExistingBackends u \<or> sendable ok u"
    and "I (ng_net (world c))" and "coherent (na_clients a) S (world c)"
    and run: "syncSingleLoadBalancer d lb (nginx_lba env a) c = (res, c')"
  shows "I (ng_net (world c'))" and "coherent (na_clients a) S (world c')"
    and "\<forall>cl \<in> set (na_clients a). \<forall>up. S (ng_net (world c')) cl up =
      reconciled r (ngx_PruneOrphans (na_config a)) (asked up) (S (ng_net (world c)) cl up)"
    and "res = None \<longleftrightarrow> (\<forall>cl \<in> set (na_clients a). \<forall>up u. asked up = Some u \<longrightarrow>
      entry_agrees r u (S (ng_net (world c)) cl up))"
proof -
  let ?desired = "desiredState (dep_k8s d) (dep_config d) (st_Upstreams c) lb svcs"
  have look: "map_of ?desired = asked"
    by (simp add: fun_eq_iff desiredState_lookup asked)
  have "list_all (entry_sendable ok) ?desired"
    by (rule desiredState_sendable) (use room in \<open>simp add: asked\<close>)
  note served = SyncAllUpstreams_served [OF assms(1) this desiredState_distinct assms(6,7), unfolded look]
  obtain res' st' where st': "SyncAllUpstreams env a ?desired (world c) = (res', st')" "I (ng_net st')"
      "coherent (na_clients a) S st'"
      "\<forall>cl \<in> set (na_clients a). \<forall>up. S (ng_net st') cl up =
         reconciled r (ngx_PruneOrphans (na_config a)) (asked up) (S (ng_net (world c)) cl up)"
      "res' = None \<longleftrightarrow> (\<forall>cl \<in> set (na_clients a). \<forall>up u. asked up = Some u \<longrightarrow>
         entry_agrees r u (S (ng_net (world c)) cl up))"
    using served by (elim exE conjE) rule
  have "lba_SyncAllUpstreams (nginx_lba env a) ?desired (world c) = (res', st')"
    using st'(1) by (simp add: nginx_lba_def)
  with syncSingleLoadBalancer_synced(1,2) [OF assms(2,3) run refl refl]
  have "world c' = st'" "res = None \<longleftrightarrow> res' = None" by simp_all
  with st' show "I (ng_net (world c'))" and "coherent (na_clients a) S (world c')"
    and "\<forall>cl \<in> set (na_clients a). \<forall>up. S (ng_net (world c')) cl up =
      reconciled r (ngx_PruneOrphans (na_config a)) (asked up) (S (ng_net (world c)) cl up)"
    and "res = None \<longleftrightarrow> (\<forall>cl \<in> set (na_clients a). \<forall>up u. asked up = Some u \<longrightarrow>
      entry_agrees r u (S (ng_net (world c)) cl up))"
    by (simp_all only:)
qed

section \<open>Sequences of calls\<close>

text \<open>
  The abstract specification of the adapter: what all servers serve is its whole state, a call
  changes it in one step and says whether a server refused something.
\<close>

datatype adapter_call = PushUpstream upstream | PushAll "(string, upstream) gomap"

fun spec_call ::
  "bool \<Rightarrow> bool \<Rightarrow> nginx_client list \<Rightarrow> adapter_call \<Rightarrow> (nginx_client \<Rightarrow> served) \<Rightarrow>
    bool \<times> (nginx_client \<Rightarrow> served)" where
  "spec_call replaces prune cs (PushUpstream u) F =
     (\<forall>c \<in> set cs. agrees replaces (target (up_Backends u)) (F c (up_Name u)),
      \<lambda>c. if c \<in> set cs
          then (F c)(up_Name u := after_sync replaces (target (up_Backends u)) (F c (up_Name u))) else F c)"
| "spec_call replaces prune cs (PushAll desired) F =
     (\<forall>c \<in> set cs. \<forall>(up, u) \<in> set desired. entry_agrees replaces u (F c up),
      \<lambda>c. if c \<in> set cs then (\<lambda>up. reconciled replaces prune (map_of desired up) (F c up)) else F c)"

text \<open>The adapter's own calls, and sequences of either, with what each call reports.\<close>

fun adapter_run :: "'n net_env \<Rightarrow> nginx_adapter \<Rightarrow> adapter_call \<Rightarrow> 'n nginx \<Rightarrow> bool \<times> 'n nginx" where
  "adapter_run env a (PushUpstream u) st = (case SyncUpstream env a u st of (res, st) \<Rightarrow> (res = None, st))"
| "adapter_run env a (PushAll desired) st =
     (case SyncAllUpstreams env a desired st of (res, st) \<Rightarrow> (res = None, st))"

fun in_sequence :: "('c \<Rightarrow> 's \<Rightarrow> bool \<times> 's) \<Rightarrow> 'c list \<Rightarrow> 's \<Rightarrow> bool list \<times> 's" where
  "in_sequence f [] s = ([], s)"
| "in_sequence f (c # cs) s =
     (case f c s of (ok, s) \<Rightarrow> (case in_sequence f cs s of (oks, s) \<Rightarrow> (ok # oks, s)))"

fun call_fits :: "(string \<Rightarrow> backend \<Rightarrow> bool) \<Rightarrow> adapter_call \<Rightarrow> bool" where
  "call_fits ok (PushUpstream u) \<longleftrightarrow> sendable ok u"
| "call_fits ok (PushAll desired) \<longleftrightarrow> list_all (entry_sendable ok) desired \<and> distinct (map fst desired)"

lemma SyncAllUpstreams_others:
  assumes "obeying env a r ok I S"
    and "list_all (entry_sendable ok) desired" and "distinct (map fst desired)"
    and "I (ng_net st)" and "coherent (na_clients a) S st" and "c \<notin> set (na_clients a)"
  shows "S (ng_net (snd (SyncAllUpstreams env a desired st))) c = S (ng_net st) c"
proof -
  obtain errs st1 where st1: "foldl (sync_desired env a) ([], st) desired = (errs, st1)"
      "I (ng_net st1)" "coherent (na_clients a) S st1" "S (ng_net st1) c = S (ng_net st) c"
    using sync_desired_loop [OF assms(1-5), of "[]", unfolded append_Nil] assms(6) by auto
  have laws: "nginx_servers env (na_config a) (na_clients a) r ok I S" and dist: "distinct (na_clients a)"
    using assms(1) by (simp_all add: obeying_def distinct_map)
  obtain more st2 where "foldl (goroutine env (prune_client env a desired)) (errs, st1) (na_clients a) =
        (errs @ more, st2)" "S (ng_net st2) c = S (ng_net st1) c"
    using goroutines_served [OF laws prune_client_served [OF assms(1), of desired] subset_refl dist st1(2,3), of errs]
      assms(6) by auto
  then show ?thesis
    using st1(1,4) by (simp add: SyncAllUpstreams_def)
qed

lemma adapter_call_refines:
  assumes "obeying env a r ok I S" and "call_fits ok call"
    and "I (ng_net st)" and "coherent (na_clients a) S st"
  shows "\<exists>b st'. adapter_run env a call st = (b, st') \<and> I (ng_net st') \<and> coherent (na_clients a) S st' \<and>
    spec_call r (ngx_PruneOrphans (na_config a)) (na_clients a) call (S (ng_net st)) = (b, S (ng_net st'))"
proof (cases call)
  case (PushUpstream u)
  have "sendable ok u" using assms(2) PushUpstream by simp
  note served = SyncUpstream_served [OF assms(1) this assms(3,4)]
  obtain res st' where run: "SyncUpstream env a u st = (res, st')" and st': "I (ng_net st')"
      "coherent (na_clients a) S st'"
      "S (ng_net st') = (\<lambda>c. if c \<in> set (na_clients a)
        then (S (ng_net st) c)(up_Name u := after_sync r (target (up_Backends u)) (S (ng_net st) c (up_Name u)))
        else S (ng_net st) c)"
      "res = None \<longleftrightarrow> (\<forall>c \<in> set (na_clients a). agrees r (target (up_Backends u)) (S (ng_net st) c (up_Name u)))"
    using served by (elim exE conjE) rule
  show ?thesis
    unfolding PushUpstream adapter_run.simps spec_call.simps run prod.case st'(3,4) [symmetric]
    using st'(1,2) by blast
next
  case (PushAll desired)
  have fits: "list_all (entry_sendable ok) desired" "distinct (map fst desired)"
    using assms(2) PushAll by simp_all
  obtain res st' where run: "SyncAllUpstreams env a desired st = (res, st')" and st': "I (ng_net st')"
      "coherent (na_clients a) S st'"
      "\<forall>c \<in> set (na_clients a). \<forall>up. S (ng_net st') c up =
         reconciled r (ngx_PruneOrphans (na_config a)) (map_of desired up) (S (ng_net st) c up)"
      "res = None \<longleftrightarrow> (\<forall>c \<in> set (na_clients a). \<forall>up u. map_of desired up = Some u \<longrightarrow>
         entry_agrees r u (S (ng_net st) c up))"
    using SyncAllUpstreams_served [OF assms(1) fits assms(3,4)] by (elim exE conjE) rule
  have served: "(\<lambda>c. if c \<in> set (na_clients a)
      then (\<lambda>up. reconciled r (ngx_PruneOrphans (na_config a)) (map_of desired up) (S (ng_net st) c up))
      else S (ng_net st) c) = S (ng_net st')"
    using st'(3) SyncAllUpstreams_others [OF assms(1) fits assms(3,4)] run by (auto simp: fun_eq_iff)
  have agree: "(\<forall>c \<in> set (na_clients a). \<forall>(up, u) \<in> set desired. entry_agrees r u (S (ng_net st) c up)) \<longleftrightarrow>
      res = None"
    using fits(2) unfolding st'(4) by auto
  show ?thesis
    unfolding PushAll adapter_run.simps spec_call.simps run prod.case served agree
    using st'(1,2) by blast
qed

lemma adapter_calls_refine:
  assumes "obeying env a r ok I S"
    and "list_all (call_fits ok) calls" and "I (ng_net st)" and "coherent (na_clients a) S st"
  shows "\<exists>bs st'. in_sequence (adapter_run env a) calls st = (bs, st') \<and> I (ng_net st') \<and>
    coherent (na_clients a) S st' \<and>
    in_sequence (spec_call r (ngx_PruneOrphans (na_config a)) (na_clients a)) calls (S (ng_net st)) =
      (bs, S (ng_net st'))"
  using assms(2-)
proof (induction calls arbitrary: st)
  case (Cons call calls)
  obtain b st1 where st1: "adapter_run env a call st = (b, st1)" "I (ng_net st1)"
      "coherent (na_clients a) S st1"
      "spec_call r (ngx_PruneOrphans (na_config a)) (na_clients a) call (S (ng_net st)) = (b, S (ng_net st1))"
    using adapter_call_refines [OF assms(1) _ Cons.prems(2,3), of call] Cons.prems(1) by auto
  obtain bs st2 where st2: "in_sequence (adapter_run env a) calls st1 = (bs, st2)" "I (ng_net st2)"
      "coherent (na_clients a) S st2"
      "in_sequence (spec_call r (ngx_PruneOrphans (na_config a)) (na_clients a)) calls (S (ng_net st1)) =
        (bs, S (ng_net st2))"
    using Cons.IH [OF _ st1(2,3)] Cons.prems(1) by auto
  show ?case
    by (intro exI [of _ "b # bs"] exI [of _ st2]) (simp add: st1(1,4) st2)
qed simp

lemma coherent_fresh: "coherent cs S (new_nginx_state n)"
  by (simp add: coherent_def new_nginx_state_def)

end
