(* ===== verification/ServerDemo.thy ===== *)
theory ServerDemo
  imports Convergence
begin

text \<open>
  A simulated NGINX server with room for two servers in the upstream \<open>web\<close>. It reads the URLs that
  the adapter requests and answers in the format that the adapter parses, and so shows that the
  laws of \<open>NginxServer\<close> can be met.
\<close>

section \<open>The server\<close>

text \<open>The weights of the two servers.\<close>

type_synonym sim = "64 word option \<times> 64 word option"

definition sim_addr1 :: string where "sim_addr1 = ''10.0.0.1:30080''"

definition sim_addr2 :: string where "sim_addr2 = ''10.0.0.2:30080''"

definition sim_backends :: "sim \<Rightarrow> backend list" where
  "sim_backends n =
     (case fst n of Some w \<Rightarrow> [\<lparr>be_IP = ''10.0.0.1'', be_Port = 30080, be_Weight = w\<rparr>] | None \<Rightarrow> []) @
     (case snd n of Some w \<Rightarrow> [\<lparr>be_IP = ''10.0.0.2'', be_Port = 30080, be_Weight = w\<rparr>] | None \<Rightarrow> [])"

definition sim_set :: "string \<Rightarrow> 64 word option \<Rightarrow> sim \<Rightarrow> sim" where
  "sim_set s w n =
     (if s = sim_addr1 then (w, snd n) else if s = sim_addr2 then (fst n, w) else n)"

definition sim_Do :: "string \<Rightarrow> string \<Rightarrow> string \<Rightarrow> sim \<Rightarrow> http_reply \<times> sim" where
  "sim_Do method url host n =
     (case map_of (path_params url) ''server'' of
        None \<Rightarrow> (Reply 200 (render_bulk [(''web'', sim_backends n)]) None, n)
      | Some s \<Rightarrow>
          (Reply 200 '''' None,
           sim_set s (case map_of (path_params url) ''weight'' of
               None \<Rightarrow> None
             | Some w \<Rightarrow> map_option word_of_int (Atoi w)) n))"

definition sim_env :: "sim net_env" where
  "sim_env =
     \<lparr>ne_NewRequest = (\<lambda>m u. None), ne_Do = sim_Do, ne_backoff = (\<lambda>t n. (None, n)),
      ne_Acquire = (\<lambda>n. (None, n)), ne_Release = (\<lambda>n. n), ne_Now = (\<lambda>n. 0)\<rparr>"

definition sim_served :: "sim \<Rightarrow> nginx_client \<Rightarrow> served" where
  "sim_served n c up s =
     (if c = demo_client \<and> up = ''web''
      then (if s = sim_addr1 then fst n else if s = sim_addr2 then snd n else None) else None)"

definition sim_weights :: "64 word set" where "sim_weights = {1, 2}"

definition sim_inv :: "sim \<Rightarrow> bool" where
  "sim_inv n \<longleftrightarrow> fst n \<in> insert None (Some ` sim_weights) \<and> snd n \<in> insert None (Some ` sim_weights)"

definition sim_room :: "string \<Rightarrow> backend \<Rightarrow> bool" where
  "sim_room up b \<longleftrightarrow>
     up = ''web'' \<and> server_addr b \<in> {sim_addr1, sim_addr2} \<and> be_Weight b \<in> sim_weights"

section \<open>Its laws\<close>

lemma path_params_prefix: "CHR ''?'' \<notin> set a \<Longrightarrow> path_params (a @ p) = path_params p"
proof -
  assume "CHR ''?'' \<notin> set a"
  then have "Cut (a @ p) CHR ''?'' = map_option (\<lambda>(x, y). (a @ x, y)) (Cut p CHR ''?'')"
    by (cases "Cut p CHR ''?''"; induction a) auto
  then show ?thesis
    by (simp add: path_params_def split: option.split)
qed

lemma base_params:
  assumes "\<not> HasPrefix path ''/''" and "CHR ''?'' \<notin> set (cl_baseURL c)"
  shows "path_params (request_url c path) = path_params path"
proof -
  have url: "request_url c path = (cl_baseURL c @ ''/'') @ path"
    using assms(1) by (simp add: request_url_def TrimPrefix_def)
  show ?thesis
    unfolding url by (rule path_params_prefix) (use assms(2) in simp)
qed

lemma request_params:
  "\<not> HasPrefix path ''/'' \<Longrightarrow> path_params (request_url demo_client path) = path_params path"
  by (rule base_params) (simp_all add: demo_client_def)

lemma demo_apis:
  "TrimPrefix (ngx_AddAPI demo_ngx) ''/'' = ''api?add=''"
  "TrimPrefix (ngx_RemoveAPI demo_ngx) ''/'' = ''api?remove=''"
  by (simp_all add: demo_ngx_def TrimPrefix_def HasPrefix_def)

lemma demo_paths:
  "\<not> HasPrefix (buildAddPath demo_ngx up s w) ''/''"
  "\<not> HasPrefix (buildRemovePath demo_ngx up s) ''/''"
  by (simp_all add: buildAddPath_def buildRemovePath_def demo_apis HasPrefix_def Let_def)

lemma demo_api_params:
  "path_params ''api?add='' = [(''add'', '''')]" "path_params ''api?remove='' = [(''remove'', '''')]"
  "path_params ''list'' = []"
  by (simp_all add: path_params_def ParseQuery_flag)

lemma sim_params:
  "map_of (path_params (request_url demo_client (buildAddPath demo_ngx up s w))) ''server'' = Some s"
  "map_of (path_params (request_url demo_client (buildAddPath demo_ngx up s w))) ''weight'' =
     Some (int_dec (sint w))"
  "map_of (path_params (request_url demo_client (buildRemovePath demo_ngx up s))) ''server'' = Some s"
  "map_of (path_params (request_url demo_client (buildRemovePath demo_ngx up s))) ''weight'' = None"
  "map_of (path_params (request_url demo_client ''list'')) ''server'' = None"
  using build_paths_decode [of demo_ngx up s w]
  by (simp_all add: request_params [OF demo_paths(1)] request_params [OF demo_paths(2)] demo_apis
      request_params [of "''list''", simplified HasPrefix_def, simplified] demo_api_params)

lemma sim_weight_cases: "w \<in> sim_weights \<Longrightarrow> w = 1 \<or> w = 2"
  by (simp add: sim_weights_def)

lemma sim_inv_cases:
  assumes "sim_inv n"
  obtains w1 w2 where "n = (w1, w2)" and "w1 \<in> {None, Some 1, Some 2}" and "w2 \<in> {None, Some 1, Some 2}"
  using assms that [of "fst n" "snd n"] by (auto simp: sim_inv_def sim_weights_def)

lemma demo_hosts:
  "cleanIP ''10.0.0.1'' = ''10.0.0.1''" "cleanIP ''10.0.0.2'' = ''10.0.0.2''"
  by (simp_all add: cleanIP_def TrimSpace_ends plain_def Trim_def)

lemma demo_decimals: "int_dec 30080 = ''30080''" "int_dec 1 = ''1''" "int_dec 2 = ''2''"
  by (simp_all add: go_eval)

lemma sim_addrs:
  "server_addr \<lparr>be_IP = ''10.0.0.1'', be_Port = 30080, be_Weight = w\<rparr> = sim_addr1"
  "server_addr \<lparr>be_IP = ''10.0.0.2'', be_Port = 30080, be_Weight = w\<rparr> = sim_addr2"
  "sim_addr1 \<noteq> sim_addr2" "sim_addr2 \<noteq> sim_addr1"
  by (simp_all add: server_addr_def formatServerAddr_def sim_addr1_def sim_addr2_def
      demo_hosts demo_decimals ContainsByte_def)

text \<open>What it lists.\<close>

lemma sim_backends_ok:
  assumes "sim_inv n"
  shows "list_all backend_ok (sim_backends n)"
  by (rule sim_inv_cases [OF assms])
    (auto simp: sim_backends_def backend_ok_def bare_host_def plain_def)

lemma sim_parse:
  assumes "sim_inv n"
  shows "parseBulkNginxBackends (render_bulk [(''web'', sim_backends n)]) =
    (if sim_backends n = [] then [] else [(''web'', sim_backends n)])"
proof -
  have "name_ok ''web''" by (simp add: name_ok_def plain_def)
  then show ?thesis
    using sim_backends_ok [OF assms] by (subst parseBulk_render) simp_all
qed

lemma sim_listed:
  assumes "sim_inv n"
  shows "listing_ok (parseBulkNginxBackends (render_bulk [(''web'', sim_backends n)]))"
    and "listed (parseBulkNginxBackends (render_bulk [(''web'', sim_backends n)])) = sim_served n demo_client"
proof -
  obtain w1 w2 where n: "n = (w1, w2)" by fastforce
  show "listing_ok (parseBulkNginxBackends (render_bulk [(''web'', sim_backends n)]))"
    unfolding sim_parse [OF assms] unfolding n
    by (cases w1; cases w2) (simp_all add: listing_ok_def sim_backends_def sim_addrs)
  have "listed (if sim_backends n = [] then [] else [(''web'', sim_backends n)]) up s =
      sim_served n demo_client up s" for up s
    unfolding n
    by (cases w1; cases w2)
      (auto simp: listed_def slice_get_def sim_served_def sim_backends_def sim_addrs)
  then show "listed (parseBulkNginxBackends (render_bulk [(''web'', sim_backends n)])) = sim_served n demo_client"
    unfolding sim_parse [OF assms] by (simp only: fun_eq_iff simp_thms)
qed

lemma sim_body:
  assumes "sim_inv n"
  shows "length (render_bulk [(''web'', sim_backends n)]) \<le> 10 * 1024 * 1024"
  by (rule sim_inv_cases [OF assms])
    (auto simp: sim_backends_def render_bulk_def render_lines_def render_server_def demo_decimals)

text \<open>The requests.\<close>

lemma sim_answers:
  "answers sim_env c path n 200 (case sim_Do ''GET'' (request_url c path) (cl_host c) n of (Reply _ b _, _) \<Rightarrow> b)
     (snd (sim_Do ''GET'' (request_url c path) (cl_host c) n))"
  by (simp add: answers_def sim_env_def sim_Do_def split: option.split)

lemma sim_weight_parse: "w \<in> sim_weights \<Longrightarrow> map_option word_of_int (Atoi (int_dec (sint w))) = Some w"
  by (auto dest!: sim_weight_cases simp: Atoi_def ParseInt_int_dec)

lemma sim_add:
  assumes "sim_inv n" and "sim_room up b"
  defines "n1 \<equiv> sim_set (server_addr b) (Some (be_Weight b)) n"
  shows "snd (sim_Do ''GET'' (request_url demo_client (buildAddPath demo_ngx up (server_addr b) (be_Weight b))) h n) = n1"
    and "sim_inv n1"
    and "sim_served n1 = set_served (sim_served n) demo_client up ((sim_served n demo_client up)(server_addr b \<mapsto> be_Weight b))"
proof -
  have b: "up = ''web''" "server_addr b = sim_addr1 \<or> server_addr b = sim_addr2" "be_Weight b \<in> sim_weights"
    using assms(2) by (simp_all add: sim_room_def)
  show "snd (sim_Do ''GET'' (request_url demo_client (buildAddPath demo_ngx up (server_addr b) (be_Weight b))) h n) = n1"
    by (simp add: sim_Do_def sim_params sim_weight_parse [OF b(3)] n1_def)
  show "sim_inv n1"
    using assms(1) b(2,3) by (auto simp: n1_def sim_inv_def sim_set_def)
  show "sim_served n1 = set_served (sim_served n) demo_client up
      ((sim_served n demo_client up)(server_addr b \<mapsto> be_Weight b))"
    using b(2) unfolding b(1) n1_def
    by (auto simp: fun_eq_iff sim_served_def set_served_def sim_set_def sim_addrs)
qed

lemma sim_remove:
  assumes "sim_inv n" and "sim_served n demo_client up s \<noteq> None"
  defines "n1 \<equiv> sim_set s None n"
  shows "snd (sim_Do ''GET'' (request_url demo_client (buildRemovePath demo_ngx up s)) h n) = n1"
    and "sim_inv n1"
    and "sim_served n1 = set_served (sim_served n) demo_client up ((sim_served n demo_client up)(s := None))"
proof -
  have up: "up = ''web''" and s: "s = sim_addr1 \<or> s = sim_addr2"
    using assms(2) by (simp_all add: sim_served_def split: if_splits)
  show "snd (sim_Do ''GET'' (request_url demo_client (buildRemovePath demo_ngx up s)) h n) = n1"
    by (simp add: sim_Do_def sim_params n1_def)
  show "sim_inv n1"
    using assms(1) by (auto simp: n1_def sim_inv_def sim_set_def)
  show "sim_served n1 = set_served (sim_served n) demo_client up ((sim_served n demo_client up)(s := None))"
    using s unfolding up n1_def
    by (auto simp: fun_eq_iff sim_served_def set_served_def sim_set_def sim_addrs)
qed

lemma sim_laws: "nginx_servers sim_env demo_ngx [demo_client] True sim_room sim_inv sim_served"
proof -
  have list: "\<exists>body n1. answers sim_env demo_client (TrimPrefix (ngx_ListAPI demo_ngx) ''/'') n 200 body n1 \<and>
      length body \<le> 10 * 1024 * 1024 \<and> listing_ok (parseBulkNginxBackends body) \<and>
      listed (parseBulkNginxBackends body) = sim_served n demo_client \<and> sim_inv n1 \<and> sim_served n1 = sim_served n"
    if "sim_inv n" for n
  proof -
    have "TrimPrefix (ngx_ListAPI demo_ngx) ''/'' = ''list''"
      using demo_list_path by (simp add: demo_adapter_def)
    moreover have "sim_Do ''GET'' (request_url demo_client ''list'') (cl_host demo_client) n =
        (Reply 200 (render_bulk [(''web'', sim_backends n)]) None, n)"
      by (simp add: sim_Do_def sim_params)
    ultimately have "answers sim_env demo_client (TrimPrefix (ngx_ListAPI demo_ngx) ''/'') n 200
        (render_bulk [(''web'', sim_backends n)]) n"
      by (simp add: answers_def sim_env_def)
    with sim_listed [OF that] sim_body [OF that] that show ?thesis by blast
  qed
  have add: "\<exists>body n1. answers sim_env demo_client (buildAddPath demo_ngx up (server_addr b) (be_Weight b)) n 200 body n1 \<and>
      sim_inv n1 \<and> sim_served n1 =
        set_served (sim_served n) demo_client up ((sim_served n demo_client up)(server_addr b \<mapsto> be_Weight b))"
    if "sim_inv n" "sim_room up b" for n up b
    using sim_answers sim_add [OF that] by metis
  have remove: "\<exists>body n1. answers sim_env demo_client (buildRemovePath demo_ngx up s) n 200 body n1 \<and>
      sim_inv n1 \<and> sim_served n1 =
        set_served (sim_served n) demo_client up ((sim_served n demo_client up)(s := None))"
    if "sim_inv n" "sim_served n demo_client up s \<noteq> None" for n up s
    using sim_answers sim_remove [OF that] by metis
  have "ne_Acquire sim_env n = (None, n)" "ne_Release sim_env n = n" for n
    by (simp_all add: sim_env_def)
  with list add remove show ?thesis
    unfolding nginx_servers_def by (simp add: Let_def)
qed

section \<open>Two servers\<close>

text \<open>A second client, and two such servers on one network; the URL says which of them is asked.\<close>

definition other_client :: nginx_client where
  "other_client = \<lparr>cl_client = demo_http, cl_baseURL = ''http://10.0.0.8:80'', cl_host = ''''\<rparr>"

definition pair_adapter :: nginx_adapter where
  "pair_adapter =
     demo_adapter\<lparr>na_clients := [demo_client, other_client], na_config := demo_ngx\<lparr>ngx_PruneOrphans := True\<rparr>\<rparr>"

definition pair_Do :: "string \<Rightarrow> string \<Rightarrow> string \<Rightarrow> sim \<times> sim \<Rightarrow> http_reply \<times> sim \<times> sim" where
  "pair_Do method url host n =
     (if HasPrefix url ''http://10.0.0.8:80/''
      then map_prod id (Pair (fst n)) (sim_Do method url host (snd n))
      else map_prod id (\<lambda>m. (m, snd n)) (sim_Do method url host (fst n)))"

definition pair_env :: "(sim \<times> sim) net_env" where
  "pair_env =
     \<lparr>ne_NewRequest = (\<lambda>m u. None), ne_Do = pair_Do, ne_backoff = (\<lambda>t n. (None, n)),
      ne_Acquire = (\<lambda>n. (None, n)), ne_Release = (\<lambda>n. n), ne_Now = (\<lambda>n. 0)\<rparr>"

definition pair_served :: "sim \<times> sim \<Rightarrow> nginx_client \<Rightarrow> served" where
  "pair_served n c = (if c = other_client then sim_served (snd n) demo_client else sim_served (fst n) c)"

definition pair_inv :: "sim \<times> sim \<Rightarrow> bool" where
  "pair_inv n \<longleftrightarrow> sim_inv (fst n) \<and> sim_inv (snd n)"

lemma two_clients: "demo_client \<noteq> other_client" "cl_host other_client = cl_host demo_client"
  by (simp_all add: demo_client_def other_client_def)

lemma pair_answers_demo:
  assumes "answers sim_env demo_client path n1 status body n1'"
  shows "answers pair_env demo_client path (n1, n2) status body (n1', n2)"
proof -
  have "\<not> HasPrefix (request_url demo_client path) ''http://10.0.0.8:80/''"
    by (simp add: request_url_def demo_client_def HasPrefix_def)
  with assms show ?thesis
    by (simp add: answers_def sim_env_def pair_env_def pair_Do_def)
qed

lemma pair_answers_other:
  assumes "answers sim_env demo_client path n2 status body n2'" and "\<not> HasPrefix path ''/''"
  shows "answers pair_env other_client path (n1, n2) status body (n1, n2')"
proof -
  have "HasPrefix (request_url other_client path) ''http://10.0.0.8:80/''"
    by (simp add: request_url_def other_client_def HasPrefix_def)
  moreover have params: "path_params (request_url other_client path) = path_params (request_url demo_client path)"
    unfolding request_params [OF assms(2)]
    by (rule base_params) (simp_all add: assms(2) other_client_def)
  have "sim_Do ''GET'' (request_url other_client path) h n2 = sim_Do ''GET'' (request_url demo_client path) h n2" for h
    unfolding sim_Do_def params ..
  ultimately show ?thesis
    using assms(1) by (simp add: answers_def sim_env_def pair_env_def pair_Do_def two_clients)
qed

lemma pair_served_demo:
  "sim_served n1' = set_served (sim_served n1) demo_client up f \<Longrightarrow>
    pair_served (n1', n2) = set_served (pair_served (n1, n2)) demo_client up f"
  using two_clients(1) by (auto simp: pair_served_def set_served_def fun_eq_iff)

lemma pair_served_other:
  "sim_served n2' = set_served (sim_served n2) demo_client up f \<Longrightarrow>
    pair_served (n1, n2') = set_served (pair_served (n1, n2)) other_client up f"
  by (auto simp: pair_served_def set_served_def fun_eq_iff)


lemma list_path: "\<not> HasPrefix (TrimPrefix (ngx_ListAPI demo_ngx) ''/'') ''/''"
  using demo_list_path by (simp add: demo_adapter_def HasPrefix_def)

lemma pair_listing:
  assumes "c \<in> {demo_client, other_client}" and "pair_inv n"
  shows "\<exists>body n'. answers pair_env c (TrimPrefix (ngx_ListAPI demo_ngx) ''/'') n 200 body n' \<and>
      length body \<le> 10 * 1024 * 1024 \<and> listing_ok (parseBulkNginxBackends body) \<and>
      listed (parseBulkNginxBackends body) = pair_served n c \<and> pair_inv n' \<and> pair_served n' = pair_served n"
proof -
  obtain n1 n2 where n: "n = (n1, n2)" "sim_inv n1" "sim_inv n2"
    using assms(2) by (cases n) (simp add: pair_inv_def)
  note list = nginx_servers_list [OF sim_laws, of demo_client]
  show ?thesis
  proof (cases "c = other_client")
    case True
    obtain body n2' where "answers sim_env demo_client (TrimPrefix (ngx_ListAPI demo_ngx) ''/'') n2 200 body n2'"
        "length body \<le> 10 * 1024 * 1024" "listing_ok (parseBulkNginxBackends body)"
        "listed (parseBulkNginxBackends body) = sim_served n2 demo_client" "sim_inv n2'" "sim_served n2' = sim_served n2"
      using list [OF _ n(3)] by auto
    with True n(2) show ?thesis
      unfolding n(1)
      by (intro exI [of _ body] exI [of _ "(n1, n2')"])
        (simp add: pair_answers_other list_path pair_inv_def pair_served_def fun_eq_iff)
  next
    case False
    obtain body n1' where "answers sim_env demo_client (TrimPrefix (ngx_ListAPI demo_ngx) ''/'') n1 200 body n1'"
        "length body \<le> 10 * 1024 * 1024" "listing_ok (parseBulkNginxBackends body)"
        "listed (parseBulkNginxBackends body) = sim_served n1 demo_client" "sim_inv n1'" "sim_served n1' = sim_served n1"
      using list [OF _ n(2)] by auto
    with False assms(1) n(3) show ?thesis
      unfolding n(1)
      by (intro exI [of _ body] exI [of _ "(n1', n2)"])
        (simp add: pair_answers_demo pair_inv_def pair_served_def fun_eq_iff)
  qed
qed

text \<open>A request that changes what the asked server serves, from what the single server does.\<close>

lemma pair_request:
  assumes "c \<in> {demo_client, other_client}" and "pair_inv n" and "\<not> HasPrefix path ''/''"
    and "\<And>m. sim_inv m \<Longrightarrow> sim_served m demo_client = pair_served n c \<Longrightarrow>
      \<exists>body m'. answers sim_env demo_client path m 200 body m' \<and> sim_inv m' \<and>
        sim_served m' = set_served (sim_served m) demo_client up f"
  shows "\<exists>body n'. answers pair_env c path n 200 body n' \<and> pair_inv n' \<and>
    pair_served n' = set_served (pair_served n) c up f"
proof -
  obtain n1 n2 where n: "n = (n1, n2)" "sim_inv n1" "sim_inv n2"
    using assms(2) by (cases n) (simp add: pair_inv_def)
  show ?thesis
  proof (cases "c = other_client")
    case True
    with assms(4) [OF n(3)] obtain body n2' where m: "answers sim_env demo_client path n2 200 body n2'"
        "sim_inv n2'" "sim_served n2' = set_served (sim_served n2) demo_client up f"
      by (auto simp: n(1) pair_served_def)
    from pair_answers_other [OF m(1) assms(3), of n1] pair_served_other [OF m(3), of n1] m(2) n(2) True
    show ?thesis
      unfolding n(1) by (intro exI [of _ body] exI [of _ "(n1, n2')"]) (simp add: pair_inv_def)
  next
    case False
    with assms(1) assms(4) [OF n(2)] obtain body n1' where m: "answers sim_env demo_client path n1 200 body n1'"
        "sim_inv n1'" "sim_served n1' = set_served (sim_served n1) demo_client up f"
      by (auto simp: n(1) pair_served_def)
    from pair_answers_demo [OF m(1), of n2] pair_served_demo [OF m(3), of n2] m(2) n(3) False assms(1)
    show ?thesis
      unfolding n(1) by (intro exI [of _ body] exI [of _ "(n1', n2)"]) (simp add: pair_inv_def)
  qed
qed

lemma pair_laws: "nginx_servers pair_env demo_ngx [demo_client, other_client] True sim_room pair_inv pair_served"
proof -
  have sem: "ne_Acquire pair_env n = (None, n)" "ne_Release pair_env n = n" for n
    by (simp_all add: pair_env_def)
  have add: "\<exists>body n'. answers pair_env c (buildAddPath demo_ngx up (server_addr b) (be_Weight b)) n 200 body n' \<and>
      pair_inv n' \<and> pair_served n' =
        set_served (pair_served n) c up ((pair_served n c up)(server_addr b \<mapsto> be_Weight b))"
    if "c \<in> {demo_client, other_client}" "pair_inv n" "sim_room up b" for c n up b
  proof (rule pair_request [OF that(1,2) demo_paths(1)])
    fix m
    assume m: "sim_inv m" "sim_served m demo_client = pair_served n c"
    from sim_answers sim_add [OF m(1) that(3)]
    show "\<exists>body m'. answers sim_env demo_client (buildAddPath demo_ngx up (server_addr b) (be_Weight b)) m 200 body m' \<and>
        sim_inv m' \<and> sim_served m' =
          set_served (sim_served m) demo_client up ((pair_served n c up)(server_addr b \<mapsto> be_Weight b))"
      unfolding m(2) by metis
  qed
  have remove: "\<exists>body n'. answers pair_env c (buildRemovePath demo_ngx up s) n 200 body n' \<and>
      pair_inv n' \<and> pair_served n' = set_served (pair_served n) c up ((pair_served n c up)(s := None))"
    if "c \<in> {demo_client, other_client}" "pair_inv n" "pair_served n c up s \<noteq> None" for c n up s
  proof (rule pair_request [OF that(1,2) demo_paths(2)])
    fix m
    assume m: "sim_inv m" "sim_served m demo_client = pair_served n c"
    from sim_answers sim_remove [OF m(1) that(3) [folded m(2)]]
    show "\<exists>body m'. answers sim_env demo_client (buildRemovePath demo_ngx up s) m 200 body m' \<and>
        sim_inv m' \<and> sim_served m' = set_served (sim_served m) demo_client up ((pair_served n c up)(s := None))"
      unfolding m(2) by metis
  qed
  from sem add remove pair_listing show ?thesis
    unfolding nginx_servers_def by (simp add: Let_def)
qed


lemma pair_adapter_laws:
  "nginx_servers pair_env (na_config pair_adapter) (na_clients pair_adapter) True sim_room pair_inv pair_served"
proof -
  have "buildAddPath (demo_ngx\<lparr>ngx_PruneOrphans := True\<rparr>) = buildAddPath demo_ngx"
    "buildRemovePath (demo_ngx\<lparr>ngx_PruneOrphans := True\<rparr>) = buildRemovePath demo_ngx"
    by (simp_all add: fun_eq_iff buildAddPath_def buildRemovePath_def)
  with pair_laws show ?thesis
    by (simp add: nginx_servers_def pair_adapter_def)
qed

end
