(* ===== verification/Interleaving.thy ===== *)
theory Interleaving
  imports NginxServer "HOL-Library.Multiset"
begin

text \<open>
  The goroutines that \<open>SyncUpstream\<close> of \<open>internal/adapters/loadbalancer/nginx/nginx.go\<close> starts, one
  for each client, interleaved. Each is a sequence of atomic actions on the shared state: to acquire
  and release the semaphore, to read, write or drop an entry of the cache under its lock, or to make
  a request. Against servers that obey the laws of \<open>NginxServer\<close>, every interleaving has the
  result of the goroutines run one after the other.
\<close>

section \<open>Threads\<close>

text \<open>A thread has finished with its errors, or goes on with an atomic action.\<close>

datatype 's thread = Finished "goerror list" | Atomic "'s \<Rightarrow> 's \<times> 's thread"

text \<open>A thread on its own.\<close>

primrec run_thread :: "'s thread \<Rightarrow> 's \<Rightarrow> goerror list \<times> 's" where
  "run_thread (Finished errs) = (\<lambda>s. (errs, s))"
| "run_thread (Atomic f) = (\<lambda>s. case (map_prod id run_thread \<circ> f) s of (s', run) \<Rightarrow> run s')"

lemma run_thread_Atomic [simp]:
  "run_thread (Atomic f) s = run_thread (snd (f s)) (fst (f s))"
  by (simp add: split_beta)

declare run_thread.simps(2) [simp del]

section \<open>The goroutine of a client\<close>

text \<open>The two loops of requests; \<open>k\<close> goes on with the errors.\<close>

fun send_thread ::
  "'n net_env \<Rightarrow> nginx_client \<Rightarrow> string \<Rightarrow> goerror list \<Rightarrow> string list \<Rightarrow>
    (goerror list \<Rightarrow> 'n nginx thread) \<Rightarrow> 'n nginx thread" where
  "send_thread env c what errs [] k = k errs"
| "send_thread env c what errs (path # paths) k =
     Atomic (\<lambda>st. case send env c what (errs, ng_net st) path of
       (errs, n) \<Rightarrow> (st\<lparr>ng_net := n\<rparr>, send_thread env c what errs paths k))"

definition release_thread :: "'n net_env \<Rightarrow> goerror list \<Rightarrow> 'n nginx thread" where
  "release_thread env errs =
     Atomic (\<lambda>st. (st\<lparr>ng_net := ne_Release env (ng_net st)\<rparr>, Finished errs))"

text \<open>\<open>refreshCache\<close>: the entry is read under the lock, and written under it after the request.\<close>

definition fetch_thread ::
  "'n net_env \<Rightarrow> nginx_adapter \<Rightarrow> nginx_client \<Rightarrow> (goerror + nginx_upstreams \<Rightarrow> 'n nginx thread) \<Rightarrow>
    'n nginx thread" where
  "fetch_thread env a c k =
     (let request = Atomic (\<lambda>st.
            case doRequest env c ''GET'' (TrimPrefix (ngx_ListAPI (na_config a)) ''/'') (ng_net st) of
              (Inl e, n) \<Rightarrow>
                (st\<lparr>ng_net := n\<rparr>,
                 k (Inl (Wrapf (''failed to bulk fetch upstreams from '' @ cl_baseURL c) e)))
            | (Inr body, n) \<Rightarrow>
                (st\<lparr>ng_net := n\<rparr>,
                 Atomic (\<lambda>st.
                   (st\<lparr>ng_cache := AList.update (cl_baseURL c) (parseBulkNginxBackends body) (ng_cache st),
                       ng_cacheExp :=
                         AList.update (cl_baseURL c) (ne_Now env (ng_net st) + 2 * 1000000000) (ng_cacheExp st)\<rparr>,
                    k (Inr (parseBulkNginxBackends body))))))
      in Atomic (\<lambda>st.
           (st, case (map_of (ng_cacheExp st) (cl_baseURL c), map_of (ng_cache st) (cl_baseURL c)) of
                  (Some exp, Some cached) \<Rightarrow>
                    if ne_Now env (ng_net st) < exp then k (Inr cached) else request
                | _ \<Rightarrow> request)))"

definition plan_thread ::
  "'n net_env \<Rightarrow> nginx_adapter \<Rightarrow> upstream \<Rightarrow> nginx_client \<Rightarrow> nginx_upstreams \<Rightarrow> 'n nginx thread" where
  "plan_thread env a u c allBackends =
     (let desired = desiredBackend (up_Backends u);
          current = currentBackends allBackends (up_Name u);
          updates = updateBackends desired current;
          removes = removeBackends desired current
      in send_thread env c ''add'' [] (add_paths (na_config a) (up_Name u) updates) (\<lambda>errs.
           send_thread env c ''remove'' errs (remove_paths (na_config a) (up_Name u) removes) (\<lambda>errs.
             if updates \<noteq> [] \<or> removes \<noteq> []
             then Atomic (\<lambda>st. (invalidateCache (cl_baseURL c) st, release_thread env errs))
             else release_thread env errs)))"

definition acquire_thread :: "'n net_env \<Rightarrow> nginx_client \<Rightarrow> 'n nginx thread \<Rightarrow> 'n nginx thread" where
  "acquire_thread env c t =
     Atomic (\<lambda>st. case ne_Acquire env (ng_net st) of
         (Some e, n) \<Rightarrow>
           (st\<lparr>ng_net := n\<rparr>, Finished [Wrapf (''client '' @ cl_baseURL c @ '' semaphore error'') e])
       | (None, n) \<Rightarrow> (st\<lparr>ng_net := n\<rparr>, t))"

definition sync_thread ::
  "'n net_env \<Rightarrow> nginx_adapter \<Rightarrow> upstream \<Rightarrow> nginx_client \<Rightarrow> 'n nginx thread" where
  "sync_thread env a u c =
     acquire_thread env c
       (fetch_thread env a c (\<lambda>res. case res of
            Inl e \<Rightarrow> release_thread env [e]
          | Inr allBackends \<Rightarrow> plan_thread env a u c allBackends))"

text \<open>On its own, such a thread is the goroutine of \<open>NginxAdapter\<close>, on any network.\<close>

lemma run_send_thread:
  "run_thread (send_thread env c what errs paths k) st =
     (case foldl (send env c what) (errs, ng_net st) paths of
        (errs, n) \<Rightarrow> run_thread (k errs) (st\<lparr>ng_net := n\<rparr>))"
proof (induction paths arbitrary: errs st)
  case (Cons path paths)
  obtain errs' n where "send env c what (errs, ng_net st) path = (errs', n)" by fastforce
  with Cons.IH [of errs' "st\<lparr>ng_net := n\<rparr>"] show ?case by (simp split: prod.split)
qed simp

lemma net_then_cache:
  "st\<lparr>ng_net := n, ng_cache := x, ng_cacheExp := y\<rparr> = st\<lparr>ng_cache := x, ng_cacheExp := y, ng_net := n\<rparr>"
  by (cases st) simp

lemma run_fetch_thread:
  "run_thread (fetch_thread env a c k) st =
     (case refreshCache env a c st of (res, st) \<Rightarrow> run_thread (k res) st)"
  by (auto simp: fetch_thread_def refreshCache_def Let_def net_then_cache
      split: option.split prod.split sum.split)

lemma run_sync_thread:
  "run_thread (sync_thread env a u c) st = goroutine env (sync_client env a u) ([], st) c"
proof -
  have "run_thread (plan_thread env a u c ups) st =
      (case (let desired = desiredBackend (up_Backends u);
               current = currentBackends ups (up_Name u);
               updates = updateBackends desired current;
               removes = removeBackends desired current;
               changed = (updates \<noteq> [] \<or> removes \<noteq> []);
               (errs, n) = foldl (send env c ''add'') ([], ng_net st)
                 (add_paths (na_config a) (up_Name u) updates);
               (errs, n) = foldl (send env c ''remove'') (errs, n)
                 (remove_paths (na_config a) (up_Name u) removes);
               st = st\<lparr>ng_net := n\<rparr>
           in (errs, if changed then invalidateCache (cl_baseURL c) st else st)) of
        (errs, s) \<Rightarrow> (errs, s\<lparr>ng_net := ne_Release env (ng_net s)\<rparr>))" for ups st
    by (simp add: plan_thread_def Let_def run_send_thread release_thread_def split: prod.split)
  then show ?thesis
    by (simp add: sync_thread_def acquire_thread_def goroutine_def run_fetch_thread sync_client_def release_thread_def
        split: prod.split option.split sum.split)
qed

section \<open>Interleavings\<close>

text \<open>A thread of a client takes an atomic action.\<close>

inductive par_step ::
  "nginx_client list \<Rightarrow> (nginx_client \<Rightarrow> 's thread) \<times> 's \<Rightarrow> (nginx_client \<Rightarrow> 's thread) \<times> 's \<Rightarrow> bool"
  for cs where
  action: "c \<in> set cs \<Longrightarrow> ts c = Atomic f \<Longrightarrow> f s = (s', t) \<Longrightarrow> par_step cs (ts, s) (ts(c := t), s')"

inductive_cases par_step_cases [elim]: "par_step cs (ts, s) x"

abbreviation par_steps ::
  "nginx_client list \<Rightarrow> (nginx_client \<Rightarrow> 's thread) \<times> 's \<Rightarrow> (nginx_client \<Rightarrow> 's thread) \<times> 's \<Rightarrow> bool" where
  "par_steps cs \<equiv> (par_step cs)\<^sup>*\<^sup>*"

lemma par_stuck_finished:
  assumes "\<And>y. \<not> par_step cs (ts, s) y" and "c \<in> set cs"
  shows "\<exists>errs. ts c = Finished errs"
proof (cases "ts c")
  case (Atomic f)
  have "par_step cs (ts, s) (ts(c := snd (f s)), fst (f s))"
    by (rule par_step.action [where f = f]) (use assms(2) Atomic in simp_all)
  with assms(1) show ?thesis by blast
qed simp

text \<open>No goroutine runs for ever: every action leaves a part of the thread.\<close>

definition next_thread :: "('s thread \<times> 's thread) set" where
  "next_thread = {(t, t'). \<exists>f s. t' = Atomic f \<and> t = snd (f s)}"

lemma wf_next_thread: "wf next_thread"
proof (rule wfUNIVI)
  fix P :: "'s thread \<Rightarrow> bool" and t
  assume step: "\<forall>x. (\<forall>y. (y, x) \<in> next_thread \<longrightarrow> P y) \<longrightarrow> P x"
  show "P t"
  proof (induction t)
    case (Finished errs)
    have "(y, Finished errs) \<notin> next_thread" for y :: "'s thread"
      by (simp add: next_thread_def)
    with step show ?case by blast
  next
    case (Atomic f)
    have "P y" if "(y, Atomic f) \<in> next_thread" for y
    proof -
      from that obtain s where "y = snd (f s)" by (auto simp: next_thread_def)
      then have "y \<in> Basic_BNFs.snds (f s)" using Basic_BNFs.snds.intros [of "f s"] by simp
      then show ?thesis by (rule Atomic [OF rangeI])
    qed
    with step show ?case by blast
  qed
qed

lemma par_step_terminates: "wfp (\<lambda>y x. par_step cs x y)"
proof -
  let ?threads = "\<lambda>(ts, s). image_mset ts (mset_set (set cs))"
  have "wf (inv_image (mult next_thread) ?threads)"
    by (intro wf_inv_image wf_mult wf_next_thread)
  moreover have "(y, x) \<in> inv_image (mult next_thread) ?threads" if step: "par_step cs x y" for x y
  proof -
    from step obtain ts s c f s' t where eqs: "x = (ts, s)" "y = (ts(c := t), s')" "c \<in> set cs"
        "ts c = Atomic f" "f s = (s', t)"
      by cases
    have split: "mset_set (set cs) = add_mset c (mset_set (set cs - {c}))"
      using eqs(3) by (simp add: mset_set.remove)
    have rest: "image_mset (ts(c := t)) (mset_set (set cs - {c})) = image_mset ts (mset_set (set cs - {c}))"
      by (intro image_mset_cong) auto
    have "(t, ts c) \<in> next_thread"
      using eqs(4,5) by (auto simp: next_thread_def intro!: exI [of _ s])
    then have "(add_mset t (image_mset ts (mset_set (set cs - {c}))),
        add_mset (ts c) (image_mset ts (mset_set (set cs - {c})))) \<in> mult next_thread"
      using one_step_implies_mult [of "{#ts c#}" "{#t#}" next_thread "image_mset ts (mset_set (set cs - {c}))"]
      by simp
    then show ?thesis
      by (simp add: in_inv_image eqs(1,2) split rest)
  qed
  then have "{(y, x). par_step cs x y} \<subseteq> inv_image (mult next_thread) ?threads"
    by blast
  ultimately show ?thesis
    unfolding wfp_def by (rule wf_subset)
qed

section \<open>What a thread relies on and guarantees\<close>

text \<open>
  What concerns a client: what its server serves, and its entry in the cache. A thread is good if,
  from the view of its client, it comes to serve \<open>F\<close>, without an error exactly if \<open>P\<close> holds, and
  leaves the views of all other clients alone.
\<close>

type_synonym view = "served \<times> nginx_upstreams option"

definition view :: "('n \<Rightarrow> nginx_client \<Rightarrow> served) \<Rightarrow> nginx_client \<Rightarrow> 'n nginx \<Rightarrow> view" where
  "view S c st = (S (ng_net st) c, map_of (ng_cache st) (cl_baseURL c))"

definition view_ok :: "view \<Rightarrow> bool" where
  "view_ok v \<longleftrightarrow> (case snd v of None \<Rightarrow> True | Some ups \<Rightarrow> listing_ok ups \<and> listed ups = fst v)"

definition views_kept ::
  "nginx_client list \<Rightarrow> ('n \<Rightarrow> nginx_client \<Rightarrow> served) \<Rightarrow> nginx_client \<Rightarrow> 'n nginx \<Rightarrow> 'n nginx \<Rightarrow> bool" where
  "views_kept cs S c st st' \<longleftrightarrow>
     (\<forall>c'. c' \<noteq> c \<longrightarrow> S (ng_net st') c' = S (ng_net st) c' \<and>
        (c' \<in> set cs \<longrightarrow> view S c' st' = view S c' st))"

lemma coherent_views: "coherent cs S st \<longleftrightarrow> (\<forall>c \<in> set cs. view_ok (view S c st))"
  by (auto simp: coherent_def view_ok_def view_def split: option.split)

inductive good ::
  "nginx_client list \<Rightarrow> ('n \<Rightarrow> bool) \<Rightarrow> ('n \<Rightarrow> nginx_client \<Rightarrow> served) \<Rightarrow> nginx_client \<Rightarrow> served \<Rightarrow> bool \<Rightarrow>
    view \<Rightarrow> 'n nginx thread \<Rightarrow> bool"
  for cs I S c F P where
  good_Finished: "fst v = F \<Longrightarrow> view_ok v \<Longrightarrow> (errs = [] \<longleftrightarrow> P) \<Longrightarrow> good cs I S c F P v (Finished errs)"
| good_Atomic:
    "(\<And>st. I (ng_net st) \<Longrightarrow> view S c st = v \<Longrightarrow>
        I (ng_net (fst (f st))) \<and> views_kept cs S c st (fst (f st)) \<and>
        good cs I S c F P (view S c (fst (f st))) (snd (f st))) \<Longrightarrow>
     good cs I S c F P v (Atomic f)"

inductive_cases good_FinishedE: "good cs I S c F P v (Finished errs)"
inductive_cases good_AtomicE: "good cs I S c F P v (Atomic f)"

text \<open>Good threads stay good whatever the others do, so that all of them reach their goals.\<close>

definition all_good ::
  "nginx_client list \<Rightarrow> ('n \<Rightarrow> bool) \<Rightarrow> ('n \<Rightarrow> nginx_client \<Rightarrow> served) \<Rightarrow> (nginx_client \<Rightarrow> served) \<Rightarrow>
    (nginx_client \<Rightarrow> bool) \<Rightarrow> (nginx_client \<Rightarrow> 'n nginx thread) \<times> 'n nginx \<Rightarrow> bool" where
  "all_good cs I S F P x \<longleftrightarrow>
     I (ng_net (snd x)) \<and> (\<forall>c \<in> set cs. good cs I S c (F c) (P c) (view S c (snd x)) (fst x c)) \<and>
     (\<forall>c. c \<notin> set cs \<longrightarrow> S (ng_net (snd x)) c = F c)"

lemma all_good_step:
  assumes "all_good cs I S F P x" and "par_step cs x y"
  shows "all_good cs I S F P y"
  using assms(2)
proof cases
  case (action c ts f s s' t)
  have "good cs I S c (F c) (P c) (view S c s) (Atomic f)" "I (ng_net s)"
    using assms(1) action by (auto simp: all_good_def)
  then have own: "I (ng_net s')" "views_kept cs S c s s'" "good cs I S c (F c) (P c) (view S c s') t"
    using action(5) by (auto elim!: good_AtomicE)
  have "good cs I S c' (F c') (P c') (view S c' s') ((ts(c := t)) c')" if "c' \<in> set cs" for c'
  proof (cases "c' = c")
    case False
    with that own(2) have "view S c' s' = view S c' s" by (simp add: views_kept_def)
    with that False assms(1) action(1) show ?thesis by (simp add: all_good_def)
  qed (use own(3) in simp)
  moreover have "S (ng_net s') c' = F c'" if "c' \<notin> set cs" for c'
    using that own(2) assms(1) action(1,3) by (auto simp: views_kept_def all_good_def)
  ultimately show ?thesis using own(1) action(2) by (simp add: all_good_def)
qed

lemma all_good_steps:
  assumes "par_steps cs x y" and "all_good cs I S F P x"
  shows "all_good cs I S F P y"
  using assms by (induction rule: rtranclp_induct) (auto intro: all_good_step)

section \<open>Actions of a good thread\<close>

lemma views_kept_net:
  assumes "\<And>c'. c' \<noteq> c \<Longrightarrow> S n c' = S (ng_net st) c'"
  shows "views_kept cs S c st (st\<lparr>ng_net := n\<rparr>)"
  using assms by (simp add: views_kept_def view_def)

lemma view_net [simp]: "view S c (st\<lparr>ng_net := n\<rparr>) = (S n c, snd (view S c st))"
  by (simp add: view_def)

lemma good_release:
  assumes "nginx_servers env cfg cs r ok I S" and "view_ok (F, ce)" and "errs = [] \<longleftrightarrow> P"
  shows "good cs I S c F P (F, ce) (release_thread env errs)"
  unfolding release_thread_def
proof (rule good_Atomic, unfold fst_conv snd_conv, intro conjI)
  fix st
  assume st: "I (ng_net st)" "view S c st = (F, ce)"
  note rel = nginx_servers_acquire(2,3) [OF assms(1) st(1)]
  show "I (ng_net (st\<lparr>ng_net := ne_Release env (ng_net st)\<rparr>))" using rel(1) by simp
  show "views_kept cs S c st (st\<lparr>ng_net := ne_Release env (ng_net st)\<rparr>)"
    by (rule views_kept_net) (simp add: rel(2))
  have "S (ng_net st) c = F" using st(2) by (simp add: view_def)
  then show "good cs I S c F P (view S c (st\<lparr>ng_net := ne_Release env (ng_net st)\<rparr>)) (Finished errs)"
    using assms(2,3) st(2) by (intro good_Finished) (simp_all add: rel(2))
qed

lemma nginx_servers_add:
  assumes "nginx_servers env cfg cs replaces ok I S" and "c \<in> set cs" and "I n" and "ok up b"
  obtains body n1 where
    "answers env c (buildAddPath cfg up (server_addr b) (be_Weight b)) n
       (if replaces \<or> S n c up (server_addr b) = None then 200 else 400) body n1"
    and "I n1"
    and "S n1 = (if replaces \<or> S n c up (server_addr b) = None
      then set_served (S n) c up ((S n c up)(server_addr b \<mapsto> be_Weight b)) else S n)"
proof -
  let ?added = "replaces \<or> S n c up (server_addr b) = None"
  have "\<exists>body n1. answers env c (buildAddPath cfg up (server_addr b) (be_Weight b)) n
         (if ?added then 200 else 400) body n1 \<and> I n1 \<and>
      S n1 = (if ?added then set_served (S n) c up ((S n c up)(server_addr b \<mapsto> be_Weight b)) else S n)"
    using assms unfolding nginx_servers_def Let_def by blast
  with that show ?thesis by (elim exE conjE) rule
qed

lemma good_adds:
  assumes laws: "nginx_servers env cfg cs r ok I S" and c: "c \<in> set cs"
    and "distinct (map (server_addr \<circ> snd) items)" and "list_all (\<lambda>(k, b). ok up b) items"
    and "\<And>errs'. (errs' = [] \<longleftrightarrow> list_all (\<lambda>(k, b). r \<or> f up (server_addr b) = None) items) \<Longrightarrow>
      good cs I S c F P (f(up := overlay r (addresses items) (f up)), ce) (k (errs @ errs'))"
  shows "good cs I S c F P (f, ce)
    (send_thread env c what errs (map (\<lambda>(k, b). buildAddPath cfg up (server_addr b) (be_Weight b)) items) k)"
  using assms(3-5)
proof (induction items arbitrary: errs f)
  case Nil
  have "overlay r (\<lambda>s. None) (f up) = f up" by (simp add: overlay_def fun_eq_iff)
  with Nil.prems(3) [of "[]"] show ?case by simp
next
  case (Cons item items)
  obtain key b where item: "item = (key, b)" by fastforce
  let ?s = "server_addr b"
  let ?path = "buildAddPath cfg up ?s (be_Weight b)"
  let ?rest = "\<lambda>errs. send_thread env c what errs
    (map (\<lambda>(k, b). buildAddPath cfg up (server_addr b) (be_Weight b)) items) k"
  define added where "added \<longleftrightarrow> r \<or> f up ?s = None"
  define f1 where "f1 = (if added then f(up := (f up)(?s \<mapsto> be_Weight b)) else f)"
  have fresh: "?s \<notin> (server_addr \<circ> snd) ` set items" using Cons.prems(1) item by auto
  have f1: "f1 up s = (if s = ?s \<and> added then Some (be_Weight b) else f up s)" for s
    by (simp add: f1_def)
  have over: "f1(up := overlay r (addresses items) (f1 up)) = f(up := overlay r (addresses (item # items)) (f up))"
  proof -
    have "overlay r (addresses items) (f1 up) = overlay r (addresses (item # items)) (f up)"
      using fresh addresses_None_iff [of items ?s]
      by (auto simp: overlay_def f1 item added_def fun_eq_iff split: option.split)
    moreover have "f1(up := g) = f(up := g)" for g by (simp add: f1_def)
    ultimately show ?thesis by (simp only:)
  qed
  have same: "list_all (\<lambda>(k, b). r \<or> f1 up (server_addr b) = None) items \<longleftrightarrow>
      list_all (\<lambda>(k, b). r \<or> f up (server_addr b) = None) items"
    using fresh by (force simp: list_all_iff f1)
  have rest: "good cs I S c F P (f1, ce) (?rest (errs @ new))" if new: "new = [] \<longleftrightarrow> added" for new
  proof (rule Cons.IH)
    show "distinct (map (server_addr \<circ> snd) items)" "list_all (\<lambda>(k, b). ok up b) items"
      using Cons.prems(1,2) by (simp_all add: comp_def)
    fix errs' :: "goerror list"
    assume "errs' = [] \<longleftrightarrow> list_all (\<lambda>(k, b). r \<or> f1 up (server_addr b) = None) items"
    then have "new @ errs' = [] \<longleftrightarrow> list_all (\<lambda>(k, b). r \<or> f up (server_addr b) = None) (item # items)"
      using new same by (simp add: item added_def)
    from Cons.prems(3) [OF this] show "good cs I S c F P (f1(up := overlay r (addresses items) (f1 up)), ce)
        (k ((errs @ new) @ errs'))"
      unfolding over append_assoc .
  qed
  show ?case
    unfolding item list.map(2) prod.case send_thread.simps
  proof (rule good_Atomic)
    fix st
    assume st: "I (ng_net st)" "view S c st = (f, ce)"
    have served: "S (ng_net st) c = f" using st(2) by (simp add: view_def)
    have "ok up b" using Cons.prems(2) item by simp
    from nginx_servers_add [OF laws c st(1) this] obtain body n1 where
        n1: "answers env c ?path (ng_net st) (if added then 200 else 400) body n1" "I n1"
          "S n1 = (if added then set_served (S (ng_net st)) c up ((f up)(?s \<mapsto> be_Weight b)) else S (ng_net st))"
      unfolding served added_def by blast
    obtain new where sent: "send env c what (errs, ng_net st) ?path = (errs @ new, n1)" "new = [] \<longleftrightarrow> added"
      using send_answers [OF n1(1), of what errs] by (cases added) auto
    have kept: "views_kept cs S c st (st\<lparr>ng_net := n1\<rparr>)"
      by (rule views_kept_net) (simp add: n1(3) set_served_def)
    have own: "S n1 c = f1"
      unfolding n1(3) f1_def by (simp add: set_served_def served)
    show "I (ng_net (fst (case send env c what (errs, ng_net st) ?path of
            (errs, n) \<Rightarrow> (st\<lparr>ng_net := n\<rparr>, ?rest errs)))) \<and>
        views_kept cs S c st (fst (case send env c what (errs, ng_net st) ?path of
            (errs, n) \<Rightarrow> (st\<lparr>ng_net := n\<rparr>, ?rest errs))) \<and>
        good cs I S c F P (view S c (fst (case send env c what (errs, ng_net st) ?path of
            (errs, n) \<Rightarrow> (st\<lparr>ng_net := n\<rparr>, ?rest errs))))
          (snd (case send env c what (errs, ng_net st) ?path of (errs, n) \<Rightarrow> (st\<lparr>ng_net := n\<rparr>, ?rest errs)))"
      using n1(2) kept rest [OF sent(2)] st(2)
      unfolding sent(1) by (simp add: own)
  qed
qed

lemma good_removes:
  assumes laws: "nginx_servers env cfg cs r ok I S" and c: "c \<in> set cs"
    and "distinct ss" and "list_all (\<lambda>s. f up s \<noteq> None) ss"
    and "good cs I S c F P (f(up := (\<lambda>s. if s \<in> set ss then None else f up s)), ce) (k errs)"
  shows "good cs I S c F P (f, ce) (send_thread env c what errs (map (buildRemovePath cfg up) ss) k)"
  using assms(3-5)
proof (induction ss arbitrary: f)
  case Nil
  then show ?case by simp
next
  case (Cons s ss)
  let ?rest = "\<lambda>errs. send_thread env c what errs (map (buildRemovePath cfg up) ss) k"
  define f1 where "f1 = f(up := (f up)(s := None))"
  have f1: "f1 up s' = (if s' = s then None else f up s')" for s' by (simp add: f1_def)
  have over: "f1(up := (\<lambda>s. if s \<in> set ss then None else f1 up s)) =
      f(up := (\<lambda>s'. if s' \<in> set (s # ss) then None else f up s'))"
    unfolding f1 by (auto simp: f1_def fun_eq_iff)
  have rest: "good cs I S c F P (f1, ce) (?rest errs)"
  proof (rule Cons.IH)
    show "distinct ss" using Cons.prems(1) by simp
    show "list_all (\<lambda>s. f1 up s \<noteq> None) ss"
      using Cons.prems(1,2) by (auto simp: list_all_iff f1)
    show "good cs I S c F P (f1(up := (\<lambda>s. if s \<in> set ss then None else f1 up s)), ce) (k errs)"
      unfolding over by (rule Cons.prems(3))
  qed
  show ?case
    unfolding list.map(2) send_thread.simps
  proof (rule good_Atomic)
    fix st
    assume st: "I (ng_net st)" "view S c st = (f, ce)"
    have served: "S (ng_net st) c = f" using st(2) by (simp add: view_def)
    have "S (ng_net st) c up s \<noteq> None" using Cons.prems(2) by (simp add: served)
    from nginx_servers_remove [OF laws c st(1) this] obtain body n1 where
        n1: "answers env c (buildRemovePath cfg up s) (ng_net st) 200 body n1" "I n1"
          "S n1 = set_served (S (ng_net st)) c up ((f up)(s := None))"
      unfolding served by blast
    have sent: "send env c what (errs, ng_net st) (buildRemovePath cfg up s) = (errs, n1)"
      using send_answers(1) [OF n1(1)] by simp
    have kept: "views_kept cs S c st (st\<lparr>ng_net := n1\<rparr>)"
      by (rule views_kept_net) (simp add: n1(3) set_served_def)
    have own: "S n1 c = f1"
      unfolding n1(3) f1_def by (simp add: set_served_def served)
    show "I (ng_net (fst (case send env c what (errs, ng_net st) (buildRemovePath cfg up s) of
            (errs, n) \<Rightarrow> (st\<lparr>ng_net := n\<rparr>, ?rest errs)))) \<and>
        views_kept cs S c st (fst (case send env c what (errs, ng_net st) (buildRemovePath cfg up s) of
            (errs, n) \<Rightarrow> (st\<lparr>ng_net := n\<rparr>, ?rest errs))) \<and>
        good cs I S c F P (view S c (fst (case send env c what (errs, ng_net st) (buildRemovePath cfg up s) of
            (errs, n) \<Rightarrow> (st\<lparr>ng_net := n\<rparr>, ?rest errs))))
          (snd (case send env c what (errs, ng_net st) (buildRemovePath cfg up s) of
            (errs, n) \<Rightarrow> (st\<lparr>ng_net := n\<rparr>, ?rest errs)))"
      using n1(2) kept rest st(2)
      unfolding sent by (simp add: own)
  qed
qed

section \<open>The goroutine of a client is good\<close>

lemma same_client:
  "distinct (map cl_baseURL cs) \<Longrightarrow> c \<in> set cs \<Longrightarrow> c' \<in> set cs \<Longrightarrow> cl_baseURL c' = cl_baseURL c \<Longrightarrow> c' = c"
  by (auto simp: distinct_map inj_on_def)

lemma good_invalidate:
  assumes "nginx_servers env cfg cs r ok I S" and "c \<in> set cs" and "distinct (map cl_baseURL cs)"
    and "errs = [] \<longleftrightarrow> P"
  shows "good cs I S c F P (F, ce) (Atomic (\<lambda>st. (invalidateCache (cl_baseURL c) st, release_thread env errs)))"
proof (rule good_Atomic, unfold fst_conv snd_conv, intro conjI)
  fix st
  assume st: "I (ng_net st)" "view S c st = (F, ce)"
  show "I (ng_net (invalidateCache (cl_baseURL c) st))" using st(1) by simp
  show "views_kept cs S c st (invalidateCache (cl_baseURL c) st)"
    using same_client [OF assms(3,2)]
    by (auto simp: views_kept_def view_def invalidateCache_def delete_conv')
  have "view S c (invalidateCache (cl_baseURL c) st) = (F, None)"
    using st(2) by (simp add: view_def invalidateCache_def delete_conv')
  then show "good cs I S c F P (view S c (invalidateCache (cl_baseURL c) st)) (release_thread env errs)"
    using good_release [OF assms(1), where F = F and ce = None and errs = errs and P = P and c = c] assms(4) by (simp add: view_ok_def)
qed

text \<open>What the goroutine of a client makes of its server, and when it has no error.\<close>

definition synced :: "bool \<Rightarrow> upstream \<Rightarrow> served \<Rightarrow> served" where
  "synced r u f = f(up_Name u := after_sync r (target (up_Backends u)) (f (up_Name u)))"

lemma good_plan:
  assumes laws: "nginx_servers env (na_config a) cs r ok I S" and c: "c \<in> set cs"
    and urls: "distinct (map cl_baseURL cs)" and u: "sendable ok u"
    and ups: "listing_ok ups" "listed ups = f" and ce: "view_ok (f, ce)"
  shows "good cs I S c (synced r u f) (agrees r (target (up_Backends u)) (f (up_Name u))) (f, ce)
    (plan_thread env a u c ups)"
proof -
  let ?up = "up_Name u" and ?bs = "up_Backends u" and ?cfg = "na_config a"
  let ?F = "synced r u f" and ?P = "agrees r (target ?bs) (f ?up)"
  have cur: "currentBackends ups ?up = slice_get ups ?up"
    by (rule currentBackends_named [OF ups(1)])
  define updates where "updates = updateBackends (desiredBackend ?bs) (slice_get ups ?up)"
  define removes where "removes = removeBackends (desiredBackend ?bs) (slice_get ups ?up)"
  define ss where "ss = map (server_addr \<circ> snd) (sort_key fst removes)"
  define changed where "changed \<longleftrightarrow> updates \<noteq> [] \<or> removes \<noteq> []"
  note addr = updates_addresses [where up = ?up and ups = ups and bs = ?bs, folded updates_def, unfolded ups(2)]
  note gone = removes_addresses [where up = ?up and ups = ups and bs = ?bs, folded removes_def, folded ss_def,
      unfolded ups(2)]
  define f1 where "f1 = f(?up := overlay r (target ?bs) (f ?up))"
  let ?finish = "\<lambda>errs. if changed then Atomic (\<lambda>st. (invalidateCache (cl_baseURL c) st, release_thread env errs))
    else release_thread env errs"
  let ?removing = "\<lambda>errs. send_thread env c ''remove'' errs (map (buildRemovePath ?cfg ?up) ss) ?finish"
  have f1: "f1 ?up = overlay r (target ?bs) (f ?up)" "f1(?up := g) = f(?up := g)" for g
    by (simp_all add: f1_def)
  have F: "f1(?up := (\<lambda>s. if s \<in> set ss then None else f1 ?up s)) = ?F"
    unfolding f1 synced_def gone(2) plan_after_sync [of ups ?up ?bs r, unfolded ups(2)] ..
  have finish: "good cs I S c ?F ?P (?F, ce) (?finish errs)" if errs: "errs = [] \<longleftrightarrow> ?P" for errs
  proof (cases changed)
    case True
    then show ?thesis using good_invalidate [OF laws c urls errs] by simp
  next
    case False
    then have "updates = []" "ss = []" by (simp_all add: changed_def ss_def)
    then have "overlay r (target ?bs) (f ?up) = f ?up"
      using addr(2) [of r] by (simp add: overlay_def addresses_def fun_eq_iff)
    then have "?F = f" using F \<open>ss = []\<close> by (simp add: f1_def)
    with False good_release [OF laws _ errs, where F = ?F and ce = ce and c = c] ce show ?thesis by simp
  qed
  have "list_all (\<lambda>s. f1 ?up s \<noteq> None) ss"
    using gone(2) by (auto simp: list_all_iff f1_def overlay_def split: option.split)
  then have removing: "good cs I S c ?F ?P (f1, ce) (?removing errs)" if "errs = [] \<longleftrightarrow> ?P" for errs
    using finish [OF that] gone(1) F by (intro good_removes [OF laws c]) simp_all
  have "list_all (\<lambda>(k, b). ok ?up b) (sort_key fst updates)"
    using u by (auto simp: sendable_def list_all_iff updates_def updateBackends_def)
  then have "good cs I S c ?F ?P (f, ce) (send_thread env c ''add'' []
      (map (\<lambda>(k, b). buildAddPath ?cfg ?up (server_addr b) (be_Weight b)) (sort_key fst updates)) ?removing)"
  proof (rule good_adds [OF laws c addr(1)])
    fix errs' :: "goerror list"
    assume "errs' = [] \<longleftrightarrow> list_all (\<lambda>(k, b). r \<or> f ?up (server_addr b) = None) (sort_key fst updates)"
    then have "errs' = [] \<longleftrightarrow> ?P" using addr(3) [of r] by simp
    then show "good cs I S c ?F ?P (f(?up := overlay r (addresses (sort_key fst updates)) (f ?up)), ce)
        (?removing ([] @ errs'))"
      using removing [of errs'] addr(2) [of r] by (simp add: f1_def)
  qed
  then show ?thesis
    unfolding plan_thread_def Let_def cur updates_def [symmetric] removes_def [symmetric]
      add_paths_addresses remove_paths_addresses ss_def [symmetric] changed_def .
qed

lemma good_same_net:
  assumes "I (ng_net (fst (f st)))" and "S (ng_net (fst (f st))) = S (ng_net st)"
    and "\<And>url. url \<noteq> cl_baseURL c \<Longrightarrow> map_of (ng_cache (fst (f st))) url = map_of (ng_cache st) url"
    and "c \<in> set cs" and "distinct (map cl_baseURL cs)"
    and "good cs I S c F P (view S c (fst (f st))) (snd (f st))"
  shows "I (ng_net (fst (f st))) \<and> views_kept cs S c st (fst (f st)) \<and>
    good cs I S c F P (view S c (fst (f st))) (snd (f st))"
  using assms same_client [OF assms(5,4)] by (auto simp: views_kept_def view_def)

lemma good_fetch:
  assumes laws: "nginx_servers env (na_config a) cs r ok I S" and c: "c \<in> set cs"
    and urls: "distinct (map cl_baseURL cs)" and ce: "view_ok (f, ce)"
    and k: "\<And>ups ce. listing_ok ups \<Longrightarrow> listed ups = f \<Longrightarrow> view_ok (f, ce) \<Longrightarrow>
      good cs I S c F P (f, ce) (k (Inr ups))"
  shows "good cs I S c F P (f, ce) (fetch_thread env a c k)"
proof -
  let ?path = "TrimPrefix (ngx_ListAPI (na_config a)) ''/''"
  let ?store = "\<lambda>body. Atomic (\<lambda>st.
      (st\<lparr>ng_cache := AList.update (cl_baseURL c) (parseBulkNginxBackends body) (ng_cache st),
          ng_cacheExp := AList.update (cl_baseURL c) (ne_Now env (ng_net st) + 2 * 1000000000) (ng_cacheExp st)\<rparr>,
       k (Inr (parseBulkNginxBackends body))))"
  let ?answer = "\<lambda>st. case doRequest env c ''GET'' ?path (ng_net st) of
      (Inl e, n) \<Rightarrow>
        (st\<lparr>ng_net := n\<rparr>, k (Inl (Wrapf (''failed to bulk fetch upstreams from '' @ cl_baseURL c) e)))
    | (Inr body, n) \<Rightarrow> (st\<lparr>ng_net := n\<rparr>, ?store body)"
  let ?request = "Atomic ?answer"
  let ?read = "\<lambda>st. case (map_of (ng_cacheExp st) (cl_baseURL c), map_of (ng_cache st) (cl_baseURL c)) of
      (Some exp, Some cached) \<Rightarrow> if ne_Now env (ng_net st) < exp then k (Inr cached) else ?request
    | _ \<Rightarrow> ?request"
  have store: "good cs I S c F P (f, ce) (?store body)"
    if "listing_ok (parseBulkNginxBackends body)" "listed (parseBulkNginxBackends body) = f" for body
  proof (rule good_Atomic, rule good_same_net [OF _ _ _ c urls])
    fix st
    assume st: "I (ng_net st)" "view S c st = (f, ce)"
    have "good cs I S c F P (f, Some (parseBulkNginxBackends body)) (k (Inr (parseBulkNginxBackends body)))"
      using that by (intro k) (simp_all add: view_ok_def)
    with st show "good cs I S c F P
       (view S c (fst (st\<lparr>ng_cache := AList.update (cl_baseURL c) (parseBulkNginxBackends body) (ng_cache st),
          ng_cacheExp := AList.update (cl_baseURL c) (ne_Now env (ng_net st) + 2 * 1000000000) (ng_cacheExp st)\<rparr>,
          k (Inr (parseBulkNginxBackends body)))))
       (snd (st\<lparr>ng_cache := AList.update (cl_baseURL c) (parseBulkNginxBackends body) (ng_cache st),
          ng_cacheExp := AList.update (cl_baseURL c) (ne_Now env (ng_net st) + 2 * 1000000000) (ng_cacheExp st)\<rparr>,
          k (Inr (parseBulkNginxBackends body))))"
      by (simp add: view_def update_conv')
  qed (simp_all add: update_conv')
  have request: "good cs I S c F P (f, ce) ?request"
  proof (rule good_Atomic, rule good_same_net [OF _ _ _ c urls])
    fix st
    assume st: "I (ng_net st)" "view S c st = (f, ce)"
    obtain body n1 where n1: "answers env c ?path (ng_net st) 200 body n1" "length body \<le> 10 * 1024 * 1024"
        "listing_ok (parseBulkNginxBackends body)" "listed (parseBulkNginxBackends body) = S (ng_net st) c"
        "I n1" "S n1 = S (ng_net st)"
      by (rule nginx_servers_list [OF laws c st(1)])
    have answer: "?answer st = (st\<lparr>ng_net := n1\<rparr>, ?store body)"
      using doRequest_answers(1) [OF n1(1)] n1(2) by simp
    have served: "S (ng_net st) c = f" using st(2) by (simp add: view_def)
    show "I (ng_net (fst (?answer st)))" "S (ng_net (fst (?answer st))) = S (ng_net st)"
      unfolding answer using n1(5,6) by simp_all
    show "map_of (ng_cache (fst (?answer st))) url = map_of (ng_cache st) url" for url
      unfolding answer by simp
    show "good cs I S c F P (view S c (fst (?answer st))) (snd (?answer st))"
      unfolding answer fst_conv snd_conv using store [of body] n1(3,4,6) st(2) by (simp add: served)
  qed
  have "good cs I S c F P (f, ce) (Atomic (\<lambda>st. (st, ?read st)))"
  proof (rule good_Atomic, rule good_same_net [OF _ _ _ c urls], unfold fst_conv snd_conv)
    fix st
    assume st: "I (ng_net st)" "view S c st = (f, ce)"
    then have entry: "map_of (ng_cache st) (cl_baseURL c) = ce" by (simp add: view_def)
    show "good cs I S c F P (view S c st) (?read st)"
      using request k [of _ ce] ce unfolding st(2) entry
      by (auto simp: view_ok_def split: option.split)
  qed simp_all
  then show ?thesis by (simp add: fetch_thread_def Let_def)
qed

text \<open>A goroutine first acquires the semaphore.\<close>

lemma good_acquire:
  assumes laws: "nginx_servers env (na_config a) cs r ok I S" and c: "c \<in> set cs"
    and urls: "distinct (map cl_baseURL cs)" and t: "good cs I S c F P (f, ce) t"
  shows "good cs I S c F P (f, ce) (acquire_thread env c t)"
  unfolding acquire_thread_def
proof (rule good_Atomic, rule good_same_net [OF _ _ _ c urls])
  let ?act = "\<lambda>st. case ne_Acquire env (ng_net st) of
      (Some e, n) \<Rightarrow>
        (st\<lparr>ng_net := n\<rparr>, Finished [Wrapf (''client '' @ cl_baseURL c @ '' semaphore error'') e])
    | (None, n) \<Rightarrow> (st\<lparr>ng_net := n\<rparr>, t)"
  fix st
  assume st: "I (ng_net st)" "view S c st = (f, ce)"
  obtain n1 where n1: "ne_Acquire env (ng_net st) = (None, n1)" "I n1" "S n1 = S (ng_net st)"
    using nginx_servers_acquire(1) [OF laws st(1)] by blast
  have act: "?act st = (st\<lparr>ng_net := n1\<rparr>, t)"
    by (simp add: n1(1))
  have served: "S (ng_net st) c = f" using st(2) by (simp add: view_def)
  show "I (ng_net (fst (?act st)))" "S (ng_net (fst (?act st))) = S (ng_net st)"
    unfolding act using n1 by simp_all
  show "map_of (ng_cache (fst (?act st))) url = map_of (ng_cache st) url" for url
    unfolding act by simp
  show "good cs I S c F P (view S c (fst (?act st))) (snd (?act st))"
    unfolding act fst_conv snd_conv using t st(2) n1(3) by (simp add: served)
qed

lemma good_sync_thread:
  assumes laws: "nginx_servers env (na_config a) cs r ok I S" and c: "c \<in> set cs"
    and urls: "distinct (map cl_baseURL cs)" and u: "sendable ok u" and v: "view_ok v"
  shows "good cs I S c (synced r u (fst v)) (agrees r (target (up_Backends u)) (fst v (up_Name u))) v
    (sync_thread env a u c)"
proof -
  obtain f ce where fce: "v = (f, ce)" by fastforce
  let ?k = "\<lambda>res. case res of
      Inl e \<Rightarrow> release_thread env [e] | Inr allBackends \<Rightarrow> plan_thread env a u c allBackends"
  have "good cs I S c (synced r u f) (agrees r (target (up_Backends u)) (f (up_Name u))) (f, ce)
      (fetch_thread env a c ?k)"
    using v unfolding fce
    by (intro good_fetch [OF laws c urls]) (simp_all add: good_plan [OF laws c urls u])
  from good_acquire [OF laws c urls this] show ?thesis by (simp add: sync_thread_def fce)
qed

section \<open>All goroutines\<close>

text \<open>Every interleaving can be brought to an end.\<close>

lemma par_steps_end: "\<exists>y. par_steps cs x y \<and> (\<forall>z. \<not> par_step cs y z)"
proof (induction x rule: wfp_induct_rule [OF par_step_terminates [of cs]])
  case (1 x)
  show ?case
  proof (cases "\<exists>y. par_step cs x y")
    case True
    then obtain y where y: "par_step cs x y" by blast
    with 1 obtain z where "par_steps cs y z" "\<forall>w. \<not> par_step cs z w" by blast
    with y show ?thesis by (blast intro: converse_rtranclp_into_rtranclp)
  qed blast
qed

text \<open>Goroutines that are good reach the goals of all clients, whatever their interleaving.\<close>

lemma interleaved_served:
  assumes threads: "\<And>c. c \<in> set cs \<Longrightarrow> good cs I S c (T (S (ng_net st) c)) (P (S (ng_net st) c)) (view S c st) (ts c)"
    and "I (ng_net st)" and steps: "par_steps cs (ts, st) (ts', st')"
    and finished: "\<And>c. c \<in> set cs \<Longrightarrow> ts' c = Finished (errs c)"
  shows "I (ng_net st')" and "coherent cs S st'"
    and "S (ng_net st') = (\<lambda>c. if c \<in> set cs then T (S (ng_net st) c) else S (ng_net st) c)"
    and "c \<in> set cs \<Longrightarrow> errs c = [] \<longleftrightarrow> P (S (ng_net st) c)"
proof -
  let ?F = "\<lambda>c. if c \<in> set cs then T (S (ng_net st) c) else S (ng_net st) c"
  have "all_good cs I S ?F (\<lambda>c. P (S (ng_net st) c)) (ts, st)"
    using assms(1,2) by (simp add: all_good_def)
  from all_good_steps [OF steps this]
  have good: "I (ng_net st')" "\<And>c. c \<notin> set cs \<Longrightarrow> S (ng_net st') c = ?F c"
    "\<And>c. c \<in> set cs \<Longrightarrow> good cs I S c (?F c) (P (S (ng_net st) c)) (view S c st') (Finished (errs c))"
    by (simp_all add: all_good_def finished)
  show "I (ng_net st')" by (rule good(1))
  have reached: "fst (view S c st') = T (S (ng_net st) c)" "view_ok (view S c st')"
      "errs c = [] \<longleftrightarrow> P (S (ng_net st) c)" if "c \<in> set cs" for c
    using good(3) [OF that] that by (auto elim!: good_FinishedE)
  show "coherent cs S st'" using reached(2) by (simp add: coherent_views)
  show "S (ng_net st') = ?F"
    using reached(1) good(2) by (auto simp: fun_eq_iff view_def)
  show "c \<in> set cs \<Longrightarrow> errs c = [] \<longleftrightarrow> P (S (ng_net st) c)" by (rule reached(3))
qed

end
