(* ===== verification/Concurrency.thy ===== *)
theory Concurrency
  imports Interleaving Convergence
begin

text \<open>
  The NGINX adapter with its goroutines interleaved: \<open>SyncUpstream\<close> and \<open>SyncAllUpstreams\<close> as
  relations between the states before and after, for any schedule of the goroutines and any order in
  which a map is ranged over, and the specification of \<open>Convergence\<close> for sequences of such calls.
\<close>

section \<open>The goroutine that prunes\<close>

text \<open>The backends to remove, in the order of the loops.\<close>

definition orphans :: "(string, upstream) gomap \<Rightarrow> nginx_upstreams \<Rightarrow> (string \<times> backend) list" where
  "orphans desired ups =
     concat (map (\<lambda>name. if name = '''' \<or> has_key desired name then [] else map (Pair name) (slice_get ups name))
       (sort (map fst ups)))"

fun remove_thread ::
  "'n net_env \<Rightarrow> nginx_adapter \<Rightarrow> nginx_client \<Rightarrow> goerror list \<Rightarrow> bool \<Rightarrow> (string \<times> backend) list \<Rightarrow>
    (goerror list \<Rightarrow> bool \<Rightarrow> 'n nginx thread) \<Rightarrow> 'n nginx thread" where
  "remove_thread env a c errs changed [] k = k errs changed"
| "remove_thread env a c errs changed (orphan # os) k =
     Atomic (\<lambda>st. case remove_orphan env a c (fst orphan) (errs, changed, ng_net st) (snd orphan) of
       (errs, changed, n) \<Rightarrow> (st\<lparr>ng_net := n\<rparr>, remove_thread env a c errs changed os k))"

definition prune_thread ::
  "'n net_env \<Rightarrow> nginx_adapter \<Rightarrow> (string, upstream) gomap \<Rightarrow> nginx_client \<Rightarrow> 'n nginx thread" where
  "prune_thread env a desired c =
     acquire_thread env c
       (fetch_thread env a c (\<lambda>res. case res of
            Inl e \<Rightarrow> release_thread env [e]
          | Inr allNginxUpstreams \<Rightarrow>
              remove_thread env a c [] False (orphans desired allNginxUpstreams) (\<lambda>errs changed.
                if changed
                then Atomic (\<lambda>st. (invalidateCache (cl_baseURL c) st, release_thread env errs))
                else release_thread env errs)))"

lemma run_remove_thread:
  "run_thread (remove_thread env a c errs changed os k) st =
     (case foldl (\<lambda>x (up, b). remove_orphan env a c up x b) (errs, changed, ng_net st) os of
        (errs, changed, n) \<Rightarrow> run_thread (k errs changed) (st\<lparr>ng_net := n\<rparr>))"
proof (induction os arbitrary: errs changed st)
  case (Cons orphan os)
  obtain errs' changed' n where
      "remove_orphan env a c (fst orphan) (errs, changed, ng_net st) (snd orphan) = (errs', changed', n)"
    by (rule prod_cases3)
  with Cons.IH [of errs' changed' "st\<lparr>ng_net := n\<rparr>"] show ?case by (simp add: split_beta)
qed simp

lemma prune_orphans:
  "foldl (prune_upstream env a desired c ups) x (sort (map fst ups)) =
     foldl (\<lambda>x (up, b). remove_orphan env a c up x b) x (orphans desired ups)"
proof -
  have pairs: "foldl (\<lambda>x (up, b). remove_orphan env a c up x b) x (map (Pair name) bs) =
      foldl (remove_orphan env a c name) x bs" for x name bs
    by (induction bs arbitrary: x) simp_all
  have "foldl (prune_upstream env a desired c ups) x names =
      foldl (\<lambda>x (up, b). remove_orphan env a c up x b) x
        (concat (map (\<lambda>name. if name = '''' \<or> has_key desired name then [] else map (Pair name) (slice_get ups name))
          names))" for names
    by (induction names arbitrary: x) (simp_all add: prune_upstream_def pairs)
  then show ?thesis by (simp add: orphans_def)
qed

lemma run_prune_thread:
  "run_thread (prune_thread env a desired c) st = goroutine env (prune_client env a desired) ([], st) c"
  by (simp add: prune_thread_def acquire_thread_def goroutine_def run_fetch_thread prune_client_def
      release_thread_def run_remove_thread prune_orphans Let_def
      split: prod.split option.split sum.split)

text \<open>Against servers that obey the laws it removes what is not desired, without an error.\<close>

lemma good_remove_orphans:
  assumes laws: "nginx_servers env (na_config a) cs r ok I S" and c: "c \<in> set cs"
    and "distinct (map (\<lambda>(up, b). (up, server_addr b)) os)"
    and "list_all (\<lambda>(up, b). f up (server_addr b) \<noteq> None) os"
    and "good cs I S c F P
      (\<lambda>up s. if (up, s) \<in> (\<lambda>(up, b). (up, server_addr b)) ` set os then None else f up s, ce)
      (k [] (changed \<or> os \<noteq> []))"
  shows "good cs I S c F P (f, ce) (remove_thread env a c [] changed os k)"
  using assms(3-5)
proof (induction os arbitrary: f changed)
  case Nil
  then show ?case by simp
next
  case (Cons orphan os)
  obtain up b where orphan: "orphan = (up, b)" by fastforce
  let ?s = "server_addr b" and ?key = "\<lambda>(up, b). (up, server_addr b)"
  define f1 where "f1 = f(up := (f up)(?s := None))"
  have f1: "f1 x s = (if (x, s) = (up, ?s) then None else f x s)" for x s by (auto simp: f1_def)
  have rest: "good cs I S c F P (f1, ce) (remove_thread env a c [] True os k)"
  proof (rule Cons.IH)
    show "distinct (map ?key os)" using Cons.prems(1) by simp
    have fresh: "(up, ?s) \<notin> ?key ` set os" using Cons.prems(1) by (simp add: orphan)
    have "f1 x (server_addr b') \<noteq> None" if "(x, b') \<in> set os" for x b'
    proof -
      have "(x, server_addr b') \<in> ?key ` set os" using that by (rule rev_image_eqI) simp
      with fresh have "(x, server_addr b') \<noteq> (up, ?s)" by metis
      moreover have "f x (server_addr b') \<noteq> None" using Cons.prems(2) that by (auto simp: list_all_iff)
      ultimately show ?thesis unfolding f1 by simp
    qed
    then show "list_all (\<lambda>(up, b). f1 up (server_addr b) \<noteq> None) os"
      unfolding list_all_iff by blast
    have over: "(\<lambda>x s. if (x, s) \<in> ?key ` set os then None else f1 x s) =
        (\<lambda>x s. if (x, s) \<in> ?key ` set (orphan # os) then None else f x s)"
      by (auto simp: f1 orphan fun_eq_iff)
    have "(changed \<or> orphan # os \<noteq> []) = (True \<or> os \<noteq> [])" by simp
    with Cons.prems(3) show "good cs I S c F P
        (\<lambda>x s. if (x, s) \<in> ?key ` set os then None else f1 x s, ce) (k [] (True \<or> os \<noteq> []))"
      unfolding over by (simp only:)
  qed
  let ?act = "\<lambda>st. case remove_orphan env a c up ([], changed, ng_net st) b of
      (errs, changed, n) \<Rightarrow> (st\<lparr>ng_net := n\<rparr>, remove_thread env a c errs changed os k)"
  have "good cs I S c F P (f, ce) (Atomic ?act)"
  proof (rule good_Atomic)
    fix st
    assume st: "I (ng_net st)" "view S c st = (f, ce)"
    have served: "S (ng_net st) c = f" using st(2) by (simp add: view_def)
    have "S (ng_net st) c up ?s \<noteq> None" using Cons.prems(2) by (simp add: served orphan)
    from nginx_servers_remove [OF laws c st(1) this] obtain body n1 where
        n1: "answers env c (buildRemovePath (na_config a) up ?s) (ng_net st) 200 body n1" "I n1"
          "S n1 = set_served (S (ng_net st)) c up ((f up)(?s := None))"
      unfolding served by blast
    have act: "?act st = (st\<lparr>ng_net := n1\<rparr>, remove_thread env a c [] True os k)"
      using doRequest_answers(1) [OF n1(1)] by (simp add: remove_orphan_def server_addr_def [symmetric] Let_def split: if_splits)
    have kept: "views_kept cs S c st (st\<lparr>ng_net := n1\<rparr>)"
      by (rule views_kept_net) (simp add: n1(3) set_served_def)
    have own: "S n1 c = f1"
      unfolding n1(3) f1_def by (simp add: set_served_def served)
    show "I (ng_net (fst (?act st))) \<and> views_kept cs S c st (fst (?act st)) \<and>
        good cs I S c F P (view S c (fst (?act st))) (snd (?act st))"
      unfolding act using n1(2) kept rest st(2) by (simp add: own)
  qed
  then show ?case by (simp add: orphan)
qed

lemma orphans_members:
  "(up, b) \<in> set (orphans desired ups) \<longleftrightarrow>
     up \<in> fst ` set ups \<and> up \<noteq> '''' \<and> \<not> has_key desired up \<and> b \<in> set (slice_get ups up)"
proof -
  have "(up, b) \<in> set (if name = '''' \<or> has_key desired name then [] else map (Pair name) (slice_get ups name)) \<longleftrightarrow>
      name = up \<and> up \<noteq> '''' \<and> \<not> has_key desired up \<and> b \<in> set (slice_get ups up)" for name
    by auto
  then have "(up, b) \<in> set (orphans desired ups) \<longleftrightarrow>
      (\<exists>name \<in> fst ` set ups. name = up \<and> up \<noteq> '''' \<and> \<not> has_key desired up \<and> b \<in> set (slice_get ups up))"
    unfolding orphans_def set_concat set_map set_sort UN_iff image_comp bex_simps comp_def by simp
  then show ?thesis by blast
qed

lemma orphans_keys:
  assumes "listing_ok ups"
  shows "distinct (map (\<lambda>(up, b). (up, server_addr b)) (orphans desired ups))"
    and "(up, b) \<in> set (orphans desired ups) \<longleftrightarrow> \<not> has_key desired up \<and> b \<in> set (slice_get ups up)"
proof -
  have names: "distinct (map fst ups)" "'''' \<notin> fst ` set ups"
    using assms by (force simp: listing_ok_def list_all_iff)+
  have "distinct (map (\<lambda>(up, b). (up, server_addr b))
      (concat (map (\<lambda>name. if name = '''' \<or> has_key desired name then [] else map (Pair name) (slice_get ups name)) ns)))"
    if "distinct ns" for ns
    using that
  proof (induction ns)
    case (Cons name ns)
    then show ?case
      using slice_get_distinct [OF assms, of name]
      by (auto simp: comp_def distinct_map inj_on_def)
  qed simp
  with names(1) show "distinct (map (\<lambda>(up, b). (up, server_addr b)) (orphans desired ups))"
    by (simp add: orphans_def)
  have "slice_get ups up = []" if "up \<notin> fst ` set ups"
    using that by (simp add: slice_get_def map_of_eq_None_iff [THEN iffD2])
  with names(2) show "(up, b) \<in> set (orphans desired ups) \<longleftrightarrow> \<not> has_key desired up \<and> b \<in> set (slice_get ups up)"
    unfolding orphans_members by (metis empty_iff list.set(1))
qed

lemma orphans_addresses:
  assumes "listing_ok ups"
  shows "(up, s) \<in> (\<lambda>(up, b). (up, server_addr b)) ` set (orphans desired ups) \<longleftrightarrow>
    \<not> has_key desired up \<and> listed ups up s \<noteq> None"
proof -
  have keys: "(up, s) \<in> (\<lambda>(up, b). (up, server_addr b)) ` X \<longleftrightarrow> (\<exists>b. (up, b) \<in> X \<and> s = server_addr b)" for X
    by force
  show ?thesis
    unfolding keys orphans_keys(2) [OF assms] listed_None_iff by blast
qed

lemma good_prune_thread:
  assumes laws: "nginx_servers env (na_config a) cs r ok I S" and c: "c \<in> set cs"
    and urls: "distinct (map cl_baseURL cs)" and v: "view_ok v"
  shows "good cs I S c (pruned desired (fst v)) True v (prune_thread env a desired c)"
proof -
  obtain f ce where fce: "v = (f, ce)" by fastforce
  let ?key = "\<lambda>(up, b). (up, server_addr b)" and ?F = "pruned desired f"
  let ?finish = "\<lambda>errs changed. if changed
    then Atomic (\<lambda>st. (invalidateCache (cl_baseURL c) st, release_thread env errs)) else release_thread env errs"
  have "good cs I S c ?F True (f, ce) (remove_thread env a c [] False (orphans desired ups) ?finish)"
    if ups: "listing_ok ups" "listed ups = f" and ce: "view_ok (f, ce)" for ups ce
  proof (rule good_remove_orphans [OF laws c orphans_keys(1) [OF ups(1)]])
    show "list_all (\<lambda>(up, b). f up (server_addr b) \<noteq> None) (orphans desired ups)"
      unfolding list_all_iff ups(2) [symmetric] by (auto simp: orphans_keys(2) [OF ups(1)] listed_None_iff simp del: not_None_eq)
    have final: "(\<lambda>up s. if (up, s) \<in> ?key ` set (orphans desired ups) then None else f up s) = ?F"
      unfolding orphans_addresses [OF ups(1)] ups(2) by (auto simp: fun_eq_iff pruned_def)
    show "good cs I S c ?F True
        (\<lambda>up s. if (up, s) \<in> ?key ` set (orphans desired ups) then None else f up s, ce)
        (?finish [] (False \<or> orphans desired ups \<noteq> []))"
      unfolding final
    proof (cases "orphans desired ups = []")
      case True
      have "?F = f" unfolding final [symmetric] True by simp
      then have "good cs I S c ?F True (?F, ce) (release_thread env [])"
        using ce by (intro good_release [OF laws]) simp_all
      with True show "good cs I S c ?F True (?F, ce) (?finish [] (False \<or> orphans desired ups \<noteq> []))"
        by (simp only: if_False simp_thms)
    next
      case False
      have "good cs I S c ?F True (?F, ce)
          (Atomic (\<lambda>st. (invalidateCache (cl_baseURL c) st, release_thread env [])))"
        by (rule good_invalidate [OF laws c urls]) simp
      with False show "good cs I S c ?F True (?F, ce) (?finish [] (False \<or> orphans desired ups \<noteq> []))"
        by (simp only: if_True simp_thms)
    qed
  qed
  then have "good cs I S c ?F True (f, ce) (fetch_thread env a c (\<lambda>res. case res of
      Inl e \<Rightarrow> release_thread env [e]
    | Inr ups \<Rightarrow> remove_thread env a c [] False (orphans desired ups) ?finish))"
    using v unfolding fce by (intro good_fetch [OF laws c urls]) simp_all
  from good_acquire [OF laws c urls this] show ?thesis by (simp add: prune_thread_def fce)
qed

section \<open>Calls with any schedule\<close>

text \<open>
  A group of goroutines that is waited for. Their errors are appended under a lock as they happen,
  hence in any order.
\<close>

inductive goroutines ::
  "nginx_client list \<Rightarrow> (nginx_client \<Rightarrow> 's thread) \<Rightarrow> 's \<Rightarrow> goerror list \<Rightarrow> 's \<Rightarrow> bool"
  for cs where
  wait: "par_steps cs (ts, s) (ts', s') \<Longrightarrow> (\<And>c. c \<in> set cs \<Longrightarrow> ts' c = Finished (errs c)) \<Longrightarrow>
    mset all = (\<Sum>c \<in> set cs. mset (errs c)) \<Longrightarrow> goroutines cs ts s all s'"

inductive SyncUpstream_any ::
  "'n net_env \<Rightarrow> nginx_adapter \<Rightarrow> upstream \<Rightarrow> 'n nginx \<Rightarrow> goerror option \<Rightarrow> 'n nginx \<Rightarrow> bool"
  for env a u where
  "goroutines (na_clients a) (sync_thread env a u) st errs st' \<Longrightarrow>
     SyncUpstream_any env a u st (ErrorOrNil errs) st'"

text \<open>The first loop of \<open>SyncAllUpstreams\<close>, over the entries in some order.\<close>

inductive sync_desired_any ::
  "'n net_env \<Rightarrow> nginx_adapter \<Rightarrow> (string \<times> upstream) list \<Rightarrow> 'n nginx \<Rightarrow> goerror list \<Rightarrow> 'n nginx \<Rightarrow> bool"
  for env a where
  done_any: "sync_desired_any env a [] st [] st"
| preserved_any: "up_PreserveExistingBackends u \<Longrightarrow> sync_desired_any env a es st errs st' \<Longrightarrow>
     sync_desired_any env a ((name, u) # es) st errs st'"
| pushed_any: "\<not> up_PreserveExistingBackends u \<Longrightarrow> SyncUpstream_any env a u st res st1 \<Longrightarrow>
     sync_desired_any env a es st1 errs st' \<Longrightarrow>
     sync_desired_any env a ((name, u) # es) st
       ((case res of
           None \<Rightarrow> []
         | Some e \<Rightarrow> [Wrapf (''sync upstream '' @ up_Name u @ '' failed'') e]) @ errs) st'"

inductive SyncAllUpstreams_any ::
  "'n net_env \<Rightarrow> nginx_adapter \<Rightarrow> (string, upstream) gomap \<Rightarrow> 'n nginx \<Rightarrow> goerror option \<Rightarrow> 'n nginx \<Rightarrow> bool"
  for env a desired where
  kept_any: "mset es = mset desired \<Longrightarrow> sync_desired_any env a es st errs st' \<Longrightarrow>
     \<not> ngx_PruneOrphans (na_config a) \<Longrightarrow> SyncAllUpstreams_any env a desired st (ErrorOrNil errs) st'"
| pruned_any: "mset es = mset desired \<Longrightarrow> sync_desired_any env a es st errs st1 \<Longrightarrow>
     ngx_PruneOrphans (na_config a) \<Longrightarrow>
     goroutines (na_clients a) (prune_thread env a desired) st1 errs2 st' \<Longrightarrow>
     SyncAllUpstreams_any env a desired st (ErrorOrNil (errs @ errs2)) st'"

inductive adapter_any :: "'n net_env \<Rightarrow> nginx_adapter \<Rightarrow> adapter_call \<Rightarrow> 'n nginx \<Rightarrow> bool \<Rightarrow> 'n nginx \<Rightarrow> bool"
  for env a where
  push_any: "SyncUpstream_any env a u st res st' \<Longrightarrow> adapter_any env a (PushUpstream u) st (res = None) st'"
| all_any: "SyncAllUpstreams_any env a desired st res st' \<Longrightarrow> adapter_any env a (PushAll desired) st (res = None) st'"

inductive adapter_calls_any ::
  "'n net_env \<Rightarrow> nginx_adapter \<Rightarrow> adapter_call list \<Rightarrow> 'n nginx \<Rightarrow> bool list \<Rightarrow> 'n nginx \<Rightarrow> bool"
  for env a where
  no_call: "adapter_calls_any env a [] st [] st"
| a_call: "adapter_any env a call st ok st1 \<Longrightarrow> adapter_calls_any env a calls st1 oks st' \<Longrightarrow>
     adapter_calls_any env a (call # calls) st (ok # oks) st'"

inductive_cases goroutinesE: "goroutines cs ts s all s'"
inductive_cases SyncUpstream_anyE: "SyncUpstream_any env a u st res st'"
inductive_cases sync_desired_any_NilE: "sync_desired_any env a [] st errs st'"
inductive_cases sync_desired_any_ConsE: "sync_desired_any env a (e # es) st errs st'"

text \<open>Whatever the schedule, every call comes to an end.\<close>

lemma goroutines_end: "\<exists>errs s'. goroutines cs ts s errs s'"
proof -
  obtain ts' s' where run: "par_steps cs (ts, s) (ts', s')" "\<forall>z. \<not> par_step cs (ts', s') z"
    using par_steps_end [of cs "(ts, s)"] by auto
  then have "\<exists>errs. ts' c = Finished errs" if "c \<in> set cs" for c
    using that by (intro par_stuck_finished) auto
  then obtain errs where errs: "\<And>c. c \<in> set cs \<Longrightarrow> ts' c = Finished (errs c)" by metis
  obtain all where "mset all = (\<Sum>c \<in> set cs. mset (errs c))" using ex_mset by blast
  with run(1) errs show ?thesis by (blast intro: wait)
qed

lemma SyncUpstream_any_end: "\<exists>res st'. SyncUpstream_any env a u st res st'"
  using goroutines_end SyncUpstream_any.intros by metis

lemma sync_desired_any_end: "\<exists>errs st'. sync_desired_any env a es st errs st'"
proof (induction es arbitrary: st)
  case Nil
  show ?case by (blast intro: done_any)
next
  case (Cons e es)
  obtain name u where e: "e = (name, u)" by fastforce
  obtain res st1 where "SyncUpstream_any env a u st res st1" using SyncUpstream_any_end by metis
  with Cons.IH show ?case
    unfolding e by (metis preserved_any pushed_any)
qed

lemma adapter_any_end: "\<exists>ok st'. adapter_any env a call st ok st'"
proof (cases call)
  case (PushUpstream u)
  then show ?thesis using SyncUpstream_any_end push_any by metis
next
  case (PushAll desired)
  have "\<exists>res st'. SyncAllUpstreams_any env a desired st res st'"
    by (metis sync_desired_any_end goroutines_end kept_any pruned_any)
  with PushAll show ?thesis using all_any by metis
qed

lemma adapter_calls_any_end: "\<exists>oks st'. adapter_calls_any env a calls st oks st'"
proof (induction calls arbitrary: st)
  case (Cons call calls)
  with adapter_any_end show ?case by (metis a_call)
qed (blast intro: no_call)

section \<open>The specification with any schedule\<close>

text \<open>A group of good goroutines.\<close>

lemma goroutines_good:
  assumes "goroutines cs ts st errs st'" and "I (ng_net st)"
    and "\<And>c. c \<in> set cs \<Longrightarrow> good cs I S c (T (S (ng_net st) c)) (P (S (ng_net st) c)) (view S c st) (ts c)"
  shows "I (ng_net st')" and "coherent cs S st'"
    and "S (ng_net st') = (\<lambda>c. if c \<in> set cs then T (S (ng_net st) c) else S (ng_net st) c)"
    and "errs = [] \<longleftrightarrow> (\<forall>c \<in> set cs. P (S (ng_net st) c))"
proof -
  obtain ts' es where run: "par_steps cs (ts, st) (ts', st')" "\<And>c. c \<in> set cs \<Longrightarrow> ts' c = Finished (es c)"
      "mset errs = (\<Sum>c \<in> set cs. mset (es c))"
    using assms(1) by (elim goroutinesE) blast
  note served = interleaved_served [OF assms(3,2) run(1,2)]
  show "I (ng_net st')" and "coherent cs S st'"
    and "S (ng_net st') = (\<lambda>c. if c \<in> set cs then T (S (ng_net st) c) else S (ng_net st) c)"
    by (rule served(1) served(2) served(3); assumption)+
  have "errs = [] \<longleftrightarrow> mset errs = {#}" by simp
  also have "\<dots> \<longleftrightarrow> (\<forall>c \<in> set cs. es c = [])"
    unfolding run(3) by (simp add: sum_eq_empty_iff)
  also have "\<dots> \<longleftrightarrow> (\<forall>c \<in> set cs. P (S (ng_net st) c))"
    using served(4) by blast
  finally show "errs = [] \<longleftrightarrow> (\<forall>c \<in> set cs. P (S (ng_net st) c))" .
qed

lemma obeying_laws:
  assumes "obeying env a r ok I S"
  shows "nginx_servers env (na_config a) (na_clients a) r ok I S" and "distinct (map cl_baseURL (na_clients a))"
  using assms by (simp_all add: obeying_def)

lemma SyncUpstream_any_served:
  assumes "SyncUpstream_any env a u st res st'" and obeying: "obeying env a r ok I S" and "sendable ok u"
    and "I (ng_net st)" and "coherent (na_clients a) S st"
  shows "I (ng_net st')" and "coherent (na_clients a) S st'"
    and "S (ng_net st') = (\<lambda>c. if c \<in> set (na_clients a)
      then (S (ng_net st) c)(up_Name u := after_sync r (target (up_Backends u)) (S (ng_net st) c (up_Name u)))
      else S (ng_net st) c)"
    and "res = None \<longleftrightarrow> (\<forall>c \<in> set (na_clients a). agrees r (target (up_Backends u)) (S (ng_net st) c (up_Name u)))"
proof -
  obtain errs where errs: "goroutines (na_clients a) (sync_thread env a u) st errs st'" "res = ErrorOrNil errs"
    using assms(1) by (elim SyncUpstream_anyE) blast
  have "good (na_clients a) I S c (synced r u (S (ng_net st) c))
      (agrees r (target (up_Backends u)) (S (ng_net st) c (up_Name u))) (view S c st) (sync_thread env a u c)"
    if "c \<in> set (na_clients a)" for c
    using good_sync_thread [OF obeying_laws(1) [OF obeying] that obeying_laws(2) [OF obeying] assms(3), of "view S c st"]
      assms(5) that
    by (simp add: coherent_views view_def)
  note served = goroutines_good [where T = "synced r u" and P = "\<lambda>f. agrees r (target (up_Backends u)) (f (up_Name u))",
      OF errs(1) assms(4) this]
  show "I (ng_net st')" and "coherent (na_clients a) S st'"
    by (rule served(1) served(2); assumption)+
  show "S (ng_net st') = (\<lambda>c. if c \<in> set (na_clients a)
      then (S (ng_net st) c)(up_Name u := after_sync r (target (up_Backends u)) (S (ng_net st) c (up_Name u)))
      else S (ng_net st) c)"
    using served(3) unfolding synced_def by this
  show "res = None \<longleftrightarrow> (\<forall>c \<in> set (na_clients a). agrees r (target (up_Backends u)) (S (ng_net st) c (up_Name u)))"
    unfolding errs(2) ErrorOrNil_None_iff by (rule served(4))
qed

text \<open>An entry of the desired state, and then the others.\<close>

lemma entry_then_rest:
  assumes first: "S1 = (\<lambda>c. if c \<in> cs then (S0 c)(name := entry_served r (Some u) (S0 c name)) else S0 c)"
    and fresh: "name \<notin> fst ` set es"
  shows "(\<lambda>c. if c \<in> cs then (\<lambda>up. entry_served r (map_of es up) (S1 c up)) else S1 c) =
      (\<lambda>c. if c \<in> cs then (\<lambda>up. entry_served r (map_of ((name, u) # es) up) (S0 c up)) else S0 c)"
    and "c \<in> cs \<Longrightarrow> (up, v) \<in> set es \<Longrightarrow> entry_agrees r v (S1 c up) \<longleftrightarrow> entry_agrees r v (S0 c up)"
proof -
  have none: "map_of es name = None" using fresh by (simp add: map_of_eq_None_iff)
  show "(\<lambda>c. if c \<in> cs then (\<lambda>up. entry_served r (map_of es up) (S1 c up)) else S1 c) =
      (\<lambda>c. if c \<in> cs then (\<lambda>up. entry_served r (map_of ((name, u) # es) up) (S0 c up)) else S0 c)"
    unfolding first by (auto simp: fun_eq_iff none)
  assume "c \<in> cs" "(up, v) \<in> set es"
  moreover from this(2) fresh have "up \<noteq> name" by force
  ultimately show "entry_agrees r v (S1 c up) \<longleftrightarrow> entry_agrees r v (S0 c up)"
    unfolding first by simp
qed

lemma sync_desired_any_served:
  assumes "sync_desired_any env a es st errs st'" and obeying: "obeying env a r ok I S"
    and "list_all (entry_sendable ok) es" and "distinct (map fst es)"
    and "I (ng_net st)" and "coherent (na_clients a) S st"
  shows "I (ng_net st') \<and> coherent (na_clients a) S st' \<and>
    S (ng_net st') = (\<lambda>c. if c \<in> set (na_clients a)
      then (\<lambda>up. entry_served r (map_of es up) (S (ng_net st) c up)) else S (ng_net st) c) \<and>
    (errs = [] \<longleftrightarrow> (\<forall>c \<in> set (na_clients a). \<forall>(up, u) \<in> set es. entry_agrees r u (S (ng_net st) c up)))"
  using assms(1,3-)
proof (induction rule: sync_desired_any.induct)
  case (done_any st)
  then show ?case by (simp add: fun_eq_iff)
next
  case (preserved_any u es st errs st' name)
  then have fresh: "name \<notin> fst ` set es" by simp
  have "S (ng_net st) = (\<lambda>c. if c \<in> set (na_clients a)
      then (S (ng_net st) c)(name := entry_served r (Some u) (S (ng_net st) c name)) else S (ng_net st) c)"
    using preserved_any.hyps(1) by (simp add: fun_eq_iff)
  note rest = entry_then_rest(1) [OF this fresh]
  have IH: "I (ng_net st')" "coherent (na_clients a) S st'"
    "S (ng_net st') = (\<lambda>c. if c \<in> set (na_clients a)
      then (\<lambda>up. entry_served r (map_of es up) (S (ng_net st) c up)) else S (ng_net st) c)"
    "errs = [] \<longleftrightarrow> (\<forall>c \<in> set (na_clients a). \<forall>(up, u) \<in> set es. entry_agrees r u (S (ng_net st) c up))"
    using preserved_any.IH preserved_any.prems by simp_all
  from IH(3) have "S (ng_net st') = (\<lambda>c. if c \<in> set (na_clients a)
      then (\<lambda>up. entry_served r (map_of ((name, u) # es) up) (S (ng_net st) c up)) else S (ng_net st) c)"
    by (rule trans) (rule rest)
  moreover have "entry_agrees r u f" for f using preserved_any.hyps(1) by (simp add: entry_agrees_def)
  ultimately show ?case using IH(1,2,4) by simp
next
  case (pushed_any u st res st1 es errs st' name)
  have u: "sendable ok u" "up_Name u = name"
    using pushed_any.prems(1) pushed_any.hyps(1) by (simp_all add: entry_sendable_def)
  have after: "after_sync r (target (up_Backends u)) f = entry_served r (Some u) f"
    "agrees r (target (up_Backends u)) f = entry_agrees r u f" for f
    using pushed_any.hyps(1) by (simp_all add: entry_agrees_def)
  note served = SyncUpstream_any_served [OF pushed_any.hyps(2) obeying u(1) pushed_any.prems(3,4),
      unfolded u(2) after]
  have fresh: "name \<notin> fst ` set es" using pushed_any.prems(2) by simp
  note rest = entry_then_rest [OF served(3) fresh]
  have IH: "I (ng_net st')" "coherent (na_clients a) S st'"
    "S (ng_net st') = (\<lambda>c. if c \<in> set (na_clients a)
      then (\<lambda>up. entry_served r (map_of es up) (S (ng_net st1) c up)) else S (ng_net st1) c)"
    "errs = [] \<longleftrightarrow> (\<forall>c \<in> set (na_clients a). \<forall>(up, u) \<in> set es. entry_agrees r u (S (ng_net st1) c up))"
    using pushed_any.IH pushed_any.prems served(1,2) by simp_all
  from IH(3) have "S (ng_net st') = (\<lambda>c. if c \<in> set (na_clients a)
      then (\<lambda>up. entry_served r (map_of ((name, u) # es) up) (S (ng_net st) c up)) else S (ng_net st) c)"
    by (rule trans) (rule rest(1))
  moreover have "res = None \<and> errs = [] \<longleftrightarrow>
      (\<forall>c \<in> set (na_clients a). \<forall>(up, u) \<in> set ((name, u) # es). entry_agrees r u (S (ng_net st) c up))"
    using served(4) IH(4) rest(2) by fastforce
  ultimately show ?case using IH(1,2) by (cases res) simp_all
qed

lemma same_entries:
  assumes "mset es = mset desired" and "distinct (map fst desired)"
  shows "distinct (map fst es)" and "set es = set desired" and "map_of es = map_of desired"
proof -
  have "mset (map fst es) = mset (map fst desired)" using assms(1) by simp
  from mset_eq_imp_distinct_iff [OF this] assms(2) show dist: "distinct (map fst es)" by simp
  show set: "set es = set desired" using assms(1) by (rule mset_eq_setD)
  show "map_of es = map_of desired"
    using dist assms(2) set by (metis map_of_inject_set)
qed

lemma SyncAllUpstreams_any_served:
  assumes run: "SyncAllUpstreams_any env a desired st res st'" and obeying: "obeying env a r ok I S"
    and sendable: "list_all (entry_sendable ok) desired" and distinct: "distinct (map fst desired)"
    and I: "I (ng_net st)" and coh: "coherent (na_clients a) S st"
  shows "I (ng_net st') \<and> coherent (na_clients a) S st' \<and>
    S (ng_net st') = (\<lambda>c. if c \<in> set (na_clients a)
      then (\<lambda>up. reconciled r (ngx_PruneOrphans (na_config a)) (map_of desired up) (S (ng_net st) c up))
      else S (ng_net st) c) \<and>
    (res = None \<longleftrightarrow> (\<forall>c \<in> set (na_clients a). \<forall>(up, u) \<in> set desired. entry_agrees r u (S (ng_net st) c up)))"
proof -
  have synced: "I (ng_net st1) \<and> coherent (na_clients a) S st1 \<and>
      S (ng_net st1) = (\<lambda>c. if c \<in> set (na_clients a)
        then (\<lambda>up. entry_served r (map_of desired up) (S (ng_net st) c up)) else S (ng_net st) c) \<and>
      (errs = [] \<longleftrightarrow> (\<forall>c \<in> set (na_clients a). \<forall>(up, u) \<in> set desired. entry_agrees r u (S (ng_net st) c up)))"
    if "mset es = mset desired" "sync_desired_any env a es st errs st1" for es errs st1
  proof -
    have "list_all (entry_sendable ok) es"
      using sendable same_entries(2) [OF that(1) distinct] by (simp add: list_all_iff)
    note same = same_entries [OF that(1) distinct]
    from sync_desired_any_served [OF that(2) obeying \<open>list_all (entry_sendable ok) es\<close> same(1) I coh]
    show ?thesis unfolding same(2,3) .
  qed
  from run show ?thesis
  proof cases
    case (kept_any es errs)
    have same: "reconciled r (ngx_PruneOrphans (na_config a)) x f = entry_served r x f" for x f
      using kept_any(4) by (simp add: reconciled_def)
    from synced [OF kept_any(2,3)] show ?thesis
      unfolding same kept_any(1) ErrorOrNil_None_iff .
  next
    case (pruned_any es errs st1 errs2)
    from synced [OF pruned_any(2,3)] have st1: "I (ng_net st1)" "coherent (na_clients a) S st1"
        "S (ng_net st1) = (\<lambda>c. if c \<in> set (na_clients a)
          then (\<lambda>up. entry_served r (map_of desired up) (S (ng_net st) c up)) else S (ng_net st) c)"
        "errs = [] \<longleftrightarrow> (\<forall>c \<in> set (na_clients a). \<forall>(up, u) \<in> set desired. entry_agrees r u (S (ng_net st) c up))"
      by simp_all
    have "good (na_clients a) I S c (pruned desired (S (ng_net st1) c)) True (view S c st1) (prune_thread env a desired c)"
      if "c \<in> set (na_clients a)" for c
      using good_prune_thread [OF obeying_laws(1) [OF obeying] that obeying_laws(2) [OF obeying], of "view S c st1"]
        st1(2) that
      by (simp add: coherent_views view_def)
    note served = goroutines_good [where T = "pruned desired" and P = "\<lambda>f. True" and S = S and I = I,
        OF pruned_any(5) st1(1) this]
    have removed: "S (ng_net st') = (\<lambda>c. if c \<in> set (na_clients a)
        then pruned desired (S (ng_net st1) c) else S (ng_net st1) c)"
      using served(3) by this
    have "S (ng_net st') = (\<lambda>c. if c \<in> set (na_clients a)
        then (\<lambda>up. reconciled r (ngx_PruneOrphans (na_config a)) (map_of desired up) (S (ng_net st) c up))
        else S (ng_net st) c)"
      using pruned_any(4) unfolding removed st1(3)
      by (auto simp: fun_eq_iff reconciled_def pruned_def has_key_def)
    moreover have "res = None \<longleftrightarrow> errs = []"
      using served(4) pruned_any(1) by (simp add: ErrorOrNil_None_iff)
    ultimately show ?thesis using served(1,2) st1(4) by blast
  qed
qed

lemma adapter_any_refines:
  assumes "adapter_any env a call st b st'" and "obeying env a r ok I S" and "call_fits ok call"
    and "I (ng_net st)" and "coherent (na_clients a) S st"
  shows "I (ng_net st') \<and> coherent (na_clients a) S st' \<and>
    spec_call r (ngx_PruneOrphans (na_config a)) (na_clients a) call (S (ng_net st)) = (b, S (ng_net st'))"
  using assms(1)
proof cases
  case (push_any u res)
  then have "sendable ok u" using assms(3) by simp
  note served = SyncUpstream_any_served [OF push_any(3) assms(2) this assms(4,5)]
  show ?thesis
    unfolding push_any(1,2) spec_call.simps served(3) served(4) [symmetric] using served(1,2) by blast
next
  case (all_any desired res)
  then have fits: "list_all (entry_sendable ok) desired" "distinct (map fst desired)" using assms(3) by simp_all
  from SyncAllUpstreams_any_served [OF all_any(3) assms(2) fits assms(4,5)] show ?thesis
    unfolding all_any(1,2) spec_call.simps by (elim conjE) (simp only: simp_thms)
qed

lemma adapter_calls_any_refine:
  assumes "adapter_calls_any env a calls st oks st'" and "obeying env a r ok I S" and "list_all (call_fits ok) calls"
    and "I (ng_net st)" and "coherent (na_clients a) S st"
  shows "in_sequence (spec_call r (ngx_PruneOrphans (na_config a)) (na_clients a)) calls (S (ng_net st)) =
      (oks, S (ng_net st'))"
  using assms(1,3-)
proof (induction rule: adapter_calls_any.induct)
  case (a_call call st b st1 calls oks st')
  then have "call_fits ok call" by simp
  from adapter_any_refines [OF a_call.hyps(1) assms(2) this a_call.prems(2,3)] a_call.IH a_call.prems(1)
  show ?case by simp
qed simp

end
