(* ===== verification/ConvergenceProps.thy ===== *)
theory ConvergenceProps
  imports ServerDemo Concurrency
begin

text \<open>
  The promise of the controller, end to end: a reconciliation makes the NGINX servers serve what the
  services ask for, and the adapter implements an abstract specification of its calls.
\<close>

section \<open>Properties\<close>


text \<open>
  C2: the adapter implements its specification. Start it fresh against servers that obey the laws
  of the upstream module, whether or not an add request overwrites the weight of a server that is
  there, and make any sequence of pushes of single upstreams and of whole desired states. Then what
  the servers serve, and which calls report an error, is at every point what the specification
  says, whose only state is what is served: a push brings the one upstream to exactly what is asked
  for on every server, save for weights that are refused; a desired state does so for each of its
  upstreams that is not preserved, and removes the others where orphans are pruned. The cache, its
  two seconds and the requests that it saves make no difference.
\<close>

theorem adapter_refines_spec:
  assumes "obeying env a replaces room I S" and "list_all (call_fits room) calls" and "I n"
  shows "case in_sequence (adapter_run env a) calls (new_nginx_state n) of
    (oks, st) \<Rightarrow>
      in_sequence (spec_call replaces (ngx_PruneOrphans (na_config a)) (na_clients a)) calls (S n) =
        (oks, S (ng_net st)) \<and>
      I (ng_net st) \<and> coherent (na_clients a) S st"
proof -
  have n: "ng_net (new_nginx_state n) = n" by (simp add: new_nginx_state_def)
  obtain oks st where "in_sequence (adapter_run env a) calls (new_nginx_state n) = (oks, st)"
      "I (ng_net st)" "coherent (na_clients a) S st"
      "in_sequence (spec_call replaces (ngx_PruneOrphans (na_config a)) (na_clients a)) calls (S n) =
        (oks, S (ng_net st))"
    using adapter_calls_refine [OF assms(1,2) _ coherent_fresh, of n, unfolded n, OF assms(3)]
    by (elim exE conjE) rule
  then show ?thesis by simp
qed

text \<open>
  C3: the interleaving of goroutines does not matter. The adapter starts a goroutine for each client
  and waits for them. Let each take its atomic actions (the semaphore, an access to the cache under
  its lock, a request) in any order among the others, let errors be collected in any order and maps
  be ranged over in any order. Against servers that obey the laws, any sequence of calls given to a
  fresh adapter can be brought to an end, no group of goroutines runs for ever, and whenever the
  calls have returned, what the servers serve and which calls reported an error is what the
  specification says, as it is when the goroutines run one after the other. On its own, a goroutine
  is the one of the sequential model, on any network.
\<close>

theorem concurrent_adapter_refines_spec:
  assumes "obeying env a replaces room I S" and "list_all (call_fits room) calls" and "I n"
  shows "(\<exists>oks st. adapter_calls_any env a calls (new_nginx_state n) oks st) \<and>
    (\<forall>oks st. adapter_calls_any env a calls (new_nginx_state n) oks st \<longrightarrow>
       in_sequence (spec_call replaces (ngx_PruneOrphans (na_config a)) (na_clients a)) calls (S n) =
         (oks, S (ng_net st)) \<and>
       (case in_sequence (adapter_run env a) calls (new_nginx_state n) of
          (oks', st') \<Rightarrow> oks' = oks \<and> S (ng_net st') = S (ng_net st))) \<and>
    wfp (\<lambda>y x. par_step (na_clients a) (x :: _ \<times> 'n nginx) y) \<and>
    run_thread (sync_thread env a u c) s = goroutine env (sync_client env a u) ([], s) c \<and>
    run_thread (prune_thread env a desired c) s = goroutine env (prune_client env a desired) ([], s) c"
proof (intro conjI allI impI)
  have net: "ng_net (new_nginx_state n) = n" by (simp add: new_nginx_state_def)
  fix oks st
  assume "adapter_calls_any env a calls (new_nginx_state n) oks st"
  from adapter_calls_any_refine [OF this assms(1,2) _ coherent_fresh] assms(3)
  show spec: "in_sequence (spec_call replaces (ngx_PruneOrphans (na_config a)) (na_clients a)) calls (S n) =
      (oks, S (ng_net st))"
    by (simp add: net)
  from adapter_calls_refine [OF assms(1,2) _ coherent_fresh, of n, unfolded net, OF assms(3)] spec
  show "case in_sequence (adapter_run env a) calls (new_nginx_state n) of
      (oks', st') \<Rightarrow> oks' = oks \<and> S (ng_net st') = S (ng_net st)"
    by auto
qed (rule adapter_calls_any_end par_step_terminates run_sync_thread run_prune_thread)+

text \<open>
  What this means for the two paths of the controller, which no lock keeps apart: a desired state
  that was computed before an upstream was asked for, and is handed over after the event path has
  pushed it, removes it again where orphans are pruned.
\<close>

lemma stale_state_undoes_push:
  assumes "obeying env a replaces room I S" and "sendable room u" and "call_fits room (PushAll desired)" and "I n"
    and "ngx_PruneOrphans (na_config a)" and "up_Name u \<notin> fst ` set desired" and "c \<in> set (na_clients a)"
  shows "S (ng_net (snd (in_sequence (adapter_run env a) [PushUpstream u, PushAll desired] (new_nginx_state n))))
    c (up_Name u) = (\<lambda>s. None)"
proof -
  have net: "ng_net (new_nginx_state n) = n" by (simp add: new_nginx_state_def)
  have fits: "list_all (call_fits room) [PushUpstream u, PushAll desired]" using assms(2,3) by simp
  obtain oks st where run: "in_sequence (adapter_run env a) [PushUpstream u, PushAll desired] (new_nginx_state n) = (oks, st)"
      "in_sequence (spec_call replaces (ngx_PruneOrphans (na_config a)) (na_clients a))
        [PushUpstream u, PushAll desired] (S n) = (oks, S (ng_net st))"
    using adapter_calls_refine [OF assms(1) fits _ coherent_fresh, of n, unfolded net, OF assms(4)]
    by (elim exE conjE) rule
  have "map_of desired (up_Name u) = None" using assms(6) by (simp add: map_of_eq_None_iff)
  then have "snd (in_sequence (spec_call replaces (ngx_PruneOrphans (na_config a)) (na_clients a))
      [PushUpstream u, PushAll desired] (S n)) c (up_Name u) = (\<lambda>s. None)"
    using assms(5,7) by (simp add: reconciled_def)
  then show ?thesis unfolding run snd_conv .
qed

section \<open>Witnesses\<close>

text \<open>The small cluster with the simulated server, in a state where its weights are wrong.\<close>

definition sim_deps :: "sim nginx deps" where
  "sim_deps =
     \<lparr>dep_k8s = adapter_port (demo_listers [''web'']), dep_config = demo_config,
      dep_loadBalancers = [(''lb1'', nginx_lba sim_env demo_adapter)]\<rparr>"

definition sim_start :: "sim nginx" where
  "sim_start = demo_state (Some 2, Some 1)"

definition web_upstream :: upstream where
  "web_upstream =
     \<lparr>up_Name = ''web'', up_LoadBalancer = ''lb1'',
      up_Backends = [\<lparr>be_IP = ''10.0.0.1'', be_Port = 30080, be_Weight = 1\<rparr>],
      up_Type = '''', up_Config = None, up_PreserveExistingBackends = False\<rparr>"

lemma sim_obeying: "obeying sim_env demo_adapter True sim_room sim_inv sim_served"
  using sim_laws by (simp add: obeying_def demo_adapter_def)

lemma sim_start_ok:
  "sim_inv (ng_net sim_start)" "coherent (na_clients demo_adapter) sim_served sim_start"
  by (simp_all add: sim_start_def demo_state_def coherent_def sim_inv_def sim_weights_def)

lemma web_target: "target (up_Backends web_upstream) = [sim_addr1 \<mapsto> 1]"
  by (auto simp: fun_eq_iff target_def web_upstream_def sim_addrs weightToAdd_def)

lemma web_sendable: "sendable sim_room web_upstream"
  by (simp add: sendable_def desiredBackend_def web_upstream_def sim_room_def sim_addrs sim_weights_def
      weightToAdd_def desired_add_def)

lemma sim_asked:
  "reconcile_entry (dep_k8s sim_deps) (dep_config sim_deps) [] ''lb1'' [mapService (demo_service ''web'')] up =
     (if up = ''web'' then Some web_upstream else None)"
proof (cases "up = ''web''")
  case True
  then show ?thesis
    using demo_desired_entry
    by (simp add: reconcile_entry_def sim_deps_def fallback_step_def web_upstream_def)
next
  case False
  then have "filter (targets ''lb1'' up) [mapService (demo_service ''web'')] = []"
    by (auto simp: targets_def demo_defs)
  with False show ?thesis
    by (simp add: reconcile_entry_def desired_entry_def)
qed


text \<open>A push of the upstream, and then a desired state without it: nothing is pruned by the configuration.\<close>

theorem adapter_refines_spec_witness:
  "case in_sequence (adapter_run sim_env demo_adapter) [PushUpstream web_upstream, PushAll []]
       (new_nginx_state (Some 2, Some 1)) of
     (oks, st) \<Rightarrow>
       oks = [True, True] \<and> sim_served (ng_net st) demo_client ''web'' = [sim_addr1 \<mapsto> 1]"
proof -
  let ?calls = "[PushUpstream web_upstream, PushAll []]"
  have fits: "list_all (call_fits sim_room) ?calls" using web_sendable by simp
  have inv: "sim_inv (Some 2, Some 1)" by (simp add: sim_inv_def sim_weights_def)
  obtain oks st where run: "in_sequence (adapter_run sim_env demo_adapter) ?calls (new_nginx_state (Some 2, Some 1)) =
      (oks, st)" by fastforce
  have demo: "na_clients demo_adapter = [demo_client]" "\<not> ngx_PruneOrphans (na_config demo_adapter)"
    "up_Name web_upstream = ''web''"
    by (simp_all add: demo_adapter_def demo_ngx_def web_upstream_def)
  from adapter_refines_spec [OF sim_obeying fits inv, unfolded run]
  have spec: "in_sequence (spec_call True False [demo_client]) ?calls (sim_served (Some 2, Some 1)) =
      (oks, sim_served (ng_net st))"
    using demo by simp
  have "fst (in_sequence (spec_call True False [demo_client]) ?calls F) = [True, True]"
    "snd (in_sequence (spec_call True False [demo_client]) ?calls F) demo_client ''web'' = [sim_addr1 \<mapsto> 1]" for F
    by (simp_all add: agrees_def after_sync_replaces reconciled_def demo(3) web_target)
  from this [of "sim_served (Some 2, Some 1)", unfolded spec fst_conv snd_conv] show ?thesis
    unfolding run by simp
qed

text \<open>
  Two servers, one with a wrong weight and a server too many, the other without the server asked for:
  all is pruned, and then the upstream is pushed, in some schedule.
\<close>

lemma pair_obeying: "obeying pair_env pair_adapter True sim_room pair_inv pair_served"
  using pair_adapter_laws
  by (simp add: obeying_def pair_adapter_def demo_client_def other_client_def)

theorem concurrent_adapter_refines_spec_witness:
  "\<exists>oks st. adapter_calls_any pair_env pair_adapter [PushAll [], PushUpstream web_upstream]
       (new_nginx_state ((Some 2, Some 1), (None, Some 1))) oks st \<and>
     oks = [True, True] \<and>
     pair_served (ng_net st) demo_client ''web'' = [sim_addr1 \<mapsto> 1] \<and>
     pair_served (ng_net st) other_client ''web'' = [sim_addr1 \<mapsto> 1]"
proof -
  let ?calls = "[PushAll [], PushUpstream web_upstream]" and ?n = "((Some 2, Some 1), (None, Some 1))"
  have fits: "list_all (call_fits sim_room) ?calls" using web_sendable by simp
  have inv: "pair_inv ?n" by (simp add: pair_inv_def sim_inv_def sim_weights_def)
  note refines = concurrent_adapter_refines_spec [OF pair_obeying fits inv]
  obtain oks st where run: "adapter_calls_any pair_env pair_adapter ?calls (new_nginx_state ?n) oks st"
    using refines by blast
  have pair: "na_clients pair_adapter = [demo_client, other_client]" "ngx_PruneOrphans (na_config pair_adapter) = True"
    by (simp_all add: pair_adapter_def)
  have spec: "in_sequence (spec_call True True [demo_client, other_client]) ?calls (pair_served ?n) =
      (oks, pair_served (ng_net st))"
    using refines [unfolded pair] run by blast
  have "up_Name web_upstream = ''web''" by (simp add: web_upstream_def)
  then have "fst (in_sequence (spec_call True True [demo_client, other_client]) ?calls F) = [True, True]"
    "c \<in> {demo_client, other_client} \<Longrightarrow>
      snd (in_sequence (spec_call True True [demo_client, other_client]) ?calls F) c ''web'' = [sim_addr1 \<mapsto> 1]" for F c
    by (auto simp: agrees_def after_sync_replaces web_target)
  from this(1) [of "pair_served ?n"] this(2) [of _ "pair_served ?n"] run show ?thesis
    unfolding spec fst_conv snd_conv by blast
qed

end
