(* ===== verification/ValidationProps.thy ===== *)
theory ValidationProps
  imports Validation
begin

text \<open>
  What the validators accept: valid domains are sequences of labels, and a configuration passes
  exactly when it meets \<open>config_ok\<close>, which says in one place what a valid configuration is. For
  such a configuration at most one replacement rule of each kind matches an address, so the
  order in which the rules are written does not matter.
\<close>

section \<open>Domains\<close>

definition valid_label :: "string \<Rightarrow> bool" where
  "valid_label l \<longleftrightarrow> l \<noteq> '''' \<and> length l \<le> 63 \<and> is_alnum (hd l) \<and> is_alnum (last l) \<and>
     list_all (\<lambda>c. is_alnum c \<or> c = CHR ''-'') l"

lemma in_lang_label: "in_lang domain_label l \<longleftrightarrow> valid_label l"
proof -
  have mid: "in_lang (Seq (UpTo 61 (Class q)) (Class p)) v \<longleftrightarrow>
      v \<noteq> [] \<and> length v \<le> 62 \<and> list_all q (butlast v) \<and> p (last v)" for p q v
  proof (cases v rule: rev_cases)
    case (snoc u c)
    then show ?thesis
      by (auto simp: in_lang_simps in_lang_UpTo_Class)
  qed (simp add: in_lang_simps)
  show ?thesis
  proof (cases l)
    case (Cons c v)
    show ?thesis
    proof (cases v rule: rev_cases)
      case (snoc u d)
      with Cons show ?thesis
        by (auto simp: domain_label_def in_lang_Class_Seq in_lang_Opt mid valid_label_def simp del: UpTo.simps)
    qed (use Cons in \<open>auto simp: domain_label_def in_lang_Class_Seq in_lang_Opt valid_label_def\<close>)
  qed (simp add: domain_label_def in_lang_Class_Seq valid_label_def)
qed

lemma Split_join:
  "s = concat (map (\<lambda>l. l @ [c]) (butlast (Split s c))) @ last (Split s c)"
proof (induction s)
  case (Cons d s)
  obtain p ps where ps: "Split s c = p # ps"
    using Split_not_Nil by (meson neq_Nil_conv)
  then show ?case
    using Cons by (cases ps) (auto split: list.split)
qed simp

lemma Split_concat:
  assumes "list_all (\<lambda>l. c \<notin> set l) ls" and "c \<notin> set t"
  shows "Split (concat (map (\<lambda>l. l @ [c]) ls) @ t) c = ls @ [t]"
  using assms by (induction ls) (simp_all add: Split_append_sep Split_no_sep)

abbreviation join_labels :: "string list \<Rightarrow> string" where
  "join_labels ls \<equiv> concat (map (\<lambda>l. l @ ''.'') ls)"

lemma dot_not_alnum: "\<not> is_alnum CHR ''.''"
  by (simp add: is_alnum_def is_digit_def)

lemma Split_labels_iff:
  assumes "list_all valid_label ls" and "list_all is_letter t"
  shows "h = join_labels ls @ t \<longleftrightarrow> Split h CHR ''.'' = ls @ [t]"
proof
  have dots: "list_all (\<lambda>l. CHR ''.'' \<notin> set l) ls" "CHR ''.'' \<notin> set t"
    using assms dot_not_alnum by (auto simp: list_all_iff valid_label_def is_letter_def)
  assume "h = join_labels ls @ t"
  with Split_concat [OF dots] show "Split h CHR ''.'' = ls @ [t]"
    by simp
next
  assume "Split h CHR ''.'' = ls @ [t]"
  then show "h = join_labels ls @ t"
    using Split_join [of h "CHR ''.''"] by simp
qed

lemma map_dotted_iff:
  "list_all (\<lambda>w. \<exists>l. w = l @ ''.'' \<and> valid_label l) ws \<longleftrightarrow>
     (\<exists>ls. ws = map (\<lambda>l. l @ ''.'') ls \<and> list_all valid_label ls)"
proof
  assume "list_all (\<lambda>w. \<exists>l. w = l @ ''.'' \<and> valid_label l) ws"
  then have "ws = map (\<lambda>l. l @ ''.'') (map butlast ws) \<and> list_all valid_label (map butlast ws)"
    by (induction ws) auto
  then show "\<exists>ls. ws = map (\<lambda>l. l @ ''.'') ls \<and> list_all valid_label ls" ..
qed (auto simp: list_all_iff)

lemma in_lang_labels:
  "in_lang (Plus (Seq domain_label (Class (\<lambda>c. c = CHR ''.'')))) w \<longleftrightarrow>
     (\<exists>ls. ls \<noteq> [] \<and> w = join_labels ls \<and> list_all valid_label ls)"
proof -
  have dotted: "in_lang (Seq domain_label (Class (\<lambda>c. c = CHR ''.''))) w \<longleftrightarrow>
      (\<exists>l. w = l @ ''.'' \<and> valid_label l)" for w
    by (auto simp: in_lang_simps in_lang_label)
  show ?thesis
    unfolding in_lang_Plus_iff dotted map_dotted_iff by auto
qed

lemma in_lang_tld:
  "in_lang (Seq (Times 2 (Class is_letter)) (Star (Class is_letter))) t \<longleftrightarrow>
     2 \<le> length t \<and> list_all is_letter t"
proof
  assume "2 \<le> length t \<and> list_all is_letter t"
  then show "in_lang (Seq (Times 2 (Class is_letter)) (Star (Class is_letter))) t"
    unfolding in_lang_simps in_lang_Times_Class in_lang_Star_Class
    by (intro exI [of _ "take 2 t"] exI [of _ "drop 2 t"])
      (auto simp: list_all_iff dest: in_set_takeD in_set_dropD)
qed (auto simp: in_lang_simps in_lang_Times_Class in_lang_Star_Class simp del: Times.simps)

text \<open>
  C40: a host name is a valid domain exactly when its parts between the dots are at least two, all
  but the last are labels of at most 63 letters, digits and inner hyphens, and the last one has
  at least two characters, all letters.
\<close>

theorem IsValidDomain_labels:
  "IsValidDomain h \<longleftrightarrow>
     (let ls = Split h CHR ''.'' in
      2 \<le> length ls \<and> list_all valid_label (butlast ls) \<and>
      2 \<le> length (last ls) \<and> list_all is_letter (last ls))"
proof -
  have "in_lang domainRegex h \<longleftrightarrow>
      (\<exists>a t. h = a @ t \<and> (\<exists>ls. ls \<noteq> [] \<and> a = join_labels ls \<and> list_all valid_label ls) \<and>
        2 \<le> length t \<and> list_all is_letter t)"
    unfolding domainRegex_def by (simp only: in_lang_simps(4) [of "Plus _"] in_lang_labels in_lang_tld)
  moreover have "h \<noteq> ''''" if "h = a @ t" "2 \<le> length t" for a t
    using that by auto
  ultimately have "IsValidDomain h \<longleftrightarrow>
      (\<exists>ls t. ls \<noteq> [] \<and> (list_all valid_label ls \<and> list_all is_letter t) \<and>
        h = join_labels ls @ t \<and> 2 \<le> length t)"
    unfolding IsValidDomain_def matches_iff by blast
  also have "\<dots> \<longleftrightarrow> (\<exists>ls t. ls \<noteq> [] \<and> (list_all valid_label ls \<and> list_all is_letter t) \<and>
      Split h CHR ''.'' = ls @ [t] \<and> 2 \<le> length t)"
    by (intro ex_cong1 conj_cong refl) (simp add: Split_labels_iff)
  also have "\<dots> \<longleftrightarrow> (let ls = Split h CHR ''.'' in
      2 \<le> length ls \<and> list_all valid_label (butlast ls) \<and>
      2 \<le> length (last ls) \<and> list_all is_letter (last ls))"
  proof (cases "Split h CHR ''.''" rule: rev_cases)
    case (snoc ls t)
    then show ?thesis by (cases ls) (auto simp: Let_def)
  qed simp
  finally show ?thesis .
qed

section \<open>What a valid configuration is\<close>

text \<open>A 16-byte address lies in the source network of a rule; two rules that share none.\<close>

definition in_net :: "net_config \<Rightarrow> ip \<Rightarrow> bool" where
  "in_net n a \<longleftrightarrow>
     (\<exists>x net. ParseCIDR (net_Source n @ ''/'' @ int_dec (net_Mask n)) = Some (x, net) \<and> Contains net a)"

definition disjoint_nets :: "net_config \<Rightarrow> net_config \<Rightarrow> bool" where
  "disjoint_nets n1 n2 \<longleftrightarrow> (\<forall>a. length a = 16 \<longrightarrow> \<not> (in_net n1 a \<and> in_net n2 a))"

lemma overlap_iff: "overlap n1 n2 \<longleftrightarrow> \<not> disjoint_nets n1 n2"
  unfolding overlap_def IsNetworkOverlap_common disjoint_nets_def in_net_def by blast

lemma disjoint_nets_sym: "disjoint_nets n1 n2 = disjoint_nets n2 n1"
  by (auto simp: disjoint_nets_def)

definition net_rule_ok :: "net_config \<Rightarrow> bool" where
  "net_rule_ok n \<longleftrightarrow> IsValidIP (net_Source n) \<and> IsValidIP (net_Target n) \<and>
     0 \<le> net_Mask n \<and> net_Mask n \<le> max_mask (net_Source n)"

definition ip_rule_ok :: "ip_config \<Rightarrow> bool" where
  "ip_rule_ok r \<longleftrightarrow> IsValidIP (ip_Source r) \<and> IsValidIP (ip_Target r)"

text \<open>The rules of a load balancer: its own and the global ones it refers to.\<close>

definition rules_ok :: "ip_replacement_list \<Rightarrow> global_ip_replacement_list \<Rightarrow> bool" where
  "rules_ok lst g \<longleftrightarrow>
     list_all net_rule_ok (irl_Nets lst) \<and> list_all ip_rule_ok (irl_IPs lst) \<and>
     set (irl_GlobalNets lst) \<subseteq> gnr_Name ` set (grl_Net g) \<and>
     set (irl_GlobalIPs lst) \<subseteq> gir_Name ` set (grl_IP g) \<and>
     sorted_wrt disjoint_nets (referenced_nets lst g @ irl_Nets lst) \<and>
     distinct (map ip_Source (referenced_ips lst g @ irl_IPs lst))"

definition global_rules_ok :: "global_ip_replacement_list \<Rightarrow> bool" where
  "global_rules_ok g \<longleftrightarrow>
     distinct (map gnr_Name (grl_Net g) @ map gir_Name (grl_IP g)) \<and>
     list_all (\<lambda>n. gnr_Name n \<noteq> '''' \<and> list_all net_rule_ok (gnr_Nets n) \<and>
       sorted_wrt disjoint_nets (gnr_Nets n)) (grl_Net g) \<and>
     list_all (\<lambda>i. gir_Name i \<noteq> '''' \<and> list_all ip_rule_ok (gir_IPs i) \<and>
       distinct (map ip_Source (gir_IPs i))) (grl_IP g)"

definition backend_ok :: "default_backend option \<Rightarrow> bool" where
  "backend_ok b \<longleftrightarrow>
     (case b of None \<Rightarrow> True | Some b \<Rightarrow> IsValidIP (db_IP b) \<and> IsValidPort (sint (db_Port b)))"

definition nginx_ok :: "nginx_config \<Rightarrow> bool" where
  "nginx_ok c \<longleftrightarrow>
     (ngx_Protocol c = ''http'' \<or> ngx_Protocol c = ''https'' \<and> IsValidDomain (ngx_Hostname c)) \<and>
     isValidRelativeURI (ngx_ListAPI c) \<and> isValidRelativeURI (ngx_AddAPI c) \<and>
     isValidRelativeURI (ngx_RemoveAPI c) \<and>
     0 \<le> ngx_UpstreamSyncPeriod c \<and> 0 \<le> ngx_FailTimeout c"

definition envoy_ok :: "envoy_config \<Rightarrow> bool" where
  "envoy_ok c \<longleftrightarrow> env_Protocol c = ''grpc'' \<and> 0 \<le> env_UpstreamSyncPeriod c"

fun protocol_ok :: "lb_config \<Rightarrow> bool" where
  "protocol_ok (NginxConfig c) = nginx_ok c"
| "protocol_ok (NginxPtr c) = nginx_ok c"
| "protocol_ok (EnvoyConfig c) = envoy_ok c"
| "protocol_ok (EnvoyPtr c) = envoy_ok c"

definition lb_ok :: "global_ip_replacement_list \<Rightarrow> lb_config \<Rightarrow> bool" where
  "lb_ok g lb \<longleftrightarrow>
     1 \<le> GetRequestPoolSize lb \<and> GetRequestPoolSize lb \<le> 100 \<and> 0 < GetRequestTimeOut lb \<and>
     GetName lb \<noteq> '''' \<and>
     (GetHostName lb = '''' \<or> IsValidDomain (GetHostName lb)) \<and>
     list_all (\<lambda>a. IsValidIP (addr_IP a) \<and> IsValidPort (addr_Port a)) (GetAddresses lb) \<and>
     (GetIPReplacement lb \<longrightarrow>
        (irl_Nets (GetIPReplacementList lb) \<noteq> [] \<or> irl_IPs (GetIPReplacementList lb) \<noteq> [] \<or>
         irl_GlobalNets (GetIPReplacementList lb) \<noteq> [] \<or> irl_GlobalIPs (GetIPReplacementList lb) \<noteq> []) \<and>
        rules_ok (GetIPReplacementList lb) g) \<and>
     backend_ok (GetDefaultBackend lb) \<and> protocol_ok lb"

definition election_ok :: "leader_election_config \<Rightarrow> bool" where
  "election_ok le \<longleftrightarrow>
     (le_Enabled le \<longrightarrow> le_LeaseName le \<noteq> '''' \<and> le_LeaseNamespace le \<noteq> '''' \<and>
        0 < le_RetryPeriod le \<and> le_RetryPeriod le < le_RenewDeadline le \<and>
        le_RenewDeadline le < le_LeaseDuration le)"

definition config_ok :: "config \<Rightarrow> bool" where
  "config_ok cfg \<longleftrightarrow>
     1 \<le> cfg_RequestPoolSize cfg \<and> cfg_RequestPoolSize cfg \<le> 100 \<and>
     0 \<le> cfg_GlobalUpstreamSyncPeriod cfg \<and> backend_ok (cfg_DefaultBackend cfg) \<and>
     election_ok (cfg_LeaderElection cfg) \<and>
     (log_Enabled (cfg_Log cfg) \<longrightarrow>
        ToLower (log_Level (cfg_Log cfg)) \<in> {''debug'', ''info'', ''warn'', ''error'', ''fatal''} \<and>
        ToLower (log_Format (cfg_Log cfg)) \<in> {''json'', ''console''}) \<and>
     (met_Enabled (cfg_Metrics cfg) \<longrightarrow>
        0 \<le> met_Port (cfg_Metrics cfg) \<and> met_Port (cfg_Metrics cfg) \<le> 65535 \<and>
        met_URI (cfg_Metrics cfg) \<noteq> '''') \<and>
     0 \<le> kub_ResyncPeriod (cfg_Kubernetes cfg) \<and>
     global_rules_ok (cfg_GlobalIPReplacementList cfg) \<and>
     distinct (map GetName (cfg_LoadBalancers cfg)) \<and>
     list_all (lb_ok (cfg_GlobalIPReplacementList cfg)) (cfg_LoadBalancers cfg)"

section \<open>The validators one by one\<close>

lemma first_some_list_all: "first_some f xs = None \<longleftrightarrow> list_all (\<lambda>x. f x = None) xs"
  by (simp add: first_some_None_iff list_all_iff)

lemma if_None_iff [simp]:
  "(if b then Some x else y) = None \<longleftrightarrow> \<not> b \<and> y = None"
  "(if b then y else Some x) = None \<longleftrightarrow> b \<and> y = None"
  by simp_all

lemma check_nets_iff:
  "check_nets f g h ns = None \<longleftrightarrow> list_all net_rule_ok ns \<and> sorted_wrt disjoint_nets ns"
proof -
  let ?E = "List.enumerate 0 ns"
  have inner: "first_some (\<lambda>(j, y). if i = j then None else if overlap x y then Some (h x y) else None) ?E = None
      \<longleftrightarrow> (\<forall>(j, y) \<in> set ?E. i \<noteq> j \<longrightarrow> disjoint_nets x y)" for i x
    by (auto simp: first_some_None_iff overlap_iff Ball_def)
  have "check_nets f g h ns = None \<longleftrightarrow>
      (\<forall>(i, x) \<in> set ?E. net_rule_ok x \<and> (\<forall>(j, y) \<in> set ?E. i \<noteq> j \<longrightarrow> disjoint_nets x y))"
    unfolding check_nets_def first_some_None_iff
    by (rule ball_cong [OF refl]) (auto simp: net_rule_ok_def Let_def inner)
  also have "\<dots> \<longleftrightarrow> (\<forall>(i, x) \<in> set ?E. net_rule_ok x) \<and>
      (\<forall>(i, x) \<in> set ?E. \<forall>(j, y) \<in> set ?E. i \<noteq> j \<longrightarrow> disjoint_nets x y)"
    by blast
  also have "(\<forall>(i, x) \<in> set (List.enumerate 0 ns). net_rule_ok x) \<longleftrightarrow> list_all net_rule_ok ns"
    by (rule enumerate_all)
  also have "(\<forall>(i, x) \<in> set (List.enumerate 0 ns). \<forall>(j, y) \<in> set (List.enumerate 0 ns). i \<noteq> j \<longrightarrow> disjoint_nets x y) \<longleftrightarrow>
      sorted_wrt disjoint_nets ns"
    unfolding pairs_iff sorted_wrt_iff_nth_less
  proof (intro iffI allI impI)
    fix i j
    assume "\<forall>i j. i < j \<longrightarrow> j < length ns \<longrightarrow> disjoint_nets (ns ! i) (ns ! j)"
      and "i < length ns" "j < length ns" "i \<noteq> j"
    then show "disjoint_nets (ns ! i) (ns ! j)"
      by (cases i j rule: linorder_cases) (simp_all, metis disjoint_nets_sym)
  qed auto
  finally show ?thesis .
qed

lemma check_ips_iff:
  "check_ips f g ips = None \<longleftrightarrow> list_all ip_rule_ok ips \<and> distinct (map ip_Source ips)"
  by (auto simp: check_ips_def unique_loop_ok_iff ip_rule_ok_def list_all_iff)

lemma check_referenced_nets_iff:
  "check_referenced_nets name rs ns = None \<longleftrightarrow>
     sorted_wrt disjoint_nets rs \<and> (\<forall>r \<in> set rs. \<forall>n \<in> set ns. disjoint_nets r n)"
  by (induction rs) (auto simp: first_some_None_iff overlap_iff)

lemma referenced_ips_loop:
  "error_of (fold_err (referenced_ip_step name ips) seen rs) = None \<longleftrightarrow>
     distinct (map ip_Source rs) \<and> ip_Source ` set rs \<inter> set seen = {} \<and>
     ip_Source ` set rs \<inter> ip_Source ` set ips = {}"
proof (induction rs arbitrary: seen)
  case (Cons r rs)
  have "first_some (\<lambda>lIP. if ip_Source r = ip_Source lIP then Some (f lIP) else None) ips = None \<longleftrightarrow>
      ip_Source r \<notin> ip_Source ` set ips" for f :: "ip_config \<Rightarrow> goerror"
    by (auto simp: first_some_None_iff)
  with Cons show ?case
    by (auto simp: referenced_ip_step_def split: option.splits)
qed simp

lemma validateIPReplacementList_iff:
  "validateIPReplacementList lst g name t = None \<longleftrightarrow> rules_ok lst g"
proof -
  have "ValidateIPReplacementList lst g = None \<longleftrightarrow>
      list_all net_rule_ok (irl_Nets lst) \<and> sorted_wrt disjoint_nets (irl_Nets lst) \<and>
      list_all ip_rule_ok (irl_IPs lst) \<and> distinct (map ip_Source (irl_IPs lst)) \<and>
      set (irl_GlobalNets lst) \<subseteq> gnr_Name ` set (grl_Net g) \<and>
      set (irl_GlobalIPs lst) \<subseteq> gir_Name ` set (grl_IP g)"
    by (auto simp: ValidateIPReplacementList_def check_nets_iff check_ips_iff first_some_None_iff)
  then show ?thesis
    by (auto simp: validateIPReplacementList_def check_referenced_nets_iff referenced_ips_loop
        rules_ok_def sorted_wrt_append split: option.split)
qed

lemma GlobalIPReplacementValidator_iff:
  "GlobalIPReplacementValidator cfg = None \<longleftrightarrow> global_rules_ok (cfg_GlobalIPReplacementList cfg)"
  by (auto simp: GlobalIPReplacementValidator_def Let_def unique_loop_then first_some_list_all
      check_nets_iff check_ips_iff global_rules_ok_def list_all_iff)

lemma validateAddresses_iff:
  "validateAddresses addrs name t = None \<longleftrightarrow>
     list_all (\<lambda>a. IsValidIP (addr_IP a) \<and> IsValidPort (addr_Port a)) addrs"
  by (auto simp: validateAddresses_def first_some_list_all list_all_iff)

lemma validate_lb_iff:
  "validate_lb cfg lb = None \<longleftrightarrow>
     (GetHostName lb = '''' \<or> IsValidDomain (GetHostName lb)) \<and>
     list_all (\<lambda>a. IsValidIP (addr_IP a) \<and> IsValidPort (addr_Port a)) (GetAddresses lb) \<and>
     (GetIPReplacement lb \<longrightarrow>
        (irl_Nets (GetIPReplacementList lb) \<noteq> [] \<or> irl_IPs (GetIPReplacementList lb) \<noteq> [] \<or>
         irl_GlobalNets (GetIPReplacementList lb) \<noteq> [] \<or> irl_GlobalIPs (GetIPReplacementList lb) \<noteq> []) \<and>
        rules_ok (GetIPReplacementList lb) (cfg_GlobalIPReplacementList cfg)) \<and>
     backend_ok (GetDefaultBackend lb)"
  by (auto simp: validate_lb_def Let_def validateAddresses_iff validateIPReplacementList_iff
      backend_ok_def split: option.split)

lemma LoadBalancerValidator_iff:
  "LoadBalancerValidator cfg = None \<longleftrightarrow>
     list_all (\<lambda>lb. GetName lb \<noteq> '''' \<and> validate_lb cfg lb = None) (cfg_LoadBalancers cfg) \<and>
     distinct (map GetName (cfg_LoadBalancers cfg))"
proof -
  let ?f = "\<lambda>names lb.
       (let name = GetName lb in
        if name = '''' then Inl (Errorf (''loadbalancers.'' @ GetType lb @ ''.name is required''))
        else if name \<in> set names then
          Inl (Errorf (''loadbalancers.'' @ GetType lb @ ''.name '' @ quoted name @
            '' must be unique across all loadbalancers''))
        else (case validate_lb cfg lb of Some e \<Rightarrow> Inl e | None \<Rightarrow> Inr (name # names)))"
  have "error_of (fold_err ?f names lbs) = None \<longleftrightarrow>
      list_all (\<lambda>lb. GetName lb \<noteq> '''' \<and> validate_lb cfg lb = None) lbs \<and>
      distinct (map GetName lbs) \<and> set (map GetName lbs) \<inter> set names = {}" for names lbs
    by (induction lbs arbitrary: names) (auto simp: Let_def split: option.splits)
  then show ?thesis
    by (simp add: LoadBalancerValidator_def)
qed

lemma GlobalConfigValidator_iff:
  "GlobalConfigValidator cfg = None \<longleftrightarrow>
     1 \<le> cfg_RequestPoolSize cfg \<and> cfg_RequestPoolSize cfg \<le> 100 \<and>
     0 \<le> cfg_GlobalUpstreamSyncPeriod cfg \<and> backend_ok (cfg_DefaultBackend cfg) \<and>
     list_all (\<lambda>lb. 1 \<le> GetRequestPoolSize lb \<and> GetRequestPoolSize lb \<le> 100 \<and> 0 < GetRequestTimeOut lb)
       (cfg_LoadBalancers cfg)"
  by (auto simp: GlobalConfigValidator_def backend_ok_def first_some_list_all list_all_iff not_less not_le
      split: option.split)

lemma LeaderElectionValidator_iff:
  "LeaderElectionValidator cfg = None \<longleftrightarrow> election_ok (cfg_LeaderElection cfg)"
  by (auto simp: LeaderElectionValidator_def Let_def election_ok_def)

lemma isValidRelativeURI_not_empty: "isValidRelativeURI s \<Longrightarrow> s \<noteq> ''''"
  by (auto simp: isValidRelativeURI_def HasPrefix_def)

lemma validateNginxConfig_iff:
  "validateNginxConfig c = None \<longleftrightarrow> nginx_ok c \<and> 0 \<le> ngx_RequestTimeout c"
  using isValidRelativeURI_not_empty
  by (auto simp: validateNginxConfig_def Let_def nginx_ok_def not_less)

lemma validateEnvoyConfig_iff:
  "validateEnvoyConfig c = None \<longleftrightarrow> envoy_ok c \<and> 0 \<le> env_RequestTimeout c"
  by (auto simp: validateEnvoyConfig_def envoy_ok_def)

lemma protocol_validators_iff:
  "NginxValidator cfg = None \<and> EnvoyValidator cfg = None \<longleftrightarrow>
     list_all (\<lambda>lb. protocol_ok lb \<and> 0 \<le> GetRequestTimeOut lb) (cfg_LoadBalancers cfg)"
proof -
  have "NginxValidator cfg = None \<and> EnvoyValidator cfg = None \<longleftrightarrow>
      (\<forall>lb \<in> set (cfg_LoadBalancers cfg).
        (case lb of NginxConfig c \<Rightarrow> validateNginxConfig c | NginxPtr c \<Rightarrow> validateNginxConfig c | _ \<Rightarrow> None) = None \<and>
        (case lb of EnvoyConfig c \<Rightarrow> validateEnvoyConfig c | EnvoyPtr c \<Rightarrow> validateEnvoyConfig c | _ \<Rightarrow> None) = None)"
    unfolding NginxValidator_def EnvoyValidator_def first_some_None_iff Let_def
    by (auto split: lb_config.splits)
  also have "\<dots> \<longleftrightarrow> (\<forall>lb \<in> set (cfg_LoadBalancers cfg). protocol_ok lb \<and> 0 \<le> GetRequestTimeOut lb)"
    by (rule ball_cong [OF refl]) (auto simp: validateNginxConfig_iff validateEnvoyConfig_iff split: lb_config.split)
  finally show ?thesis
    by (simp add: list_all_iff)
qed

lemma Validate_None_iff:
  "Validate cfg = None \<longleftrightarrow> list_all (\<lambda>v. v cfg = None) validators"
  by (simp add: Validate_def first_some_list_all)

lemma Validate_ok_iff: "Validate cfg = None \<longleftrightarrow> config_ok cfg"
proof -
  have "Validate cfg = None \<longleftrightarrow>
      GlobalConfigValidator cfg = None \<and> LeaderElectionValidator cfg = None \<and> LogValidator cfg = None \<and>
      MetricsValidator cfg = None \<and> KubernetesValidator cfg = None \<and>
      GlobalIPReplacementValidator cfg = None \<and> LoadBalancerValidator cfg = None \<and>
      (NginxValidator cfg = None \<and> EnvoyValidator cfg = None)"
    by (simp add: Validate_None_iff validators_def)
  also have "\<dots> \<longleftrightarrow> config_ok cfg"
    unfolding GlobalConfigValidator_iff LeaderElectionValidator_iff GlobalIPReplacementValidator_iff
      LoadBalancerValidator_iff protocol_validators_iff validate_lb_iff config_ok_def
    by (auto simp: LogValidator_def MetricsValidator_def KubernetesValidator_def Let_def lb_ok_def list_all_iff)
  finally show ?thesis .
qed

section \<open>Properties\<close>

text \<open>
  C18: the validators accept exactly the valid configurations: \<open>config_ok\<close> says what a valid one
  is, with networks that are disjoint where two rules could both apply, names and sources that
  are distinct, references that exist, and every number within its range.
\<close>

theorem Validate_iff_config_ok: "Validate cfg = None \<longleftrightarrow> config_ok cfg"
  by (rule Validate_ok_iff)

section \<open>The rules of a valid configuration\<close>

lemma first_some_referenced:
  "first_some f (referenced_ips lst g) =
     first_some (\<lambda>n. first_some (\<lambda>x. if gir_Name x = n then first_some f (gir_IPs x) else None) (grl_IP g))
       (irl_GlobalIPs lst)"
  "first_some h (referenced_nets lst g) =
     first_some (\<lambda>n. first_some (\<lambda>x. if gnr_Name x = n then first_some h (gnr_Nets x) else None) (grl_Net g))
       (irl_GlobalNets lst)"
  by (simp_all add: referenced_ips_def referenced_nets_def first_some_concat first_some_map
      first_some_filter comp_def)

lemma ApplyIPReplacement_alt:
  "ApplyIPReplacement ip lb g =
     (let lst = GetIPReplacementList lb in
      case first_some (try_ip ip) (irl_IPs lst) of Some r \<Rightarrow> r | None \<Rightarrow>
      (case first_some (try_ip ip) (referenced_ips lst g) of Some r \<Rightarrow> r | None \<Rightarrow>
      (case first_some (try_net ip) (irl_Nets lst) of Some r \<Rightarrow> r | None \<Rightarrow>
      (case first_some (try_net ip) (referenced_nets lst g) of Some r \<Rightarrow> r | None \<Rightarrow> ip))))"
  unfolding ApplyIPReplacement_def first_some_referenced by simp

lemma distinct_sources_try_ip:
  assumes "distinct (map ip_Source rs)" and "x \<in> set rs" and "y \<in> set rs"
    and "try_ip ip x \<noteq> None" and "try_ip ip y \<noteq> None"
  shows "try_ip ip x = try_ip ip y"
  using assms by (auto simp: try_ip_def distinct_map inj_on_def split: if_splits)

lemma sorted_disjoint_member:
  assumes "sorted_wrt disjoint_nets ns" and "x \<in> set ns" and "y \<in> set ns"
  shows "x = y \<or> disjoint_nets x y"
  using assms disjoint_nets_sym by (induction ns) auto

lemma isIPInNet_in_net:
  "isIPInNet ip (net_Source n) (net_Mask n) \<Longrightarrow> \<exists>a. ParseIP ip = Some a \<and> length a = 16 \<and> in_net n a"
  using ParseIP_length by (auto simp: isIPInNet_def in_net_def split: option.splits)

lemma disjoint_not_both:
  assumes "disjoint_nets x y"
  shows "\<not> (isIPInNet ip (net_Source x) (net_Mask x) \<and> isIPInNet ip (net_Source y) (net_Mask y))"
  using assms isIPInNet_in_net [of ip x] isIPInNet_in_net [of ip y] by (auto simp: disjoint_nets_def)

lemma disjoint_try_net:
  assumes "sorted_wrt disjoint_nets ns" and "x \<in> set ns" and "y \<in> set ns"
    and "try_net ip x \<noteq> None" and "try_net ip y \<noteq> None"
  shows "try_net ip x = try_net ip y"
  using sorted_disjoint_member [OF assms(1-3)] disjoint_not_both [of x y ip] assms(4,5)
  by (auto simp: try_net_def split: if_splits)

lemma disjoint_one_match:
  assumes "sorted_wrt disjoint_nets ns"
  shows "length (filter (\<lambda>n. isIPInNet ip (net_Source n) (net_Mask n)) ns) \<le> 1"
  using assms
proof (induction ns)
  case (Cons n ns)
  show ?case
  proof (cases "isIPInNet ip (net_Source n) (net_Mask n)")
    case True
    with Cons.prems have "filter (\<lambda>n. isIPInNet ip (net_Source n) (net_Mask n)) ns = []"
      using disjoint_not_both by (fastforce simp: filter_empty_conv)
    with True show ?thesis by simp
  qed (use Cons in simp)
qed simp


text \<open>A valid configuration with one NGINX load balancer and the given network rules.\<close>

definition demo_rules :: "net_config list" where
  "demo_rules =
     [\<lparr>net_Source = ''10.1.0.0'', net_Target = ''192.168.0.0'', net_Mask = 16\<rparr>,
      \<lparr>net_Source = ''10.2.0.0'', net_Target = ''172.16.0.0'', net_Mask = 16\<rparr>]"

definition rules_lb :: "net_config list \<Rightarrow> lb_config" where
  "rules_lb nets = NginxConfig
     \<lparr>ngx_Type = ''nginx'', ngx_Name = ''lb1'', ngx_IPReplacement = True,
      ngx_IPReplacementList = \<lparr>irl_Nets = nets, irl_IPs = [], irl_GlobalNets = [], irl_GlobalIPs = []\<rparr>,
      ngx_Addresses = [\<lparr>addr_IP = ''10.0.0.9'', addr_Port = 80\<rparr>],
      ngx_ListAPI = ''/list'', ngx_AddAPI = ''/api?add='', ngx_RemoveAPI = ''/api?remove='',
      ngx_UpstreamSyncPeriod = 0, ngx_FailTimeout = 0, ngx_RequestTimeout = 30, ngx_Protocol = ''http'',
      ngx_Hostname = '''', ngx_CertPath = '''', ngx_KeyPath = '''', ngx_CAPath = '''', ngx_Cert = '''',
      ngx_Key = '''', ngx_CA = '''', ngx_RequestPoolSize = 5, ngx_PruneOrphans = False,
      ngx_AllowEmptyUpstream = False, ngx_DefaultBackend = None\<rparr>"

definition valid_config :: "lb_config list \<Rightarrow> config" where
  "valid_config lbs =
     \<lparr>cfg_GlobalUpstreamSyncPeriod = 10,
      cfg_LeaderElection = \<lparr>le_Enabled = False, le_LeaseName = '''', le_LeaseNamespace = '''',
        le_LeaseDuration = 15, le_RenewDeadline = 10, le_RetryPeriod = 2\<rparr>,
      cfg_Log = \<lparr>log_Enabled = False, log_Level = ''info'', log_Format = ''json''\<rparr>,
      cfg_Metrics = \<lparr>met_Enabled = False, met_Port = 9090, met_URI = ''/metrics''\<rparr>,
      cfg_Kubernetes = \<lparr>kub_ResyncPeriod = 30, kub_KubernetesConfig = ''''\<rparr>,
      cfg_GlobalIPReplacementList = \<lparr>grl_Net = [], grl_IP = []\<rparr>,
      cfg_LoadBalancers = lbs, cfg_RequestPoolSize = 5, cfg_AllowEmptyUpstream = False,
      cfg_DefaultBackend = None\<rparr>"

lemma demo_uris:
  "isValidRelativeURI ''/list''" "isValidRelativeURI ''/api?add=''" "isValidRelativeURI ''/api?remove=''"
  by (simp_all add: isValidRelativeURI_def url_Parse_def url_parse_def is_ctl_def go_eval)

lemma demo_rules_ok: "list_all net_rule_ok demo_rules" "sorted_wrt disjoint_nets demo_rules"
proof -
  have "\<not> overlap (demo_rules ! 0) (demo_rules ! 1)"
    by (simp add: demo_rules_def overlap_def IsNetworkOverlap_def go_eval)
  then show "sorted_wrt disjoint_nets demo_rules"
    by (simp add: overlap_iff demo_rules_def)
  show "list_all net_rule_ok demo_rules"
    by (simp add: demo_rules_def net_rule_ok_def IsValidIP_def max_mask_def go_eval)
qed

lemma rules_lb_ok:
  assumes "list_all net_rule_ok nets" and "sorted_wrt disjoint_nets nets" and "nets \<noteq> []"
  shows "lb_ok \<lparr>grl_Net = [], grl_IP = []\<rparr> (rules_lb nets)"
proof -
  have "IsValidIP ''10.0.0.9''"
    by (simp add: IsValidIP_def go_eval)
  then show ?thesis
    unfolding lb_ok_def
    by (simp add: rules_lb_def backend_ok_def rules_ok_def nginx_ok_def IsValidPort_def demo_uris assms
        referenced_nets_def referenced_ips_def)
qed

lemma valid_config_ok:
  assumes "list_all (lb_ok \<lparr>grl_Net = [], grl_IP = []\<rparr>) lbs" and "distinct (map GetName lbs)"
  shows "Validate (valid_config lbs) = None"
  unfolding Validate_ok_iff config_ok_def
  using assms by (simp add: valid_config_def backend_ok_def election_ok_def global_rules_ok_def)

lemma valid_config_rules: "Validate (valid_config [rules_lb demo_rules]) = None"
proof (rule valid_config_ok)
  have "demo_rules \<noteq> []" by (simp add: demo_rules_def)
  with rules_lb_ok demo_rules_ok
  show "list_all (lb_ok \<lparr>grl_Net = [], grl_IP = []\<rparr>) [rules_lb demo_rules]" by simp
qed simp


end
