(* ===== verification/Defaults.thy ===== *)
theory Defaults
  imports ValidationProps
begin

text \<open>
  \<open>internal/domain/config/default.go\<close> and the two \<open>SetDefaults\<close> methods: what is not set (zero or
  empty) gets its default, global settings first, then each load balancer from the global ones.
  Durations are in nanoseconds.
\<close>

section \<open>The code\<close>

abbreviation Second :: int where
  "Second \<equiv> 1000000000"

definition GlobalUpstreamSyncPeriod :: int where "GlobalUpstreamSyncPeriod = 10 * Second"
definition LeaderElectionLeaseDuration :: int where "LeaderElectionLeaseDuration = 15 * Second"
definition LeaderElectionRenewDeadline :: int where "LeaderElectionRenewDeadline = 10 * Second"
definition LeaderElectionRetryPeriod :: int where "LeaderElectionRetryPeriod = 2 * Second"
definition LogLevel :: string where "LogLevel = ''info''"
definition LogFormat :: string where "LogFormat = ''json''"
definition LeaderElectionLeaseName :: string where "LeaderElectionLeaseName = ''mlb-controller-lease''"
definition LeaderElectionLeaseNamespace :: string where "LeaderElectionLeaseNamespace = ''default''"
definition MetricsPort :: int where "MetricsPort = 9090"
definition MetricsURI :: string where "MetricsURI = ''/metrics''"
definition KubernetesResyncPeriod :: int where "KubernetesResyncPeriod = 30 * Second"
definition RequestPoolSize :: int where "RequestPoolSize = 10"
definition RequestTimeOut :: int where "RequestTimeOut = 30 * Second"
definition FailTimeout :: int where "FailTimeout = 60 * Second"

lemmas default_constants =
  GlobalUpstreamSyncPeriod_def LeaderElectionLeaseDuration_def LeaderElectionRenewDeadline_def
  LeaderElectionRetryPeriod_def LogLevel_def LogFormat_def LeaderElectionLeaseName_def
  LeaderElectionLeaseNamespace_def MetricsPort_def MetricsURI_def KubernetesResyncPeriod_def
  RequestPoolSize_def RequestTimeOut_def FailTimeout_def

text \<open>A setting that is zero, or an empty text, is replaced.\<close>

definition or_default :: "'a \<Rightarrow> 'a \<Rightarrow> 'a \<Rightarrow> 'a" where
  "or_default unset d x = (if x = unset then d else x)"

definition nginx_SetDefaults :: "int \<Rightarrow> int \<Rightarrow> nginx_config \<Rightarrow> nginx_config" where
  "nginx_SetDefaults globalUpstreamSyncPeriod globalRequestPoolSize c =
     c\<lparr>ngx_UpstreamSyncPeriod := or_default 0 globalUpstreamSyncPeriod (ngx_UpstreamSyncPeriod c),
       ngx_FailTimeout := or_default 0 FailTimeout (ngx_FailTimeout c),
       ngx_RequestTimeout := or_default 0 RequestTimeOut (ngx_RequestTimeout c),
       ngx_RequestPoolSize := or_default 0 globalRequestPoolSize (ngx_RequestPoolSize c)\<rparr>"

definition envoy_SetDefaults :: "int \<Rightarrow> int \<Rightarrow> envoy_config \<Rightarrow> envoy_config" where
  "envoy_SetDefaults globalUpstreamSyncPeriod globalRequestPoolSize c =
     c\<lparr>env_UpstreamSyncPeriod := or_default 0 globalUpstreamSyncPeriod (env_UpstreamSyncPeriod c),
       env_RequestTimeout := or_default 0 RequestTimeOut (env_RequestTimeout c),
       env_RequestPoolSize := or_default 0 globalRequestPoolSize (env_RequestPoolSize c)\<rparr>"

text \<open>The methods have value receivers: what comes back is a value, also for a pointer.\<close>

fun SetDefaults :: "int \<Rightarrow> int \<Rightarrow> lb_config \<Rightarrow> lb_config" where
  "SetDefaults p n (NginxConfig c) = NginxConfig (nginx_SetDefaults p n c)"
| "SetDefaults p n (NginxPtr c) = NginxConfig (nginx_SetDefaults p n c)"
| "SetDefaults p n (EnvoyConfig c) = EnvoyConfig (envoy_SetDefaults p n c)"
| "SetDefaults p n (EnvoyPtr c) = EnvoyConfig (envoy_SetDefaults p n c)"

text \<open>What a load balancer inherits from the global settings.\<close>

definition nginx_inherit :: "config \<Rightarrow> nginx_config \<Rightarrow> nginx_config" where
  "nginx_inherit cfg c =
     (let c = (if \<not> ngx_AllowEmptyUpstream c \<and> cfg_AllowEmptyUpstream cfg
               then c\<lparr>ngx_AllowEmptyUpstream := True\<rparr> else c)
      in if ngx_DefaultBackend c = None \<and> cfg_DefaultBackend cfg \<noteq> None
         then c\<lparr>ngx_DefaultBackend := cfg_DefaultBackend cfg\<rparr> else c)"

definition envoy_inherit :: "config \<Rightarrow> envoy_config \<Rightarrow> envoy_config" where
  "envoy_inherit cfg c =
     (let c = (if \<not> env_AllowEmptyUpstream c \<and> cfg_AllowEmptyUpstream cfg
               then c\<lparr>env_AllowEmptyUpstream := True\<rparr> else c)
      in if env_DefaultBackend c = None \<and> cfg_DefaultBackend cfg \<noteq> None
         then c\<lparr>env_DefaultBackend := cfg_DefaultBackend cfg\<rparr> else c)"

definition default_lb :: "config \<Rightarrow> lb_config \<Rightarrow> lb_config" where
  "default_lb cfg lb =
     (case SetDefaults (cfg_GlobalUpstreamSyncPeriod cfg) (cfg_RequestPoolSize cfg) lb of
        NginxConfig concrete \<Rightarrow> NginxConfig (nginx_inherit cfg concrete)
      | NginxPtr concrete \<Rightarrow> NginxPtr (nginx_inherit cfg concrete)
      | EnvoyConfig concrete \<Rightarrow> EnvoyConfig (envoy_inherit cfg concrete)
      | EnvoyPtr concrete \<Rightarrow> EnvoyPtr (envoy_inherit cfg concrete))"

definition global_defaults :: "config \<Rightarrow> config" where
  "global_defaults cfg =
     (let le = cfg_LeaderElection cfg; log = cfg_Log cfg; met = cfg_Metrics cfg; kub = cfg_Kubernetes cfg in
      cfg\<lparr>cfg_GlobalUpstreamSyncPeriod := or_default 0 GlobalUpstreamSyncPeriod (cfg_GlobalUpstreamSyncPeriod cfg),
          cfg_LeaderElection := le
            \<lparr>le_LeaseName := or_default '''' LeaderElectionLeaseName (le_LeaseName le),
             le_LeaseNamespace := or_default '''' LeaderElectionLeaseNamespace (le_LeaseNamespace le),
             le_LeaseDuration := or_default 0 LeaderElectionLeaseDuration (le_LeaseDuration le),
             le_RenewDeadline := or_default 0 LeaderElectionRenewDeadline (le_RenewDeadline le),
             le_RetryPeriod := or_default 0 LeaderElectionRetryPeriod (le_RetryPeriod le)\<rparr>,
          cfg_Log := log
            \<lparr>log_Level := or_default '''' LogLevel (log_Level log),
             log_Format := or_default '''' LogFormat (log_Format log)\<rparr>,
          cfg_Metrics := met
            \<lparr>met_Port := or_default 0 MetricsPort (met_Port met),
             met_URI := or_default '''' MetricsURI (met_URI met)\<rparr>,
          cfg_Kubernetes := kub
            \<lparr>kub_ResyncPeriod := or_default 0 KubernetesResyncPeriod (kub_ResyncPeriod kub)\<rparr>,
          cfg_RequestPoolSize := or_default 0 RequestPoolSize (cfg_RequestPoolSize cfg)\<rparr>)"

definition ApplyDefaultValues :: "config \<Rightarrow> config" where
  "ApplyDefaultValues cfg =
     (let cfg = global_defaults cfg
      in cfg\<lparr>cfg_LoadBalancers := map (default_lb cfg) (cfg_LoadBalancers cfg)\<rparr>)"

section \<open>Facts\<close>

lemma or_default_idem: "or_default u d (or_default u d x) = or_default u d x"
  by (simp add: or_default_def)

lemma or_default_set: "d \<noteq> u \<Longrightarrow> or_default u d x \<noteq> u"
  by (simp add: or_default_def)

lemma or_default_kept: "x \<noteq> u \<Longrightarrow> or_default u d x = x"
  by (simp add: or_default_def)

lemma global_defaults_idem: "global_defaults (global_defaults cfg) = global_defaults cfg"
  by (simp add: global_defaults_def Let_def or_default_idem)

lemma global_defaults_LoadBalancers [simp]:
  "global_defaults (cfg\<lparr>cfg_LoadBalancers := lbs\<rparr>) = (global_defaults cfg)\<lparr>cfg_LoadBalancers := lbs\<rparr>"
  "cfg_LoadBalancers (global_defaults cfg) = cfg_LoadBalancers cfg"
  by (simp_all add: global_defaults_def Let_def)

lemma default_lb_LoadBalancers [simp]:
  "default_lb (cfg\<lparr>cfg_LoadBalancers := lbs\<rparr>) lb = default_lb cfg lb"
  by (cases lb) (simp_all add: default_lb_def nginx_inherit_def envoy_inherit_def Let_def)

lemma inherit_alt:
  "nginx_inherit cfg n = n\<lparr>ngx_AllowEmptyUpstream := ngx_AllowEmptyUpstream n \<or> cfg_AllowEmptyUpstream cfg,
     ngx_DefaultBackend := or_default None (cfg_DefaultBackend cfg) (ngx_DefaultBackend n)\<rparr>"
  "envoy_inherit cfg e = e\<lparr>env_AllowEmptyUpstream := env_AllowEmptyUpstream e \<or> cfg_AllowEmptyUpstream cfg,
     env_DefaultBackend := or_default None (cfg_DefaultBackend cfg) (env_DefaultBackend e)\<rparr>"
  by (simp_all add: nginx_inherit_def envoy_inherit_def Let_def or_default_def)

lemma default_lb_idem: "default_lb cfg (default_lb cfg lb) = default_lb cfg lb"
  by (cases lb) (simp_all add: default_lb_def inherit_alt nginx_SetDefaults_def envoy_SetDefaults_def or_default_idem)

lemma default_lb_getters [simp]:
  "GetName (default_lb cfg lb) = GetName lb" "GetType (default_lb cfg lb) = GetType lb"
  "GetAddresses (default_lb cfg lb) = GetAddresses lb" "GetHostName (default_lb cfg lb) = GetHostName lb"
  "GetIPReplacement (default_lb cfg lb) = GetIPReplacement lb"
  "GetIPReplacementList (default_lb cfg lb) = GetIPReplacementList lb"
  by (cases lb; simp add: default_lb_def inherit_alt nginx_SetDefaults_def envoy_SetDefaults_def)+

lemma default_lb_filled:
  "GetUpstreamSyncPeriod (default_lb cfg lb) =
     or_default 0 (cfg_GlobalUpstreamSyncPeriod cfg) (GetUpstreamSyncPeriod lb)"
  "GetRequestTimeOut (default_lb cfg lb) = or_default 0 RequestTimeOut (GetRequestTimeOut lb)"
  "GetRequestPoolSize (default_lb cfg lb) = or_default 0 (cfg_RequestPoolSize cfg) (GetRequestPoolSize lb)"
  "GetAllowEmptyUpstream (default_lb cfg lb) \<longleftrightarrow> GetAllowEmptyUpstream lb \<or> cfg_AllowEmptyUpstream cfg"
  "GetDefaultBackend (default_lb cfg lb) =
     or_default None (cfg_DefaultBackend cfg) (GetDefaultBackend lb)"
  by (cases lb; simp add: default_lb_def inherit_alt nginx_SetDefaults_def envoy_SetDefaults_def)+

lemma global_defaults_sel:
  "cfg_GlobalUpstreamSyncPeriod (global_defaults cfg) =
     or_default 0 GlobalUpstreamSyncPeriod (cfg_GlobalUpstreamSyncPeriod cfg)"
  "cfg_RequestPoolSize (global_defaults cfg) = or_default 0 RequestPoolSize (cfg_RequestPoolSize cfg)"
  "kub_ResyncPeriod (cfg_Kubernetes (global_defaults cfg)) =
     or_default 0 KubernetesResyncPeriod (kub_ResyncPeriod (cfg_Kubernetes cfg))"
  "met_Port (cfg_Metrics (global_defaults cfg)) = or_default 0 MetricsPort (met_Port (cfg_Metrics cfg))"
  "le_LeaseName (cfg_LeaderElection (global_defaults cfg)) =
     or_default '''' LeaderElectionLeaseName (le_LeaseName (cfg_LeaderElection cfg))"
  "le_LeaseDuration (cfg_LeaderElection (global_defaults cfg)) =
     or_default 0 LeaderElectionLeaseDuration (le_LeaseDuration (cfg_LeaderElection cfg))"
  "log_Level (cfg_Log (global_defaults cfg)) = or_default '''' LogLevel (log_Level (cfg_Log cfg))"
  "log_Format (cfg_Log (global_defaults cfg)) = or_default '''' LogFormat (log_Format (cfg_Log cfg))"
  "cfg_DefaultBackend (global_defaults cfg) = cfg_DefaultBackend cfg"
  by (simp_all add: global_defaults_def Let_def)

lemma default_not_unset:
  "GlobalUpstreamSyncPeriod \<noteq> 0" "RequestPoolSize \<noteq> 0" "KubernetesResyncPeriod \<noteq> 0" "MetricsPort \<noteq> 0"
  "LeaderElectionLeaseName \<noteq> ''''" "LeaderElectionLeaseDuration \<noteq> 0" "LogLevel \<noteq> ''''" "LogFormat \<noteq> ''''"
  by (simp_all add: default_constants)

lemma ApplyDefaultValues_sel:
  "cfg_GlobalUpstreamSyncPeriod (ApplyDefaultValues cfg) = cfg_GlobalUpstreamSyncPeriod (global_defaults cfg)"
  "cfg_RequestPoolSize (ApplyDefaultValues cfg) = cfg_RequestPoolSize (global_defaults cfg)"
  "cfg_Kubernetes (ApplyDefaultValues cfg) = cfg_Kubernetes (global_defaults cfg)"
  "cfg_Metrics (ApplyDefaultValues cfg) = cfg_Metrics (global_defaults cfg)"
  "cfg_LeaderElection (ApplyDefaultValues cfg) = cfg_LeaderElection (global_defaults cfg)"
  "cfg_Log (ApplyDefaultValues cfg) = cfg_Log (global_defaults cfg)"
  "cfg_LoadBalancers (ApplyDefaultValues cfg) = map (default_lb (global_defaults cfg)) (cfg_LoadBalancers cfg)"
  "cfg_GlobalIPReplacementList (ApplyDefaultValues cfg) = cfg_GlobalIPReplacementList cfg"
  "cfg_DefaultBackend (ApplyDefaultValues cfg) = cfg_DefaultBackend cfg"
  by (simp_all add: ApplyDefaultValues_def global_defaults_def Let_def)

section \<open>Properties\<close>



end
