(* ===== verification/GoDuration.thy ===== *)
theory GoDuration
  imports GoStrings
begin

text \<open>
  \<open>time.ParseDuration\<close> of the standard library (Go 1.24), with the bounds of its unsigned 64-bit
  arithmetic. The one step in floating point, the nanoseconds of a fraction, is the parameter
  \<open>flo\<close>: for digits \<open>f\<close> after the point, a unit and the number \<open>k\<close> of these digits it gives
  \<open>uint64(float64(f) * (float64(unit) / scale))\<close>.
\<close>

section \<open>The code\<close>

definition lowerhex :: "nat \<Rightarrow> char" where
  "lowerhex n = ''0123456789abcdef'' ! n"

text \<open>\<open>quote\<close> of the package \<open>time\<close>.\<close>

definition time_quote :: "string \<Rightarrow> string" where
  "time_quote s =
     CHR 0x22 # concat (map (\<lambda>c.
       let b = (of_char c :: nat) in
       if b \<ge> 0x80 \<or> b < 0x20 then [CHR 0x5C, CHR ''x'', lowerhex (b div 16), lowerhex (b mod 16)]
       else if c = CHR 0x22 \<or> c = CHR 0x5C then [CHR 0x5C, c] else [c]) s) @ [CHR 0x22]"

definition invalid_duration :: "string \<Rightarrow> goerror" where
  "invalid_duration orig = Errorf (''time: invalid duration '' @ time_quote orig)"

definition unitMap :: "(string \<times> nat) list" where
  "unitMap =
     [(''ns'', 1), (''us'', 1000), ([CHR 0xC2, CHR 0xB5, CHR ''s''], 1000),
      ([CHR 0xCE, CHR 0xBC, CHR ''s''], 1000), (''ms'', 1000000), (''s'', 1000000000),
      (''m'', 60000000000), (''h'', 3600000000000)]"

text \<open>\<open>leadingInt\<close>: \<open>None\<close> where the number is too large.\<close>

fun leadingInt :: "nat \<Rightarrow> string \<Rightarrow> (nat \<times> string) option" where
  "leadingInt x [] = Some (x, [])"
| "leadingInt x (c # s) =
     (if \<not> is_digit c then Some (x, c # s)
      else if x > 2 ^ 63 div 10 then None
      else if x * 10 + digit_value c > 2 ^ 63 then None
      else leadingInt (x * 10 + digit_value c) s)"

text \<open>\<open>leadingFraction\<close>: the digits as a number, how many of them count, and the rest.\<close>

fun leadingFraction :: "bool \<Rightarrow> nat \<Rightarrow> nat \<Rightarrow> string \<Rightarrow> nat \<times> nat \<times> string" where
  "leadingFraction overflow x k [] = (x, k, [])"
| "leadingFraction overflow x k (c # s) =
     (if \<not> is_digit c then (x, k, c # s)
      else if overflow then leadingFraction True x k s
      else if x > (2 ^ 63 - 1) div 10 then leadingFraction True x k s
      else if x * 10 + digit_value c > 2 ^ 63 then leadingFraction True x k s
      else leadingFraction False (x * 10 + digit_value c) (Suc k) s)"

definition unit_char :: "char \<Rightarrow> bool" where
  "unit_char c \<longleftrightarrow> c \<noteq> CHR ''.'' \<and> \<not> is_digit c"

text \<open>The digits of one round: before the point, after the point, whether there were any, the rest.\<close>

definition parse_digits :: "string \<Rightarrow> (nat \<times> nat \<times> nat \<times> bool \<times> string) option" where
  "parse_digits s =
     (case leadingInt 0 s of
        None \<Rightarrow> None
      | Some (v, s1) \<Rightarrow>
          (let pre = (length s1 \<noteq> length s) in
           if s1 \<noteq> [] \<and> hd s1 = CHR ''.'' then
             (let (f, k, s2) = leadingFraction False 0 0 (tl s1)
              in Some (v, f, k, pre \<or> length s2 \<noteq> length (tl s1), s2))
           else Some (v, 0, 0, pre, s1)))"

text \<open>One round of the loop: the nanoseconds and the rest.\<close>

definition parse_round :: "(nat \<Rightarrow> nat \<Rightarrow> nat \<Rightarrow> nat) \<Rightarrow> string \<Rightarrow> string \<Rightarrow> goerror + nat \<times> string" where
  "parse_round flo orig s =
     (if \<not> (hd s = CHR ''.'' \<or> is_digit (hd s)) then Inl (invalid_duration orig)
      else
     (case parse_digits s of
        None \<Rightarrow> Inl (invalid_duration orig)
      | Some (v, f, k, some, s) \<Rightarrow>
          (if \<not> some then Inl (invalid_duration orig)
           else if takeWhile unit_char s = [] then
             Inl (Errorf (''time: missing unit in duration '' @ time_quote orig))
           else
          (case map_of unitMap (takeWhile unit_char s) of
             None \<Rightarrow> Inl (Errorf (''time: unknown unit '' @ time_quote (takeWhile unit_char s) @
               '' in duration '' @ time_quote orig))
           | Some unit \<Rightarrow>
               (if v > 2 ^ 63 div unit then Inl (invalid_duration orig)
                else (let v = v * unit; v = (if f > 0 then (v + flo f unit k) mod 2 ^ 64 else v) in
                  if f > 0 \<and> v > 2 ^ 63 then Inl (invalid_duration orig)
                  else Inr (v, dropWhile unit_char s)))))))"

text \<open>The loop; its sum is an unsigned 64-bit integer.\<close>

lemma leadingInt_length: "leadingInt x s = Some (y, r) \<Longrightarrow> length r \<le> length s"
  by (induction x s arbitrary: y r rule: leadingInt.induct) (force split: if_splits)+

lemma leadingFraction_length: "leadingFraction ov x k s = (y, j, r) \<Longrightarrow> length r \<le> length s"
  by (induction ov x k s arbitrary: y j r rule: leadingFraction.induct) (force split: if_splits)+

lemma dropWhile_shorter: "takeWhile p s \<noteq> [] \<Longrightarrow> length (dropWhile p s) < length s"
  by (cases s) (auto intro: le_imp_less_Suc length_dropWhile_le split: if_splits)

lemma parse_digits_length: "parse_digits s = Some (v, f, k, some, r) \<Longrightarrow> length r \<le> length s"
  by (auto simp: parse_digits_def Let_def dest!: leadingInt_length leadingFraction_length
      split: option.splits if_splits prod.splits)

lemma parse_round_length:
  assumes "parse_round flo orig s = Inr (v, r)"
  shows "length r < length s"
proof -
  from assms obtain v' f k some s2 where s2: "parse_digits s = Some (v', f, k, some, s2)"
      "takeWhile unit_char s2 \<noteq> []" "r = dropWhile unit_char s2"
    by (auto simp: parse_round_def Let_def split: option.splits if_splits)
  with parse_digits_length [OF s2(1)] dropWhile_shorter [OF s2(2)] show ?thesis by simp
qed

function parse_rounds :: "(nat \<Rightarrow> nat \<Rightarrow> nat \<Rightarrow> nat) \<Rightarrow> string \<Rightarrow> nat \<Rightarrow> string \<Rightarrow> goerror + nat" where
  "parse_rounds flo orig d s =
     (if s = [] then Inr d
      else (case parse_round flo orig s of
              Inl e \<Rightarrow> Inl e
            | Inr (v, s') \<Rightarrow>
                (if (d + v) mod 2 ^ 64 > 2 ^ 63 then Inl (invalid_duration orig)
                 else parse_rounds flo orig ((d + v) mod 2 ^ 64) s')))"
  by pat_completeness auto
termination
  by (relation "measure (\<lambda>(flo, orig, d, s). length s)") (auto dest: parse_round_length)

declare parse_rounds.simps [simp del]

definition ParseDuration :: "(nat \<Rightarrow> nat \<Rightarrow> nat \<Rightarrow> nat) \<Rightarrow> string \<Rightarrow> goerror + int" where
  "ParseDuration flo orig =
     (let signed = (orig \<noteq> [] \<and> (hd orig = CHR ''-'' \<or> hd orig = CHR ''+''));
          neg = (orig \<noteq> [] \<and> hd orig = CHR ''-'');
          s = (if signed then tl orig else orig)
      in if s = ''0'' then Inr 0
         else if s = [] then Inl (invalid_duration orig)
         else (case parse_rounds flo orig 0 s of
                 Inl e \<Rightarrow> Inl e
               | Inr d \<Rightarrow>
                   (if neg then Inr (- int d)
                    else if d > 2 ^ 63 - 1 then Inl (invalid_duration orig)
                    else Inr (int d))))"

section \<open>Reading whole numbers of units\<close>

abbreviation "digits_onto x ds \<equiv> foldl (\<lambda>a c. 10 * a + digit_value c) x ds"

lemma digits_onto_ge: "x \<le> digits_onto x ds"
  by (induction ds arbitrary: x) (simp, fastforce intro: order.trans [rotated])

lemma leadingInt_digits:
  assumes "list_all is_digit ds" and "r = [] \<or> \<not> is_digit (hd r)" and "digits_onto x ds \<le> 2 ^ 63"
  shows "leadingInt x (ds @ r) = Some (digits_onto x ds, r)"
  using assms
proof (induction ds arbitrary: x)
  case Nil
  then show ?case by (cases r) simp_all
next
  case (Cons c ds)
  have "10 * x + digit_value c \<le> 2 ^ 63"
    using digits_onto_ge [of "10 * x + digit_value c" ds] Cons.prems(3) by simp
  with Cons show ?case by (simp add: mult.commute)
qed

lemma units_shape:
  assumes "map_of unitMap u = Some unit"
  shows "u \<noteq> []" and "list_all unit_char u" and "0 < unit"
  using assms by (auto simp: unitMap_def unit_char_def is_digit_def split: if_splits)

lemma takeWhile_split:
  assumes "list_all p u" and "r = [] \<or> \<not> p (hd r)"
  shows "takeWhile p (u @ r) = u" and "dropWhile p (u @ r) = r"
  using assms by (induction u) (cases r; simp)+

text \<open>A round reads a number with a unit.\<close>

lemma parse_round_unit:
  assumes unit: "map_of unitMap u = Some unit" and "n * unit \<le> 2 ^ 63" and r: "r = [] \<or> is_digit (hd r)"
  shows "parse_round flo orig (nat_dec n @ u @ r) = Inr (n * unit, r)"
proof -
  note u = units_shape [OF unit]
  have "hd u \<noteq> CHR ''.''" "\<not> is_digit (hd u)"
    using u(1,2) by (cases u; simp add: unit_char_def)+
  have "n \<le> n * unit" using u(3) by simp
  then have "n \<le> 2 ^ 63" using assms(2) by (rule order.trans)
  then have "leadingInt 0 (nat_dec n @ u @ r) = Some (n, u @ r)"
    using leadingInt_digits [of "nat_dec n" "u @ r" 0] nat_dec_digits u(1) \<open>\<not> is_digit (hd u)\<close>
      dec_value_nat_dec [of n] by (simp add: dec_value_def)
  then have digits: "parse_digits (nat_dec n @ u @ r) = Some (n, 0, 0, True, u @ r)"
    using u(1) \<open>hd u \<noteq> CHR ''.''\<close> by (simp add: parse_digits_def)
  have "r = [] \<or> \<not> unit_char (hd r)"
    using r by (auto simp: unit_char_def)
  then have split: "takeWhile unit_char (u @ r) = u" "dropWhile unit_char (u @ r) = r"
    using takeWhile_split u(2) by blast+
  have "n \<le> 2 ^ 63 div unit"
    using assms(2) u(3) by (simp add: less_eq_div_iff_mult_less_eq)
  moreover have "is_digit (hd (nat_dec n @ u @ r))"
    using nat_dec_hd_digit by simp
  ultimately show ?thesis
    using u(1) unit by (simp add: parse_round_def digits split)
qed

text \<open>Durations written as in \<open>1h30m\<close>: numbers with units, and what they add up to.\<close>

definition render_duration :: "(nat \<times> string) list \<Rightarrow> string" where
  "render_duration items = concat (map (\<lambda>(n, u). nat_dec n @ u) items)"

definition nanoseconds :: "(nat \<times> string) list \<Rightarrow> nat" where
  "nanoseconds items = sum_list (map (\<lambda>(n, u). n * the (map_of unitMap u)) items)"

lemma parse_rounds_render:
  assumes "list_all (\<lambda>(n, u). map_of unitMap u \<noteq> None) items" and "d + nanoseconds items \<le> 2 ^ 63"
  shows "parse_rounds flo orig d (render_duration items) = Inr (d + nanoseconds items)"
  using assms
proof (induction items arbitrary: d)
  case Nil
  then show ?case by (simp add: parse_rounds.simps render_duration_def nanoseconds_def)
next
  case (Cons item items)
  obtain n u unit where item: "item = (n, u)" and unit: "map_of unitMap u = Some unit"
    using Cons.prems(1) by (cases item) auto
  let ?r = "render_duration items"
  have r: "?r = [] \<or> is_digit (hd ?r)"
    using nat_dec_hd_digit by (cases items) (auto simp: render_duration_def)
  have total: "d + n * unit + nanoseconds items \<le> 2 ^ 63"
    using Cons.prems(2) by (simp add: item unit nanoseconds_def)
  then have "n * unit \<le> 2 ^ 63" by simp
  from parse_round_unit [OF unit this r]
  have round: "parse_round flo orig (render_duration (item # items)) = Inr (n * unit, ?r)"
    by (simp add: render_duration_def item)
  have "render_duration (item # items) \<noteq> []"
    by (simp add: render_duration_def item)
  moreover have "(d + n * unit) mod 2 ^ 64 = d + n * unit" "d + n * unit \<le> 2 ^ 63"
    using total by simp_all
  ultimately have "parse_rounds flo orig d (render_duration (item # items)) =
      parse_rounds flo orig (d + n * unit) ?r"
    by (subst parse_rounds.simps) (simp add: round)
  also have "\<dots> = Inr (d + n * unit + nanoseconds items)"
    using Cons.prems(1) total by (intro Cons.IH) simp_all
  finally show ?case
    by (simp add: nanoseconds_def item unit)
qed

lemma ParseDuration_render:
  assumes "items \<noteq> []" and "list_all (\<lambda>(n, u). map_of unitMap u \<noteq> None) items"
    and "nanoseconds items < 2 ^ 63"
  shows "ParseDuration flo (render_duration items) = Inr (int (nanoseconds items))"
    and "ParseDuration flo (CHR ''-'' # render_duration items) = Inr (- int (nanoseconds items))"
proof -
  let ?s = "render_duration items"
  obtain n u items' where items: "items = (n, u) # items'" using assms(1) by (cases items) auto
  then have u: "u \<noteq> []" using assms(2) units_shape(1) by auto
  have "2 \<le> length ?s"
    using u by (cases "nat_dec n"; cases u) (auto simp: items render_duration_def)
  then have zero: "?s \<noteq> ''0''" "?s \<noteq> []" by auto
  have "hd ?s = hd (nat_dec n)" by (simp add: items render_duration_def)
  then have sign: "hd ?s \<noteq> CHR ''-''" "hd ?s \<noteq> CHR ''+''" by (simp_all add: nat_dec_no_sign)
  have rounds: "parse_rounds flo orig 0 ?s = Inr (nanoseconds items)" for orig
    using parse_rounds_render [OF assms(2), of 0] assms(3) by simp
  show "ParseDuration flo ?s = Inr (int (nanoseconds items))"
    using assms(3) by (simp add: ParseDuration_def zero sign rounds)
  show "ParseDuration flo (CHR ''-'' # ?s) = Inr (- int (nanoseconds items))"
    by (simp add: ParseDuration_def zero rounds)
qed

text \<open>A number without a unit is not a duration, save for zero.\<close>

lemma ParseDuration_unitless:
  assumes "0 < n" and "n \<le> 2 ^ 63"
  shows "\<exists>e. ParseDuration flo (nat_dec n) = Inl e"
proof -
  have "leadingInt 0 (nat_dec n) = Some (n, [])"
    using leadingInt_digits [of "nat_dec n" "[]" 0] nat_dec_digits dec_value_nat_dec [of n] assms(2)
    by (simp add: dec_value_def)
  then have "parse_round flo orig (nat_dec n) =
      Inl (Errorf (''time: missing unit in duration '' @ time_quote orig))" for orig
    using nat_dec_hd_digit [of n] by (simp add: parse_round_def parse_digits_def)
  then have "\<exists>e. parse_rounds flo orig 0 (nat_dec n) = Inl e" for orig
    by (subst parse_rounds.simps) simp
  then obtain e where "parse_rounds flo (nat_dec n) 0 (nat_dec n) = Inl e" by blast
  moreover have "nat_dec 0 = ''0''"
    by (subst nat_dec.simps) (simp add: digit_char_def go_eval)
  then have "nat_dec n \<noteq> ''0''" using assms(1) nat_dec_inject [of n 0] by simp
  ultimately show ?thesis
    using nat_dec_no_sign [of n] by (simp add: ParseDuration_def)
qed

end
