(* ===== verification/ConfigLoader.thy ===== *)
theory ConfigLoader
  imports Defaults Certificates GoDuration
begin

text \<open>
  \<open>internal/adapters/config/viper.go\<close>: from the file to the configuration. Viper, which merges the
  file, the environment and the defaults it is given, and mapstructure, which decodes maps into
  structs and passes every value through the hook it is given, are third-party code: they are the
  functions of \<open>loader_env\<close>, with load balancers that are still raw as values of type \<open>'r\<close>. The
  certificate loader is the port \<open>CertificateLoader\<close>, for which \<open>FileLoader_Load\<close> is put in.
\<close>

section \<open>What the third-party code is given\<close>

text \<open>Values by their dynamic type, and hooks: whether the target is a duration, and the value.\<close>

datatype 'r data =
  StrData string | DurData int | IntData int | BoolData bool | OtherData 'r

type_synonym 'r hook = "bool \<Rightarrow> 'r data \<Rightarrow> goerror + 'r data"

definition StringToDurationHookFunc :: "(nat \<Rightarrow> nat \<Rightarrow> nat \<Rightarrow> nat) \<Rightarrow> 'r hook" where
  "StringToDurationHookFunc flo toDuration data =
     (case data of
        StrData s \<Rightarrow>
          if toDuration
          then (case ParseDuration flo s of Inl e \<Rightarrow> Inl e | Inr d \<Rightarrow> Inr (DurData d))
          else Inr data
      | _ \<Rightarrow> Inr data)"

definition envKeyReplacer :: "string \<Rightarrow> string" where
  "envKeyReplacer key = map (\<lambda>c. if c = CHR ''.'' \<or> c = CHR ''-'' then CHR ''_'' else c) key"

definition viper_defaults :: "(string \<times> 'r data) list" where
  "viper_defaults =
     [(''global_upstream_sync_period'', DurData GlobalUpstreamSyncPeriod),
      (''request_pool_size'', IntData RequestPoolSize),
      (''allow_empty_upstream'', BoolData False),
      (''leader_election.enabled'', BoolData False),
      (''leader_election.lease_duration'', DurData LeaderElectionLeaseDuration),
      (''leader_election.renew_deadline'', DurData LeaderElectionRenewDeadline),
      (''leader_election.retry_period'', DurData LeaderElectionRetryPeriod),
      (''leader_election.lease_name'', StrData LeaderElectionLeaseName),
      (''leader_election.lease_namespace'', StrData LeaderElectionLeaseNamespace),
      (''log.level'', StrData LogLevel),
      (''log.format'', StrData LogFormat),
      (''log.enabled'', BoolData True),
      (''metrics.port'', IntData MetricsPort),
      (''metrics.uri'', StrData MetricsURI),
      (''metrics.enabled'', BoolData True),
      (''kubernetes.resync_period'', DurData KubernetesResyncPeriod)]"

section \<open>The code\<close>

type_synonym certificate_loader = "string \<Rightarrow> string \<Rightarrow> string \<Rightarrow> string \<Rightarrow> goerror + certificate_content"

record 'r raw_config =
  raw_GlobalUpstreamSyncPeriod :: int
  raw_LeaderElection :: leader_election_config
  raw_Log :: log_config
  raw_Metrics :: metrics_config
  raw_Kubernetes :: kubernetes_config
  raw_GlobalIPReplacementList :: global_ip_replacement_list
  raw_LoadBalancers :: "'r list"
  raw_RequestPoolSize :: int
  raw_AllowEmptyUpstream :: bool
  raw_DefaultBackend :: "default_backend option"

text \<open>
  \<open>le_flo\<close> is the floating-point step of \<open>ParseDuration\<close>. \<open>le_AllSettings\<close> are the settings of the
  file and the environment with the given names of variables, and of the given defaults; the three
  decoders take a hook. \<open>le_type\<close> is the entry \<open>type\<close> of a raw load balancer, if there is one and
  it is a string.
\<close>

record 'r loader_env =
  le_ctxErr :: "goerror option"
  le_flo :: "nat \<Rightarrow> nat \<Rightarrow> nat \<Rightarrow> nat"
  le_ReadInConfig :: "goerror option"
  le_AllSettings :: "(string \<Rightarrow> string) \<Rightarrow> (string \<times> 'r data) list \<Rightarrow> (string \<times> 'r data) list"
  le_NewDecoder :: "goerror option"
  le_Decode :: "'r hook \<Rightarrow> (string \<times> 'r data) list \<Rightarrow> goerror + 'r raw_config"
  le_type :: "'r \<Rightarrow> string option"
  le_decodeNginx :: "'r hook \<Rightarrow> 'r \<Rightarrow> goerror + nginx_config"
  le_decodeEnvoy :: "'r hook \<Rightarrow> 'r \<Rightarrow> goerror + envoy_config"

text \<open>The settings, decoded.\<close>

definition decodeSettings :: "'r loader_env \<Rightarrow> goerror + 'r raw_config" where
  "decodeSettings env =
     le_Decode env (StringToDurationHookFunc (le_flo env)) (le_AllSettings env envKeyReplacer viper_defaults)"

definition mapstructureDecode ::
  "'r loader_env \<Rightarrow> ('r hook \<Rightarrow> 'r \<Rightarrow> goerror + 'c) \<Rightarrow> 'r \<Rightarrow> goerror + 'c" where
  "mapstructureDecode env decode input =
     (case le_NewDecoder env of
        Some e \<Rightarrow> Inl e
      | None \<Rightarrow> decode (StringToDurationHookFunc (le_flo env)) input)"

definition loadCertificatesForLoadBalancer ::
  "certificate_loader \<Rightarrow> string \<Rightarrow> string \<Rightarrow> string \<Rightarrow> string \<Rightarrow> string \<Rightarrow> goerror + certificate_content" where
  "loadCertificatesForLoadBalancer certLoader configName certPath keyPath caPath hostname =
     (if certPath = '''' \<and> keyPath = '''' \<and> caPath = '''' then Inr no_certificates
      else (case certLoader certPath keyPath caPath hostname of
              Inl e \<Rightarrow> Inl (Wrapf (''failed to load certificates for '' @ ToLower configName @ '' '' @
                quoted configName) e)
            | Inr certContent \<Rightarrow> Inr certContent))"

text \<open>The body of the loop over the raw load balancers.\<close>

definition load_lb :: "certificate_loader \<Rightarrow> 'r loader_env \<Rightarrow> lb_config list \<Rightarrow> 'r \<Rightarrow> goerror + lb_config list" where
  "load_lb certLoader env lbs lbRaw =
     (case le_type env lbRaw of
        None \<Rightarrow> Inl (Errorf ''loadbalancer type is missing or invalid'')
      | Some typeRaw \<Rightarrow>
          (let typeStr = ToLower typeRaw in
           if typeStr = ''nginx'' then
             (case mapstructureDecode env (le_decodeNginx env) lbRaw of
                Inl e \<Rightarrow> Inl (Wrapf ''unmarshal nginx config'' e)
              | Inr c \<Rightarrow>
             (case loadCertificatesForLoadBalancer certLoader (ngx_Name c) (ngx_CertPath c) (ngx_KeyPath c)
                 (ngx_CAPath c) (ngx_Hostname c) of
                Inl e \<Rightarrow> Inl e
              | Inr cc \<Rightarrow>
                  Inr (lbs @ [NginxConfig (c\<lparr>ngx_Cert := cc_Cert cc, ngx_Key := cc_Key cc, ngx_CA := cc_CA cc,
                    ngx_Type := typeStr\<rparr>)])))
           else if typeStr = ''envoy'' then
             (case mapstructureDecode env (le_decodeEnvoy env) lbRaw of
                Inl e \<Rightarrow> Inl (Wrapf ''unmarshal envoy config'' e)
              | Inr c \<Rightarrow>
             (case loadCertificatesForLoadBalancer certLoader (env_Name c) (env_CertPath c) (env_KeyPath c)
                 (env_CAPath c) (env_Hostname c) of
                Inl e \<Rightarrow> Inl e
              | Inr cc \<Rightarrow>
                  Inr (lbs @ [EnvoyConfig (c\<lparr>env_Cert := cc_Cert cc, env_Key := cc_Key cc, env_CA := cc_CA cc,
                    env_Type := typeStr\<rparr>)])))
           else Inl (Errorf (''unsupported loadbalancer type: '' @ typeStr))))"

definition raw_to_config :: "'r raw_config \<Rightarrow> lb_config list \<Rightarrow> config" where
  "raw_to_config raw lbs =
     \<lparr>cfg_GlobalUpstreamSyncPeriod = raw_GlobalUpstreamSyncPeriod raw,
      cfg_LeaderElection = raw_LeaderElection raw, cfg_Log = raw_Log raw, cfg_Metrics = raw_Metrics raw,
      cfg_Kubernetes = raw_Kubernetes raw, cfg_GlobalIPReplacementList = raw_GlobalIPReplacementList raw,
      cfg_LoadBalancers = lbs, cfg_RequestPoolSize = raw_RequestPoolSize raw,
      cfg_AllowEmptyUpstream = raw_AllowEmptyUpstream raw, cfg_DefaultBackend = raw_DefaultBackend raw\<rparr>"

text \<open>\<open>ViperLoader.Load\<close>.\<close>

definition Load :: "certificate_loader \<Rightarrow> 'r loader_env \<Rightarrow> goerror + config" where
  "Load certLoader env =
     (case le_ctxErr env of
        Some e \<Rightarrow> Inl e
      | None \<Rightarrow>
     (case le_ReadInConfig env of
        Some e \<Rightarrow> Inl (Wrapf ''read config'' e)
      | None \<Rightarrow>
     (case le_NewDecoder env of
        Some e \<Rightarrow> Inl (Wrapf ''create decoder'' e)
      | None \<Rightarrow>
     (case decodeSettings env of
        Inl e \<Rightarrow> Inl (Wrapf ''unmarshal raw config'' e)
      | Inr raw \<Rightarrow>
     (case fold_err (load_lb certLoader env) [] (raw_LoadBalancers raw) of
        Inl e \<Rightarrow> Inl e
      | Inr lbs \<Rightarrow>
          (let cfg = ApplyDefaultValues (raw_to_config raw lbs)
           in case Validate cfg of
                Some e \<Rightarrow> Inl (Wrapf ''validate config'' e)
              | None \<Rightarrow> Inr cfg))))))"

section \<open>Durations in the configuration\<close>

text \<open>
  C39: what a duration of the configuration means. A text of whole numbers with units, as in
  \<open>1h30m\<close>, is read as the sum of what its parts say in nanoseconds, and with a minus sign as its
  negation, as long as this fits into 63 bits; a positive number without a unit is refused. Other
  values, and texts for settings that are not durations, reach the decoder as they are: a bare
  number is not given a unit by the hook.
\<close>

theorem StringToDurationHookFunc_reads:
  fixes hook :: "'r hook"
  assumes "hook = StringToDurationHookFunc flo" and "items \<noteq> []"
    and "list_all (\<lambda>(n, u). map_of unitMap u \<noteq> None) items"
    and "nanoseconds items < 2 ^ 63" and "0 < m" and "m \<le> 2 ^ 63"
  shows "hook True (StrData (render_duration items)) =
      Inr (DurData (int (nanoseconds items))) \<and>
    hook True (StrData (CHR ''-'' # render_duration items)) =
      Inr (DurData (- int (nanoseconds items))) \<and>
    (\<exists>e. hook True (StrData (nat_dec m)) = Inl e) \<and>
    hook b (IntData i) = Inr (IntData i) \<and>
    hook False (StrData s) = Inr (StrData s)"
  using ParseDuration_render [OF assms(2-4), of flo] ParseDuration_unitless [OF assms(5,6), of flo]
  by (auto simp: assms(1) StringToDurationHookFunc_def)

text \<open>Fractions of a unit computed exactly, for examples.\<close>

definition exact_fraction :: "nat \<Rightarrow> nat \<Rightarrow> nat \<Rightarrow> nat" where
  "exact_fraction f unit k = f * unit div 10 ^ k"

theorem StringToDurationHookFunc_reads_witness:
  "StringToDurationHookFunc exact_fraction True (StrData ''1h30m'' :: unit data) = Inr (DurData 5400000000000) \<and>
   StringToDurationHookFunc exact_fraction True (StrData ''-1h30m'' :: unit data) = Inr (DurData (- 5400000000000)) \<and>
   (\<exists>e. StringToDurationHookFunc exact_fraction True (StrData ''30'' :: unit data) = Inl e)"
proof -
  have "render_duration [(1, ''h''), (30, ''m'')] = ''1h30m''" "nat_dec 30 = ''30''"
    by (simp_all add: render_duration_def go_eval)
  moreover have "nanoseconds [(1, ''h''), (30, ''m'')] = 5400000000000"
    by (simp add: nanoseconds_def unitMap_def)
  moreover have "list_all (\<lambda>(n, u). map_of unitMap u \<noteq> None) [(1 :: nat, ''h''), (30, ''m'')]"
    by (simp add: unitMap_def)
  ultimately show ?thesis
    using StringToDurationHookFunc_reads [OF refl, where 'r = unit, of
      "[(1, ''h''), (30, ''m'')]" 30 exact_fraction False 0 "''''"] by simp
qed

section \<open>What is loaded\<close>

text \<open>
  A load balancer as the loader leaves it: a value, not a pointer, whose type is the lower-case
  name of its kind and whose certificate texts are those of the loader for its paths, or empty
  without paths.
\<close>

definition certs_loaded ::
  "certificate_loader \<Rightarrow> string \<Rightarrow> string \<Rightarrow> string \<Rightarrow> string \<Rightarrow> string \<Rightarrow> string \<Rightarrow> string \<Rightarrow> bool" where
  "certs_loaded certLoader certPath keyPath caPath hostname cert key ca \<longleftrightarrow>
     (if certPath = '''' \<and> keyPath = '''' \<and> caPath = '''' then cert = '''' \<and> key = '''' \<and> ca = ''''
      else certLoader certPath keyPath caPath hostname = Inr \<lparr>cc_Cert = cert, cc_Key = key, cc_CA = ca\<rparr>)"

fun lb_loaded :: "certificate_loader \<Rightarrow> lb_config \<Rightarrow> bool" where
  "lb_loaded certLoader (NginxConfig c) \<longleftrightarrow> ngx_Type c = ''nginx'' \<and>
     certs_loaded certLoader (ngx_CertPath c) (ngx_KeyPath c) (ngx_CAPath c) (ngx_Hostname c)
       (ngx_Cert c) (ngx_Key c) (ngx_CA c)"
| "lb_loaded certLoader (EnvoyConfig c) \<longleftrightarrow> env_Type c = ''envoy'' \<and>
     certs_loaded certLoader (env_CertPath c) (env_KeyPath c) (env_CAPath c) (env_Hostname c)
       (env_Cert c) (env_Key c) (env_CA c)"
| "lb_loaded certLoader _ = False"

lemma loadCertificates_loaded:
  "loadCertificatesForLoadBalancer certLoader n cp kp cap h = Inr cc \<Longrightarrow>
     certs_loaded certLoader cp kp cap h (cc_Cert cc) (cc_Key cc) (cc_CA cc)"
  by (auto simp: loadCertificatesForLoadBalancer_def certs_loaded_def no_certificates_def
      split: if_splits sum.splits)

lemma load_lb_Inr:
  assumes "load_lb certLoader env lbs raw = Inr lbs'"
  shows "\<exists>lb. lbs' = lbs @ [lb] \<and> lb_loaded certLoader lb"
  using assms
  by (auto simp: load_lb_def Let_def dest!: loadCertificates_loaded split: option.splits if_splits sum.splits)

lemma load_lbs_Inr:
  assumes "fold_err (load_lb certLoader env) lbs raws = Inr lbs'"
  shows "\<exists>new. lbs' = lbs @ new \<and> length new = length raws \<and> list_all (lb_loaded certLoader) new"
  using assms
proof (induction raws arbitrary: lbs)
  case (Cons raw raws)
  then obtain mid where mid: "load_lb certLoader env lbs raw = Inr mid"
      and rest: "fold_err (load_lb certLoader env) mid raws = Inr lbs'"
    by (auto split: sum.splits)
  from load_lb_Inr [OF mid] obtain lb where lb: "mid = lbs @ [lb]" "lb_loaded certLoader lb" by blast
  from Cons.IH [OF rest] obtain new where "lbs' = mid @ new" "length new = length raws"
      "list_all (lb_loaded certLoader) new" by blast
  with lb show ?case by (intro exI [of _ "lb # new"]) simp
qed simp

lemma default_lb_loaded: "lb_loaded certLoader (default_lb cfg lb) = lb_loaded certLoader lb"
  if "lb_loaded certLoader lb"
  using that by (cases lb) (simp_all add: default_lb_def inherit_alt nginx_SetDefaults_def envoy_SetDefaults_def)

lemma Load_cases:
  assumes "Load certLoader env = Inr cfg"
  obtains raw lbs where "decodeSettings env = Inr raw"
    and "fold_err (load_lb certLoader env) [] (raw_LoadBalancers raw) = Inr lbs"
    and "cfg = ApplyDefaultValues (raw_to_config raw lbs)" and "Validate cfg = None"
  using assms by (auto simp: Load_def Let_def split: option.splits sum.splits)

lemma Load_config_ok: "Load certLoader env = Inr cfg \<Longrightarrow> config_ok cfg"
  by (metis Load_cases Validate_ok_iff)

lemma Load_lbs:
  assumes "Load certLoader env = Inr cfg"
  shows "list_all (lb_loaded certLoader) (cfg_LoadBalancers cfg)"
proof -
  from assms obtain raw lbs where lbs: "fold_err (load_lb certLoader env) [] (raw_LoadBalancers raw) = Inr lbs"
      and cfg: "cfg = ApplyDefaultValues (raw_to_config raw lbs)"
    by (rule Load_cases)
  have "cfg_LoadBalancers cfg = map (default_lb (global_defaults (raw_to_config raw lbs))) lbs"
    using cfg by (simp add: ApplyDefaultValues_def Let_def raw_to_config_def)
  with load_lbs_Inr [OF lbs] show ?thesis
    by (auto simp: list_all_iff default_lb_loaded)
qed

lemma Load_period:
  fixes env :: "'r loader_env"
  assumes "Load certLoader env = Inr cfg"
  shows "0 < cfg_GlobalUpstreamSyncPeriod cfg"
    and "lb \<in> set (cfg_LoadBalancers cfg) \<Longrightarrow> 0 < GetUpstreamSyncPeriod lb"
proof -
  from assms obtain raw :: "'r raw_config" and lbs where cfg: "cfg = ApplyDefaultValues (raw_to_config raw lbs)"
      and valid: "Validate cfg = None"
    by (rule Load_cases)
  let ?g = "global_defaults (raw_to_config raw lbs)"
  have sel: "cfg_GlobalUpstreamSyncPeriod cfg = cfg_GlobalUpstreamSyncPeriod ?g"
    "cfg_LoadBalancers cfg = map (default_lb ?g) lbs"
    using cfg by (simp_all add: ApplyDefaultValues_def Let_def raw_to_config_def)
  have "cfg_GlobalUpstreamSyncPeriod ?g \<noteq> 0"
    by (simp add: global_defaults_sel or_default_set default_not_unset)
  with valid sel show global: "0 < cfg_GlobalUpstreamSyncPeriod cfg"
    by (auto simp: Validate_ok_iff config_ok_def)
  assume lb: "lb \<in> set (cfg_LoadBalancers cfg)"
  then have "lb_ok (cfg_GlobalIPReplacementList cfg) lb"
    using valid by (auto simp: Validate_ok_iff config_ok_def list_all_iff)
  then have "0 \<le> GetUpstreamSyncPeriod lb"
    by (cases lb) (auto simp: lb_ok_def nginx_ok_def envoy_ok_def)
  moreover have "GetUpstreamSyncPeriod lb \<noteq> 0"
    using lb sel global by (auto simp: default_lb_filled or_default_def split: if_splits)
  ultimately show "0 < GetUpstreamSyncPeriod lb" by simp
qed

text \<open>
  C23: what the loader returns is fit to run with. The configuration is valid; every period that a
  ticker gets is positive, as are the pool sizes and request timeouts; and each load balancer is
  a value with the lower-case name of its kind as its type and the texts of its certificate files.
\<close>

theorem Load_fit:
  assumes "Load certLoader env = Inr cfg"
  shows "config_ok cfg \<and> 0 < cfg_GlobalUpstreamSyncPeriod cfg \<and> 0 < cfg_RequestPoolSize cfg \<and>
    list_all (\<lambda>lb. lb_loaded certLoader lb \<and> 0 < GetUpstreamSyncPeriod lb \<and>
      0 < GetRequestPoolSize lb \<and> 0 < GetRequestTimeOut lb) (cfg_LoadBalancers cfg)"
proof -
  have "config_ok cfg" using assms by (rule Load_config_ok)
  moreover from this have "list_all (\<lambda>lb. 0 < GetRequestPoolSize lb \<and> 0 < GetRequestTimeOut lb) (cfg_LoadBalancers cfg)"
    by (auto simp: config_ok_def lb_ok_def list_all_iff)
  ultimately show ?thesis
    using Load_lbs [OF assms] Load_period [OF assms] by (auto simp: list_all_iff config_ok_def)
qed

text \<open>
  A file with one NGINX load balancer whose type is written in capitals; the file system has no
  files. Raw load balancers are decoded by looking at nothing.
\<close>

definition demo_env :: "unit loader_env" where
  "demo_env =
     \<lparr>le_ctxErr = None, le_flo = exact_fraction, le_ReadInConfig = None,
      le_AllSettings = (\<lambda>_ defaults. defaults), le_NewDecoder = None,
      le_Decode = (\<lambda>_ _. Inr
        \<lparr>raw_GlobalUpstreamSyncPeriod = 0,
         raw_LeaderElection = cfg_LeaderElection (valid_config []), raw_Log = cfg_Log (valid_config []),
         raw_Metrics = cfg_Metrics (valid_config []), raw_Kubernetes = cfg_Kubernetes (valid_config []),
         raw_GlobalIPReplacementList = \<lparr>grl_Net = [], grl_IP = []\<rparr>,
         raw_LoadBalancers = [()], raw_RequestPoolSize = 0, raw_AllowEmptyUpstream = False,
         raw_DefaultBackend = None\<rparr>),
      le_type = (\<lambda>_. Some ''NGINX''),
      le_decodeNginx = (\<lambda>_ _. case rules_lb demo_rules of NginxConfig c \<Rightarrow> Inr c | _ \<Rightarrow> Inl (Errorf '''')),
      le_decodeEnvoy = (\<lambda>_ _. Inl (Errorf ''''))\<rparr>"

definition no_files :: certificate_loader where
  "no_files = (\<lambda>_ _ _ _. Inl (Errorf ''no such file''))"

lemma demo_load_lb: "load_lb certLoader demo_env [] () = Inr [rules_lb demo_rules]"
proof -
  have "ToLower ''NGINX'' = ''nginx''"
    by (simp add: go_eval)
  then show ?thesis
    by (simp add: load_lb_def mapstructureDecode_def demo_env_def rules_lb_def
        loadCertificatesForLoadBalancer_def no_certificates_def)
qed

lemma default_lb_ok:
  assumes "lb_ok g lb" and "cfg_DefaultBackend cfg = None" and "0 \<le> cfg_GlobalUpstreamSyncPeriod cfg"
  shows "lb_ok g (default_lb cfg lb)"
proof -
  have "protocol_ok (default_lb cfg lb)"
    using assms by (cases lb) (auto simp: lb_ok_def default_lb_def inherit_alt nginx_SetDefaults_def
        envoy_SetDefaults_def nginx_ok_def envoy_ok_def or_default_def FailTimeout_def)
  with assms show ?thesis
    by (auto simp: lb_ok_def default_lb_filled or_default_def)
qed

lemma demo_Load: "\<exists>cfg. Load certLoader demo_env = Inr cfg \<and> map GetType (cfg_LoadBalancers cfg) = [''nginx'']"
proof -
  obtain raw where raw: "decodeSettings demo_env = Inr raw" and lbs: "raw_LoadBalancers raw = [()]"
    by (simp add: decodeSettings_def demo_env_def)
  let ?cfg = "ApplyDefaultValues (raw_to_config raw [rules_lb demo_rules])"
  let ?g = "global_defaults (raw_to_config raw [rules_lb demo_rules])"
  have "demo_rules \<noteq> []" by (simp add: demo_rules_def)
  then have "lb_ok \<lparr>grl_Net = [], grl_IP = []\<rparr> (default_lb ?g (rules_lb demo_rules))"
    using raw by (intro default_lb_ok rules_lb_ok demo_rules_ok)
      (auto simp: global_defaults_sel raw_to_config_def decodeSettings_def demo_env_def or_default_def default_constants)
  moreover have "cfg_GlobalIPReplacementList (raw_to_config raw lbs) = \<lparr>grl_Net = [], grl_IP = []\<rparr>"
    "cfg_DefaultBackend (raw_to_config raw lbs) = None" "\<not> le_Enabled (cfg_LeaderElection (raw_to_config raw lbs))"
    "\<not> log_Enabled (cfg_Log (raw_to_config raw lbs))" "\<not> met_Enabled (cfg_Metrics (raw_to_config raw lbs))"
    "cfg_GlobalUpstreamSyncPeriod (raw_to_config raw lbs) = 0" "cfg_RequestPoolSize (raw_to_config raw lbs) = 0"
    "kub_ResyncPeriod (cfg_Kubernetes (raw_to_config raw lbs)) = 30"
    "cfg_LoadBalancers (raw_to_config raw lbs) = lbs" for lbs
    using raw by (auto simp: raw_to_config_def decodeSettings_def demo_env_def valid_config_def)
  moreover have "le_Enabled (cfg_LeaderElection (global_defaults c)) = le_Enabled (cfg_LeaderElection c)"
    "log_Enabled (cfg_Log (global_defaults c)) = log_Enabled (cfg_Log c)"
    "met_Enabled (cfg_Metrics (global_defaults c)) = met_Enabled (cfg_Metrics c)" for c
    by (simp_all add: global_defaults_def Let_def)
  ultimately have "Validate ?cfg = None"
    unfolding Validate_ok_iff config_ok_def ApplyDefaultValues_sel
    by (simp add: global_defaults_sel or_default_def default_constants backend_ok_def election_ok_def
        global_rules_ok_def)
  moreover have "map GetType (cfg_LoadBalancers ?cfg) = [''nginx'']"
    by (simp add: ApplyDefaultValues_def Let_def raw_to_config_def rules_lb_def)
  moreover have "le_ctxErr demo_env = None" "le_ReadInConfig demo_env = None" "le_NewDecoder demo_env = None"
    by (simp_all add: demo_env_def)
  ultimately show ?thesis
    using raw lbs demo_load_lb by (simp add: Load_def Let_def)
qed

theorem Load_fit_witness:
  "\<exists>cfg. Load no_files demo_env = Inr cfg \<and> 0 < cfg_GlobalUpstreamSyncPeriod cfg \<and>
     map GetType (cfg_LoadBalancers cfg) = [''nginx'']"
proof -
  obtain cfg where cfg: "Load no_files demo_env = Inr cfg" "map GetType (cfg_LoadBalancers cfg) = [''nginx'']"
    using demo_Load [of no_files] by (elim exE conjE)
  from Load_fit [OF cfg(1)] have "0 < cfg_GlobalUpstreamSyncPeriod cfg"
    by (elim conjE)
  with cfg show ?thesis
    by (intro exI conjI)
qed

end
