(* ===== verification/Logging.thy ===== *)
theory Logging
  imports Validation
begin

text \<open>
  \<open>internal/adapters/logging/zap.go\<close>: the choice of the level and the encoder, the conversion of
  fields, and the methods of the logger. What zap does with an entry is outside the model: its
  methods are the functions of \<open>zap_lib\<close>, on loggers of type \<open>'z\<close>.
\<close>

datatype level = DebugLevel | InfoLevel | WarnLevel | ErrorLevel | FatalLevel

definition parseLevel :: "string \<Rightarrow> level \<times> goerror option" where
  "parseLevel s =
     (let l = ToLower s in
      if l = ''debug'' then (DebugLevel, None)
      else if l = ''info'' then (InfoLevel, None)
      else if l = ''warn'' then (WarnLevel, None)
      else if l = ''error'' then (ErrorLevel, None)
      else if l = ''fatal'' then (FatalLevel, None)
      else (InfoLevel, Some (Errorf (''invalid log level: '' @ s @
        '', must be one of: debug, info, warn, error, fatal''))))"

datatype encoder = ConsoleEncoder | JSONEncoder

text \<open>A logger: the one that discards everything, or zap with a level and an encoder.\<close>

datatype logger = Nop | Zap level encoder

definition logging_New :: "string \<Rightarrow> string \<Rightarrow> goerror + logger" where
  "logging_New lvl fmt =
     (case parseLevel lvl of
        (_, Some e) \<Rightarrow> Inl e
      | (l, None) \<Rightarrow> Inr (Zap l (if ToLower fmt = ''console'' then ConsoleEncoder else JSONEncoder)))"

definition NewNop :: logger where
  "NewNop = Nop"

text \<open>
  The values of fields by their dynamic type, and the zap fields. An error is logged under the
  key \<open>error\<close> of \<open>zap.Error\<close>, whatever the field's own key is.
\<close>

datatype 'a field_value = StringValue string | IntValue int | ErrorValue goerror | OtherValue 'a

datatype 'a zap_field = ZapString string string | ZapInt string int | ZapError goerror | ZapAny string 'a

definition toZapFields :: "(string \<times> 'a field_value) list \<Rightarrow> 'a zap_field list" where
  "toZapFields fs =
     map (\<lambda>(key, v).
       case v of
         StringValue s \<Rightarrow> ZapString key s
       | IntValue i \<Rightarrow> ZapInt key i
       | ErrorValue e \<Rightarrow> ZapError e
       | OtherValue a \<Rightarrow> ZapAny key a) fs"

text \<open>The methods. \<open>Sync\<close> ignores the error of zap.\<close>

record ('z, 'a) zap_lib =
  zl_Log :: "level \<Rightarrow> 'z \<Rightarrow> string \<Rightarrow> 'a zap_field list \<Rightarrow> 'z"
  zl_With :: "'z \<Rightarrow> 'a zap_field list \<Rightarrow> 'z"
  zl_Sync :: "'z \<Rightarrow> goerror option \<times> 'z"

type_synonym 'a log_fields = "(string \<times> 'a field_value) list"

definition log_Debug :: "('z, 'a) zap_lib \<Rightarrow> 'z \<Rightarrow> string \<Rightarrow> 'a log_fields \<Rightarrow> 'z" where
  "log_Debug lib l msg fs = zl_Log lib DebugLevel l msg (toZapFields fs)"

definition log_Info :: "('z, 'a) zap_lib \<Rightarrow> 'z \<Rightarrow> string \<Rightarrow> 'a log_fields \<Rightarrow> 'z" where
  "log_Info lib l msg fs = zl_Log lib InfoLevel l msg (toZapFields fs)"

definition log_Warn :: "('z, 'a) zap_lib \<Rightarrow> 'z \<Rightarrow> string \<Rightarrow> 'a log_fields \<Rightarrow> 'z" where
  "log_Warn lib l msg fs = zl_Log lib WarnLevel l msg (toZapFields fs)"

definition log_Error :: "('z, 'a) zap_lib \<Rightarrow> 'z \<Rightarrow> string \<Rightarrow> 'a log_fields \<Rightarrow> 'z" where
  "log_Error lib l msg fs = zl_Log lib ErrorLevel l msg (toZapFields fs)"

definition log_Fatal :: "('z, 'a) zap_lib \<Rightarrow> 'z \<Rightarrow> string \<Rightarrow> 'a log_fields \<Rightarrow> 'z" where
  "log_Fatal lib l msg fs = zl_Log lib FatalLevel l msg (toZapFields fs)"

definition log_With :: "('z, 'a) zap_lib \<Rightarrow> 'z \<Rightarrow> 'a log_fields \<Rightarrow> 'z" where
  "log_With lib l fs = zl_With lib l (toZapFields fs)"

definition log_Sync :: "('z, 'a) zap_lib \<Rightarrow> 'z \<Rightarrow> goerror option \<times> 'z" where
  "log_Sync lib l = (None, snd (zl_Sync lib l))"

lemma logging_New_ok:
  "(\<exists>l. logging_New lvl fmt = Inr l) \<longleftrightarrow> ToLower lvl \<in> {''debug'', ''info'', ''warn'', ''error'', ''fatal''}"
  by (auto simp: logging_New_def parseLevel_def Let_def)

end
