(* ===== verification/Informers.thy ===== *)
theory Informers
  imports Reconciliation
begin

text \<open>
  The informers of \<open>internal/adapters/kubernetes/client.go\<close>: building the adapter, \<open>Start\<close> behind
  its \<open>sync.Once\<close>, and the registration of event handlers by \<open>WatchServices\<close>, \<open>WatchPods\<close> and
  \<open>WatchNodes\<close> (the handlers themselves are in \<open>KubernetesAdapter\<close>). What client-go answers is a
  parameter: the errors of building a client, \<open>AddEventHandler\<close>, and whether \<open>WaitForCacheSync\<close>
  sees the caches synced before its context is done. On top of them are \<open>StartInformers\<close> of the
  controller and the answers that its \<open>Start\<close> gets.
\<close>

section \<open>The adapter\<close>

datatype handler = ServiceHandler | PodHandler | NodeHandler

record k8s_adapter =
  ka_config :: kubernetes_config
  ka_informerFactory :: bool
  ka_handlers :: "handler list"
  ka_startOnce :: bool
  ka_startErr :: "goerror option"
  ka_factoryStarts :: nat

text \<open>The client library: an error of \<open>BuildConfigFromFlags\<close> for a path, and of \<open>NewForConfig\<close>.\<close>

record client_env =
  ce_BuildConfigFromFlags :: "string \<Rightarrow> goerror option"
  ce_NewForConfig :: "string \<Rightarrow> goerror option"

definition NewKubernetesAdapter :: "client_env \<Rightarrow> kubernetes_config \<Rightarrow> goerror + k8s_adapter" where
  "NewKubernetesAdapter env k8sCfg =
     (case ce_BuildConfigFromFlags env (kub_KubernetesConfig k8sCfg) of
        Some e \<Rightarrow> Inl (Wrapf ''failed to build kubernetes config'' e)
      | None \<Rightarrow>
     (case ce_NewForConfig env (kub_KubernetesConfig k8sCfg) of
        Some e \<Rightarrow> Inl (Wrapf ''failed to create kubernetes client'' e)
      | None \<Rightarrow>
          Inr \<lparr>ka_config = k8sCfg, ka_informerFactory = True, ka_handlers = [], ka_startOnce = False,
            ka_startErr = None, ka_factoryStarts = 0\<rparr>))"

text \<open>\<open>Start\<close>: the body of the \<open>Once\<close> runs at the first call, and its error stays.\<close>

definition start_informers :: "bool \<Rightarrow> k8s_adapter \<Rightarrow> k8s_adapter" where
  "start_informers synced k =
     (let k = k\<lparr>ka_factoryStarts := Suc (ka_factoryStarts k)\<rparr>
      in if \<not> synced then k\<lparr>ka_startErr := Some (Errorf ''failed to sync kubernetes informers'')\<rparr> else k)"

definition adapter_Start :: "bool \<Rightarrow> k8s_adapter \<Rightarrow> goerror option \<times> k8s_adapter" where
  "adapter_Start synced k =
     (if \<not> ka_informerFactory k then (Some (Errorf ''informerFactory is nil''), k)
      else (let k = (if ka_startOnce k then k else start_informers synced (k\<lparr>ka_startOnce := True\<rparr>))
            in (ka_startErr k, k)))"

text \<open>Registering a handler, then \<open>Start\<close>; \<open>added\<close> is the error of \<open>AddEventHandler\<close>.\<close>

definition WatchServices :: "goerror option \<Rightarrow> bool \<Rightarrow> k8s_adapter \<Rightarrow> goerror option \<times> k8s_adapter" where
  "WatchServices added synced k =
     (case added of
        Some e \<Rightarrow> (Some e, k)
      | None \<Rightarrow> adapter_Start synced (k\<lparr>ka_handlers := ka_handlers k @ [ServiceHandler]\<rparr>))"

definition WatchPods :: "goerror option \<Rightarrow> bool \<Rightarrow> k8s_adapter \<Rightarrow> goerror option \<times> k8s_adapter" where
  "WatchPods added synced k =
     (case added of
        Some e \<Rightarrow> (Some e, k)
      | None \<Rightarrow> adapter_Start synced (k\<lparr>ka_handlers := ka_handlers k @ [PodHandler]\<rparr>))"

definition WatchNodes :: "goerror option \<Rightarrow> bool \<Rightarrow> k8s_adapter \<Rightarrow> goerror option \<times> k8s_adapter" where
  "WatchNodes added synced k =
     (case added of
        Some e \<Rightarrow> (Some e, k)
      | None \<Rightarrow> adapter_Start synced (k\<lparr>ka_handlers := ka_handlers k @ [NodeHandler]\<rparr>))"

section \<open>The controller's use of it\<close>

definition StartInformers :: "bool \<Rightarrow> k8s_adapter option \<Rightarrow> goerror option \<times> k8s_adapter option" where
  "StartInformers synced k =
     (case k of
        None \<Rightarrow> (None, None)
      | Some k \<Rightarrow> (case adapter_Start synced k of (r, k) \<Rightarrow> (r, Some k)))"

text \<open>
  The calls of the controller's \<open>Start\<close> up to its first error, with what client-go answers: the
  three errors of \<open>AddEventHandler\<close> and whether the caches sync. What \<open>Start\<close> is then told is a
  \<open>start_env\<close>.
\<close>

record watch_answers =
  wa_services :: "goerror option"
  wa_pods :: "goerror option"
  wa_nodes :: "goerror option"
  wa_synced :: bool

definition register_watches ::
  "watch_answers \<Rightarrow> goerror \<Rightarrow> k8s_adapter \<Rightarrow> start_env \<times> k8s_adapter" where
  "register_watches wa ctxErr k =
     (let env = \<lparr>se_WatchServices = None, se_WatchPods = None, se_WatchNodes = None, se_Start = None,
            se_ctxErr = ctxErr\<rparr>
      in case WatchServices (wa_services wa) (wa_synced wa) k of
           (Some e, k) \<Rightarrow> (env\<lparr>se_WatchServices := Some e\<rparr>, k)
         | (None, k) \<Rightarrow>
        (case WatchPods (wa_pods wa) (wa_synced wa) k of
           (Some e, k) \<Rightarrow> (env\<lparr>se_WatchPods := Some e\<rparr>, k)
         | (None, k) \<Rightarrow>
        (case WatchNodes (wa_nodes wa) (wa_synced wa) k of
           (Some e, k) \<Rightarrow> (env\<lparr>se_WatchNodes := Some e\<rparr>, k)
         | (None, k) \<Rightarrow>
        (case adapter_Start (wa_synced wa) k of
           (r, k) \<Rightarrow> (env\<lparr>se_Start := r\<rparr>, k)))))"

definition start_failed :: "start_env \<Rightarrow> bool" where
  "start_failed env \<longleftrightarrow>
     se_WatchServices env \<noteq> None \<or> se_WatchPods env \<noteq> None \<or> se_WatchNodes env \<noteq> None \<or> se_Start env \<noteq> None"

section \<open>The informers start once\<close>

text \<open>The calls that \<open>App\<close> and the controller make on the adapter, in any order.\<close>

datatype client_call =
    CallStart bool
  | CallWatchServices "goerror option" bool
  | CallWatchPods "goerror option" bool
  | CallWatchNodes "goerror option" bool

fun k8s_call :: "client_call \<Rightarrow> k8s_adapter \<Rightarrow> goerror option \<times> k8s_adapter" where
  "k8s_call (CallStart synced) k = adapter_Start synced k"
| "k8s_call (CallWatchServices added synced) k = WatchServices added synced k"
| "k8s_call (CallWatchPods added synced) k = WatchPods added synced k"
| "k8s_call (CallWatchNodes added synced) k = WatchNodes added synced k"

fun k8s_calls :: "client_call list \<Rightarrow> k8s_adapter \<Rightarrow> goerror option list \<times> k8s_adapter" where
  "k8s_calls [] k = ([], k)"
| "k8s_calls (x # xs) k =
     (case k8s_call x k of (r, k) \<Rightarrow> (case k8s_calls xs k of (rs, k) \<Rightarrow> (r # rs, k)))"

text \<open>Whether a call gets to \<open>Start\<close>, and what \<open>WaitForCacheSync\<close> answers there.\<close>

fun reaches_start :: "client_call \<Rightarrow> bool option" where
  "reaches_start (CallStart synced) = Some synced"
| "reaches_start (CallWatchServices added synced) = (if added = None then Some synced else None)"
| "reaches_start (CallWatchPods added synced) = (if added = None then Some synced else None)"
| "reaches_start (CallWatchNodes added synced) = (if added = None then Some synced else None)"

fun add_error :: "client_call \<Rightarrow> goerror option" where
  "add_error (CallStart synced) = None"
| "add_error (CallWatchServices added synced) = added"
| "add_error (CallWatchPods added synced) = added"
| "add_error (CallWatchNodes added synced) = added"

fun registers :: "client_call \<Rightarrow> handler list" where
  "registers (CallStart synced) = []"
| "registers (CallWatchServices added synced) = (if added = None then [ServiceHandler] else [])"
| "registers (CallWatchPods added synced) = (if added = None then [PodHandler] else [])"
| "registers (CallWatchNodes added synced) = (if added = None then [NodeHandler] else [])"

text \<open>The one error of a synchronisation that did not happen.\<close>

definition sync_error :: "bool \<Rightarrow> goerror option" where
  "sync_error synced = (if synced then None else Some (Errorf ''failed to sync kubernetes informers''))"

lemmas watch_defs = WatchServices_def WatchPods_def WatchNodes_def

lemma adapter_Start_run:
  "ka_informerFactory k \<Longrightarrow> ka_startOnce k \<Longrightarrow> adapter_Start synced k = (ka_startErr k, k)"
  "ka_informerFactory k \<Longrightarrow> \<not> ka_startOnce k \<Longrightarrow> ka_startErr k = None \<Longrightarrow>
     adapter_Start synced k =
       (sync_error synced, k\<lparr>ka_startOnce := True, ka_factoryStarts := Suc (ka_factoryStarts k),
          ka_startErr := sync_error synced\<rparr>)"
  by (simp_all add: adapter_Start_def start_informers_def sync_error_def)

lemma k8s_call_started:
  assumes "ka_informerFactory k" and "ka_startOnce k"
  shows "k8s_call x k =
    (if reaches_start x = None then add_error x else ka_startErr k,
     k\<lparr>ka_handlers := ka_handlers k @ registers x\<rparr>)"
  using assms by (cases x) (simp_all add: watch_defs adapter_Start_run split: option.split)

lemma k8s_calls_started:
  assumes "ka_informerFactory k" and "ka_startOnce k"
  shows "k8s_calls xs k =
    (map (\<lambda>x. if reaches_start x = None then add_error x else ka_startErr k) xs,
     k\<lparr>ka_handlers := ka_handlers k @ concat (map registers xs)\<rparr>)"
  using assms by (induction xs arbitrary: k) (simp_all add: k8s_call_started)

lemma reaches_start_error: "reaches_start x = None \<longleftrightarrow> add_error x \<noteq> None"
  by (cases x) auto

lemma registers_error: "add_error x \<noteq> None \<Longrightarrow> registers x = []"
  by (cases x) auto

lemma k8s_call_fresh:
  assumes "ka_informerFactory k" and "\<not> ka_startOnce k" and "ka_startErr k = None"
  shows "k8s_call x k =
    (case reaches_start x of
       None \<Rightarrow> (add_error x, k)
     | Some synced \<Rightarrow>
         (sync_error synced,
          k\<lparr>ka_handlers := ka_handlers k @ registers x, ka_startOnce := True,
            ka_factoryStarts := Suc (ka_factoryStarts k), ka_startErr := sync_error synced\<rparr>))"
  using assms by (cases x) (simp_all add: watch_defs adapter_Start_run split: option.split)

text \<open>What a list of calls does to a fresh adapter: the first call that reaches \<open>Start\<close> decides.\<close>

fun first_start :: "client_call list \<Rightarrow> bool option" where
  "first_start [] = None"
| "first_start (x # xs) = (case reaches_start x of None \<Rightarrow> first_start xs | Some synced \<Rightarrow> Some synced)"

lemma k8s_calls_fresh:
  assumes "ka_informerFactory k" and "\<not> ka_startOnce k" and "ka_startErr k = None"
  shows "fst (k8s_calls xs k) =
      map (\<lambda>x. if reaches_start x = None then add_error x
               else (case first_start xs of None \<Rightarrow> None | Some synced \<Rightarrow> sync_error synced)) xs \<and>
    ka_handlers (snd (k8s_calls xs k)) = ka_handlers k @ concat (map registers xs) \<and>
    ka_factoryStarts (snd (k8s_calls xs k)) =
      ka_factoryStarts k + (if first_start xs = None then 0 else 1)"
  using assms
proof (induction xs arbitrary: k)
  case (Cons x xs)
  show ?case
  proof (cases "reaches_start x")
    case None
    then have "registers x = []"
      using reaches_start_error registers_error by blast
    moreover have "k8s_call x k = (add_error x, k)"
      using None Cons.prems by (simp add: k8s_call_fresh)
    ultimately show ?thesis
      using Cons.IH [OF Cons.prems] None by (auto split: prod.split)
  next
    case (Some synced)
    with Cons.prems show ?thesis
      by (auto simp: k8s_call_fresh k8s_calls_started)
  qed
qed simp

text \<open>
  Once the caches are synced and the handlers can be added, the controller gets no error and has
  its three handlers.
\<close>

lemma register_watches_ok:
  assumes "ka_informerFactory k" and "ka_startOnce k \<Longrightarrow> ka_startErr k = None"
    and "\<not> ka_startOnce k \<Longrightarrow> ka_startErr k = None"
    and "wa_services wa = None" and "wa_pods wa = None" and "wa_nodes wa = None" and "wa_synced wa"
  shows "\<not> start_failed (fst (register_watches wa e k)) \<and>
    ka_handlers (snd (register_watches wa e k)) = ka_handlers k @ [ServiceHandler, PodHandler, NodeHandler]"
  using assms
  by (cases "ka_startOnce k")
    (simp_all add: register_watches_def watch_defs adapter_Start_run start_failed_def sync_error_def)

text \<open>
  C37: the informer factory is started at most once, whatever the order in which \<open>StartInformers\<close>
  and the controller's watches get to it, and every call that reaches \<open>Start\<close> answers as the first
  one that did: nothing if the caches synced then, else the error of that first attempt, also
  when the caches are synced by now. A handler is registered by each watch whose
  \<open>AddEventHandler\<close> succeeds, in order; an error of \<open>AddEventHandler\<close> is returned as it is.
\<close>

theorem informers_start_once:
  assumes "NewKubernetesAdapter env cfg = Inr k"
  shows "ka_factoryStarts (snd (k8s_calls xs k)) = (if first_start xs = None then 0 else 1) \<and>
    ka_handlers (snd (k8s_calls xs k)) = concat (map registers xs) \<and>
    fst (k8s_calls xs k) =
      map (\<lambda>x. if reaches_start x = None then add_error x
               else (case first_start xs of
                       None \<Rightarrow> None
                     | Some synced \<Rightarrow>
                         if synced then None else Some (Errorf ''failed to sync kubernetes informers''))) xs"
proof -
  have k: "ka_informerFactory k" "\<not> ka_startOnce k" "ka_startErr k = None" "ka_handlers k = []"
      "ka_factoryStarts k = 0"
    using assms by (auto simp: NewKubernetesAdapter_def split: option.splits)
  show ?thesis
    using k8s_calls_fresh [OF k(1-3), of xs] k(4,5)
    by (cases "first_start xs") (simp_all add: sync_error_def)
qed

text \<open>
  The application is stopped while it waits for the caches; the watches of a controller that is
  started later get the old error although its own context is alive.
\<close>

theorem informers_start_once_witness:
  "\<exists>k. NewKubernetesAdapter \<lparr>ce_BuildConfigFromFlags = (\<lambda>_. None), ce_NewForConfig = (\<lambda>_. None)\<rparr>
         \<lparr>kub_ResyncPeriod = 30, kub_KubernetesConfig = ''''\<rparr> = Inr k \<and>
     fst (k8s_calls [CallStart False, CallWatchServices None True] k) =
       [Some (Errorf ''failed to sync kubernetes informers''),
        Some (Errorf ''failed to sync kubernetes informers'')]"
proof -
  define k where "k =
    \<lparr>ka_config = \<lparr>kub_ResyncPeriod = 30, kub_KubernetesConfig = ''''\<rparr>, ka_informerFactory = True,
     ka_handlers = [], ka_startOnce = False, ka_startErr = None, ka_factoryStarts = 0\<rparr>"
  have "NewKubernetesAdapter \<lparr>ce_BuildConfigFromFlags = (\<lambda>_. None), ce_NewForConfig = (\<lambda>_. None)\<rparr>
      \<lparr>kub_ResyncPeriod = 30, kub_KubernetesConfig = ''''\<rparr> = Inr k"
    by (simp add: NewKubernetesAdapter_def k_def)
  with informers_start_once [OF this, of "[CallStart False, CallWatchServices None True]"]
  show ?thesis by (intro exI [of _ k]) simp
qed

end
