(* ===== verification/LeaderElection.thy ===== *)
theory LeaderElection
  imports Informers
begin

text \<open>
  \<open>internal/adapters/leaderelection/kubernetes.go\<close>. The callbacks of the port change the state of
  the rest of the application, which is the type parameter \<open>'s\<close>; they are run with the elector's
  state and that state in a pair. The elector of client-go is third-party code: here are the
  configuration it is given and the callbacks it calls; when it calls them is in \<open>Application\<close>.
\<close>

section \<open>The adapter\<close>

text \<open>The contexts a controller can be started with: the application's, or the elector's own child of it.\<close>

datatype leading_ctx = AppCtx | ElectorCtx

record 's callbacks =
  cb_OnStartedLeading :: "(leading_ctx \<Rightarrow> 's \<Rightarrow> 's) option"
  cb_OnStoppedLeading :: "('s \<Rightarrow> 's) option"

definition no_callbacks :: "'s callbacks" where
  "no_callbacks = \<lparr>cb_OnStartedLeading = None, cb_OnStoppedLeading = None\<rparr>"

record 's leader_election =
  el_client :: bool
  el_config :: leader_election_config
  el_isLeader :: bool
  el_callbacks :: "'s callbacks"

definition NewKubernetesLeaderElection ::
  "client_env \<Rightarrow> leader_election_config \<Rightarrow> kubernetes_config \<Rightarrow> goerror + 's leader_election" where
  "NewKubernetesLeaderElection env leaderCfg k8sCfg =
     (if \<not> le_Enabled leaderCfg then
        Inr \<lparr>el_client = False, el_config = leaderCfg, el_isLeader = False, el_callbacks = no_callbacks\<rparr>
      else
     (case ce_BuildConfigFromFlags env (kub_KubernetesConfig k8sCfg) of
        Some e \<Rightarrow> Inl (Wrapf ''failed to build kubernetes config'' e)
      | None \<Rightarrow>
     (case ce_NewForConfig env (kub_KubernetesConfig k8sCfg) of
        Some e \<Rightarrow> Inl (Wrapf ''failed to create kubernetes client'' e)
      | None \<Rightarrow>
          Inr \<lparr>el_client = True, el_config = leaderCfg, el_isLeader = False,
            el_callbacks = no_callbacks\<rparr>)))"

definition IsLeader :: "'s leader_election \<Rightarrow> bool" where
  "IsLeader k = el_isLeader k"

definition SetCallbacks :: "'s callbacks \<Rightarrow> 's leader_election \<Rightarrow> 's leader_election" where
  "SetCallbacks callbacks k = k\<lparr>el_callbacks := callbacks\<rparr>"

text \<open>
  Becoming and ceasing to be the leader: the flag and the callback are read under one lock, and
  the callback is called after it, if there is one. Both branches of \<open>Run\<close> do this.
\<close>

definition started_leading ::
  "leading_ctx \<Rightarrow> 's leader_election \<times> 's \<Rightarrow> 's leader_election \<times> 's" where
  "started_leading ctx ks =
     (let (k, s) = ks;
          cbStart = cb_OnStartedLeading (el_callbacks k)
      in (k\<lparr>el_isLeader := True\<rparr>, case cbStart of Some cb \<Rightarrow> cb ctx s | None \<Rightarrow> s))"

definition stopped_leading :: "'s leader_election \<times> 's \<Rightarrow> 's leader_election \<times> 's" where
  "stopped_leading ks =
     (let (k, s) = ks;
          cbStop = cb_OnStoppedLeading (el_callbacks k)
      in (k\<lparr>el_isLeader := False\<rparr>, case cbStop of Some cb \<Rightarrow> cb s | None \<Rightarrow> s))"

section \<open>What the elector is given\<close>

text \<open>The identity: the host name, or a fixed name without one, and the time in nanoseconds.\<close>

definition lock_identity :: "goerror + string \<Rightarrow> int \<Rightarrow> string" where
  "lock_identity hostname now =
     (case hostname of Inl _ \<Rightarrow> ''mlb-controller'' | Inr host \<Rightarrow> host) @ ''_'' @ int_dec now"

record elector_config =
  lec_LockName :: string
  lec_LockNamespace :: string
  lec_Identity :: string
  lec_LeaseDuration :: int
  lec_RenewDeadline :: int
  lec_RetryPeriod :: int
  lec_ReleaseOnCancel :: bool

definition leConfig :: "goerror + string \<Rightarrow> int \<Rightarrow> 's leader_election \<Rightarrow> elector_config" where
  "leConfig hostname now k =
     \<lparr>lec_LockName = le_LeaseName (el_config k), lec_LockNamespace = le_LeaseNamespace (el_config k),
      lec_Identity = lock_identity hostname now,
      lec_LeaseDuration = le_LeaseDuration (el_config k),
      lec_RenewDeadline = le_RenewDeadline (el_config k),
      lec_RetryPeriod = le_RetryPeriod (el_config k), lec_ReleaseOnCancel = True\<rparr>"

text \<open>What \<open>Run\<close> returns once the elector has returned.\<close>

definition run_result :: "bool \<Rightarrow> goerror option" where
  "run_result ctxDone = (if ctxDone then None else Some (Errorf ''leader election lease lost''))"

section \<open>The address of the leader\<close>

text \<open>\<open>GetLeaderAddr\<close>: the host name, and the holder in the lease, are parameters.\<close>

definition GetLeaderAddr ::
  "goerror + string \<Rightarrow> (string \<Rightarrow> string \<Rightarrow> goerror + string option) \<Rightarrow> 's leader_election \<Rightarrow> string" where
  "GetLeaderAddr hostname lease k =
     (if \<not> le_Enabled (el_config k) then
        (case hostname of Inl _ \<Rightarrow> '''' | Inr host \<Rightarrow> host)
      else if IsLeader k then
        (case hostname of Inl _ \<Rightarrow> '''' | Inr host \<Rightarrow> host)
      else
        (case lease (le_LeaseNamespace (el_config k)) (le_LeaseName (el_config k)) of
           Inl _ \<Rightarrow> ''''
         | Inr None \<Rightarrow> ''''
         | Inr (Some holder) \<Rightarrow> holder))"

end
