(* ===== verification/Metrics.thy ===== *)
theory Metrics
  imports Reconciliation
begin

text \<open>
  \<open>internal/adapters/metrics/prometheus.go\<close>: the Prometheus adapter. Of the client library the
  model has the registry (registering a name twice panics), gauges, counters, and the number of
  observations of a histogram; of \<open>net/http\<close> it has the multiplexer for patterns that are plain
  paths (no wildcards, escapes or blanks), where registering a pattern twice panics. A panic is
  the result \<open>None\<close>. The calls that the controller makes are the operations \<open>metric_op\<close>.
\<close>

section \<open>State and operations\<close>

record prometheus =
  pr_registry :: "string list"
  pr_backends :: "(string, nat) gomap"
  pr_sync_errors :: "(string, nat) gomap"
  pr_durations :: "(string, nat) gomap"
  pr_sync_upstreams :: nat
  pr_isLeader :: bool
  pr_readyChecker :: bool
  pr_config :: metrics_config
  pr_httpServer :: bool

definition MustRegister :: "string \<Rightarrow> prometheus \<Rightarrow> prometheus option" where
  "MustRegister name p =
     (if name \<in> set (pr_registry p) then None else Some (p\<lparr>pr_registry := name # pr_registry p\<rparr>))"

definition NewPrometheusAdapter :: "metrics_config \<Rightarrow> prometheus option" where
  "NewPrometheusAdapter metricsConfig =
     (let p = \<lparr>pr_registry = [], pr_backends = [], pr_sync_errors = [], pr_durations = [],
        pr_sync_upstreams = 0, pr_isLeader = False, pr_readyChecker = False,
        pr_config = metricsConfig, pr_httpServer = False\<rparr>
      in Option.bind (MustRegister ''go_build_info'' p) (\<lambda>p.
         Option.bind (MustRegister ''mlb_backends_total'' p) (\<lambda>p.
         Option.bind (MustRegister ''mlb_sync_errors_total'' p) (\<lambda>p.
         Option.bind (MustRegister ''mlb_sync_duration_seconds'' p) (\<lambda>p.
         MustRegister ''mlb_is_leader'' p)))))"

text \<open>\<open>NewCounter\<close>, \<open>NewGauge\<close> and \<open>NewHistogram\<close> register the new metric.\<close>

definition NewCounter :: "string \<Rightarrow> prometheus \<Rightarrow> prometheus option" where
  "NewCounter name p = MustRegister name p"

definition NewGauge :: "string \<Rightarrow> prometheus \<Rightarrow> prometheus option" where
  "NewGauge name p = MustRegister name p"

definition NewHistogram :: "string \<Rightarrow> prometheus \<Rightarrow> prometheus option" where
  "NewHistogram name p = MustRegister name p"

definition SetReadyChecker :: "prometheus \<Rightarrow> prometheus" where
  "SetReadyChecker p = p\<lparr>pr_readyChecker := True\<rparr>"

definition SetLeader :: "bool \<Rightarrow> prometheus \<Rightarrow> prometheus" where
  "SetLeader b p = p\<lparr>pr_isLeader := b\<rparr>"

text \<open>The function behind \<open>mlb_is_leader\<close>; \<open>elected\<close> is what the leader election says.\<close>

definition mlbIsLeader :: "prometheus \<Rightarrow> bool option \<Rightarrow> nat" where
  "mlbIsLeader p elected =
     (if pr_isLeader p then 1 else if elected = Some True then 1 else 0)"

definition counter_inc :: "string \<Rightarrow> (string, nat) gomap \<Rightarrow> (string, nat) gomap" where
  "counter_inc label m = AList.update label (Suc (case map_of m label of Some n \<Rightarrow> n | None \<Rightarrow> 0)) m"

text \<open>\<open>UpdateBackendsTotal\<close>, \<open>IncrementSyncErrors\<close>, \<open>ObserveSyncDuration\<close>, and the controller's own counter.\<close>

fun apply_metric :: "prometheus \<Rightarrow> metric_op \<Rightarrow> prometheus" where
  "apply_metric p (UpdateBackendsTotal upstream n) =
     p\<lparr>pr_backends := AList.update upstream n (pr_backends p)\<rparr>"
| "apply_metric p (IncrementSyncErrors upstream) =
     p\<lparr>pr_sync_errors := counter_inc upstream (pr_sync_errors p)\<rparr>"
| "apply_metric p (ObserveSyncDuration upstream) =
     p\<lparr>pr_durations := counter_inc upstream (pr_durations p)\<rparr>"
| "apply_metric p SyncUpstreamCtrInc = p\<lparr>pr_sync_upstreams := Suc (pr_sync_upstreams p)\<rparr>"

text \<open>
  The instruments that \<open>NewCounter\<close>, \<open>NewGauge\<close> and \<open>NewHistogram\<close> hand out pass each call on to the
  instrument of the client library, which is a parameter: its values have type \<open>'f\<close>, and adding to
  a counter may panic. The labels that the three functions take are not used.
\<close>

record ('c, 'g, 'h, 'f) prometheus_lib =
  pl_CounterInc :: "'c \<Rightarrow> 'c"
  pl_CounterAdd :: "'f \<Rightarrow> 'c \<Rightarrow> 'c option"
  pl_GaugeSet :: "'f \<Rightarrow> 'g \<Rightarrow> 'g"
  pl_GaugeInc :: "'g \<Rightarrow> 'g"
  pl_GaugeDec :: "'g \<Rightarrow> 'g"
  pl_GaugeAdd :: "'f \<Rightarrow> 'g \<Rightarrow> 'g"
  pl_GaugeSub :: "'f \<Rightarrow> 'g \<Rightarrow> 'g"
  pl_HistogramObserve :: "'f \<Rightarrow> 'h \<Rightarrow> 'h"

datatype ('c, 'g, 'h) instrument = prometheusCounter 'c | prometheusGauge 'g | prometheusHistogram 'h

datatype 'f instrument_call =
  CounterInc | CounterAdd 'f | GaugeSet 'f | GaugeInc | GaugeDec | GaugeAdd 'f | GaugeSub 'f
  | HistogramObserve 'f

text \<open>A call on an instrument; \<open>None\<close> is a panic, or a method that the instrument does not have.\<close>

fun call_instrument ::
  "('c, 'g, 'h, 'f) prometheus_lib \<Rightarrow> 'f instrument_call \<Rightarrow> ('c, 'g, 'h) instrument \<Rightarrow>
    ('c, 'g, 'h) instrument option" where
  "call_instrument lib CounterInc (prometheusCounter c) = Some (prometheusCounter (pl_CounterInc lib c))"
| "call_instrument lib (CounterAdd delta) (prometheusCounter c) =
     map_option prometheusCounter (pl_CounterAdd lib delta c)"
| "call_instrument lib (GaugeSet v) (prometheusGauge g) = Some (prometheusGauge (pl_GaugeSet lib v g))"
| "call_instrument lib GaugeInc (prometheusGauge g) = Some (prometheusGauge (pl_GaugeInc lib g))"
| "call_instrument lib GaugeDec (prometheusGauge g) = Some (prometheusGauge (pl_GaugeDec lib g))"
| "call_instrument lib (GaugeAdd delta) (prometheusGauge g) = Some (prometheusGauge (pl_GaugeAdd lib delta g))"
| "call_instrument lib (GaugeSub delta) (prometheusGauge g) = Some (prometheusGauge (pl_GaugeSub lib delta g))"
| "call_instrument lib (HistogramObserve v) (prometheusHistogram h) =
     Some (prometheusHistogram (pl_HistogramObserve lib v h))"
| "call_instrument lib _ _ = None"

definition ProxyToLeader :: "goerror option" where
  "ProxyToLeader = None"

text \<open>The adapter after the calls that a controller has made.\<close>

definition after_calls :: "prometheus \<Rightarrow> 'w ctrl \<Rightarrow> prometheus" where
  "after_calls p c = foldl apply_metric p (metric_calls c)"

section \<open>The server\<close>

datatype route = MetricsRoute | HealthzRoute | ReadyzRoute

type_synonym mux = "(string, route) gomap"

definition mux_Handle :: "string \<Rightarrow> route \<Rightarrow> mux \<Rightarrow> mux option" where
  "mux_Handle pattern r m = (if has_key m pattern then None else Some (m @ [(pattern, r)]))"

definition metrics_uri :: "metrics_config \<Rightarrow> string" where
  "metrics_uri cfg =
     (let uri = (if met_URI cfg = '''' then ''/metrics'' else met_URI cfg)
      in if \<not> HasPrefix uri ''/'' then ''/'' @ uri else uri)"

definition Handler :: "prometheus \<Rightarrow> mux option" where
  "Handler p =
     Option.bind (mux_Handle (metrics_uri (pr_config p)) MetricsRoute []) (\<lambda>m.
     Option.bind (mux_Handle ''/healthz'' HealthzRoute m) (\<lambda>m.
     mux_Handle ''/readyz'' ReadyzRoute m))"

text \<open>
  \<open>ServeMux\<close> at a clean path: the pattern that is the path, otherwise the longest pattern ending
  in a slash that the path starts with.
\<close>

definition mux_match :: "mux \<Rightarrow> string \<Rightarrow> route option" where
  "mux_match m path =
     (case map_of m path of
        Some r \<Rightarrow> Some r
      | None \<Rightarrow>
          (case sort_key (\<lambda>e. - int (length (fst e)))
              (filter (\<lambda>e. HasSuffix (fst e) ''/'' \<and> HasPrefix path (fst e)) m) of
             [] \<Rightarrow> None | (_, r) # _ \<Rightarrow> Some r))"

text \<open>The probes; \<open>synced\<close> is the answer of the checker.\<close>

definition healthz :: "int \<times> string" where
  "healthz = (200, ''ok'')"

definition readyz :: "prometheus \<Rightarrow> bool \<Rightarrow> int \<times> string" where
  "readyz p synced =
     (if pr_readyChecker p \<and> \<not> synced then (503, ''informers not synced'') else (200, ''ok''))"

text \<open>\<open>Start\<close> builds the handler before it serves in a goroutine; \<open>Stop\<close> shuts the server down.\<close>

definition metrics_Start :: "prometheus \<Rightarrow> (goerror option \<times> prometheus) option" where
  "metrics_Start p =
     (case Handler p of None \<Rightarrow> None | Some _ \<Rightarrow> Some (None, p\<lparr>pr_httpServer := True\<rparr>))"

definition metrics_Stop :: "prometheus \<Rightarrow> goerror option \<Rightarrow> goerror option" where
  "metrics_Stop p shutdown = (if \<not> pr_httpServer p then None else shutdown)"

lemma Handler_None_iff: "Handler p = None \<longleftrightarrow> metrics_uri (pr_config p) \<in> {''/healthz'', ''/readyz''}"
  by (auto simp: Handler_def mux_Handle_def has_key_def)

text \<open>
  The probes cannot be hidden by the configured URI: where the handler is built, \<open>/healthz\<close>,
  \<open>/readyz\<close> and the URI each get their own handler, and the readiness probe fails exactly when
  there is a checker and it says that the informers are not synced.
\<close>

lemma Handler_routes:
  "(Handler p = None \<longleftrightarrow> metrics_uri (pr_config p) \<in> {''/healthz'', ''/readyz''}) \<and>
   (case Handler p of
      None \<Rightarrow> metrics_Start p = None
    | Some m \<Rightarrow>
        mux_match m ''/healthz'' = Some HealthzRoute \<and> mux_match m ''/readyz'' = Some ReadyzRoute \<and>
        mux_match m (metrics_uri (pr_config p)) = Some MetricsRoute) \<and>
   (fst (readyz p synced) = 503 \<longleftrightarrow> pr_readyChecker p \<and> \<not> synced)"
  by (auto simp: Handler_def mux_Handle_def mux_match_def has_key_def metrics_Start_def readyz_def)

end
