(* ===== verification/Application.thy ===== *)
theory Application
  imports LeaderElection Metrics
begin

text \<open>
  \<open>internal/application/app.go\<close>: \<open>App.Start\<close> up to where it blocks, its two callbacks, and \<open>Stop\<close> as
  functions, and the goroutines it leaves running as a step relation: \<open>StartInformers\<close>, \<open>Run\<close> of the
  leader election in both of its branches, the controllers that are started, and \<open>Start\<close> itself
  waiting for its context. Of client-go's elector the rules have what its documentation says:
  \<open>Run\<close> first acquires the lease, then calls \<open>OnStartedLeading\<close> in a goroutine of its own and holds
  the lease until it loses it or the context is done; it ends the context it gave to that
  callback, and it calls \<open>OnStoppedLeading\<close> before it returns, also if it never led.
\<close>

section \<open>State\<close>

text \<open>A goroutine with a controller: its context, and where it is.\<close>

datatype controller_pc = CtlStarting | CtlRunning | CtlReturned goerror

record app_core =
  co_metrics :: prometheus
  co_k8s :: k8s_adapter
  co_cancelled :: bool
  co_controllers :: "(leading_ctx \<times> controller_pc) list"

text \<open>Where \<open>Run\<close> is; \<open>RunReturned\<close> is back in the goroutine of \<open>App\<close>, which then ends.\<close>

datatype run_pc =
    RunStart
  | RunWaiting
  | RunAcquiring
  | RunHolding
  | RunStopping
  | RunReturned "goerror option"
  | RunDone "goerror option"

record app =
  app_core :: app_core
  app_election :: "app_core leader_election"
  app_run :: run_pc
  app_starting :: bool
  app_electorCtxDone :: bool
  app_informers :: bool
  app_returned :: bool

section \<open>Start and Stop\<close>

definition cancel :: "app_core \<Rightarrow> app_core" where
  "cancel s = s\<lparr>co_cancelled := True\<rparr>"

definition OnStartedLeading :: "leading_ctx \<Rightarrow> app_core \<Rightarrow> app_core" where
  "OnStartedLeading leadingCtx s =
     s\<lparr>co_metrics := SetLeader True (co_metrics s),
       co_controllers := co_controllers s @ [(leadingCtx, CtlStarting)]\<rparr>"

definition OnStoppedLeading :: "app_core \<Rightarrow> app_core" where
  "OnStoppedLeading s = cancel (s\<lparr>co_metrics := SetLeader False (co_metrics s)\<rparr>)"

text \<open>
  \<open>Start\<close> until it blocks: a panic is \<open>None\<close>, an early return its error. The goroutines of the
  informers and of \<open>Run\<close> have not made a step yet.
\<close>

definition App_Start ::
  "config \<Rightarrow> prometheus \<Rightarrow> k8s_adapter \<Rightarrow> app_core leader_election \<Rightarrow> (goerror + app) option" where
  "App_Start cfg metrics k8s election =
     (let metrics = SetReadyChecker metrics;
          metrics = SetLeader (IsLeader election) metrics;
          served = (if met_Enabled (cfg_Metrics cfg) then metrics_Start metrics else Some (None, metrics))
      in case served of
           None \<Rightarrow> None
         | Some (Some e, _) \<Rightarrow> Some (Inl e)
         | Some (None, metrics) \<Rightarrow>
             Some (Inr \<lparr>app_core = \<lparr>co_metrics = metrics, co_k8s = k8s, co_cancelled = False, co_controllers = []\<rparr>,
               app_election = SetCallbacks \<lparr>cb_OnStartedLeading = Some OnStartedLeading,
                   cb_OnStoppedLeading = Some OnStoppedLeading\<rparr> election,
               app_run = RunStart, app_starting = False, app_electorCtxDone = False,
               app_informers = True, app_returned = False\<rparr>))"

text \<open>\<open>Stop\<close>, with the results of syncing the logger and of the server's shutdown.\<close>

definition App_Stop :: "config \<Rightarrow> goerror option \<Rightarrow> goerror option \<Rightarrow> prometheus \<Rightarrow> goerror option" where
  "App_Stop cfg synced shutdown metrics =
     (let errs = (case synced of Some e \<Rightarrow> [e] | None \<Rightarrow> []);
          errs = (if met_Enabled (cfg_Metrics cfg)
                  then errs @ (case metrics_Stop metrics shutdown of Some e \<Rightarrow> [e] | None \<Rightarrow> [])
                  else errs)
      in ErrorOrNil errs)"

section \<open>The goroutines\<close>

definition set_core :: "app_core \<Rightarrow> app \<Rightarrow> app" where
  "set_core s a = a\<lparr>app_core := s\<rparr>"

text \<open>A change of the leadership, on the parts of the state that it concerns.\<close>

definition change_leader ::
  "(app_core leader_election \<times> app_core \<Rightarrow> app_core leader_election \<times> app_core) \<Rightarrow> app \<Rightarrow> app" where
  "change_leader f a =
     (case f (app_election a, app_core a) of (k, s) \<Rightarrow> a\<lparr>app_election := k, app_core := s\<rparr>)"

abbreviation cancelled :: "app \<Rightarrow> bool" where
  "cancelled a \<equiv> co_cancelled (app_core a)"

text \<open>Whether a context is done: the elector's is, at the latest, when the application's is.\<close>

fun ctx_done :: "app \<Rightarrow> leading_ctx \<Rightarrow> bool" where
  "ctx_done a AppCtx = cancelled a"
| "ctx_done a ElectorCtx = (cancelled a \<or> app_electorCtxDone a)"

definition elected :: "app \<Rightarrow> bool" where
  "elected a = le_Enabled (el_config (app_election a))"

text \<open>
  The beginning of a controller: the watches, and the return of \<open>Start\<close> if one of them failed.
\<close>

definition begin_controller ::
  "'w deps \<Rightarrow> 'w ctrl \<Rightarrow> watch_answers \<Rightarrow> goerror \<Rightarrow> k8s_adapter \<Rightarrow> controller_pc \<times> k8s_adapter" where
  "begin_controller d c wa ctxErr k =
     (case register_watches wa ctxErr k of
        (env, k) \<Rightarrow> (if start_failed env then CtlReturned (fst (Start env d c)) else CtlRunning, k))"

definition set_controller :: "nat \<Rightarrow> controller_pc \<Rightarrow> app_core \<Rightarrow> app_core" where
  "set_controller i pc s =
     s\<lparr>co_controllers := (co_controllers s)[i := (fst (co_controllers s ! i), pc)]\<rparr>"

text \<open>
  \<open>Run\<close>, with the election switched off and on, and the elector's goroutine that runs
  \<open>OnStartedLeading\<close>.
\<close>

inductive Run_step :: "app \<Rightarrow> app \<Rightarrow> bool" where
  disabled: "app_run a = RunStart \<Longrightarrow> \<not> elected a \<Longrightarrow>
    Run_step a ((change_leader (started_leading AppCtx) a)\<lparr>app_run := RunWaiting\<rparr>)"
| disabled_stop: "app_run a = RunWaiting \<Longrightarrow> cancelled a \<Longrightarrow>
    Run_step a ((change_leader stopped_leading a)\<lparr>app_run := RunReturned None\<rparr>)"
| elector_failed: "app_run a = RunStart \<Longrightarrow> elected a \<Longrightarrow>
    Run_step a (a\<lparr>app_run := RunReturned (Some (Wrapf ''failed to create leader elector'' e))\<rparr>)"
| elector_run: "app_run a = RunStart \<Longrightarrow> elected a \<Longrightarrow> Run_step a (a\<lparr>app_run := RunAcquiring\<rparr>)"
| elector_acquired: "app_run a = RunAcquiring \<Longrightarrow>
    Run_step a (a\<lparr>app_run := RunHolding, app_starting := True\<rparr>)"
| elector_gave_up: "app_run a = RunAcquiring \<Longrightarrow> cancelled a \<Longrightarrow> Run_step a (a\<lparr>app_run := RunStopping\<rparr>)"
| elector_starts: "app_starting a \<Longrightarrow>
    Run_step a ((change_leader (started_leading ElectorCtx) a)\<lparr>app_starting := False\<rparr>)"
| elector_lost: "app_run a = RunHolding \<Longrightarrow>
    Run_step a (a\<lparr>app_run := RunStopping, app_electorCtxDone := True\<rparr>)"
| elector_returns: "app_run a = RunStopping \<Longrightarrow> a' = change_leader stopped_leading a \<Longrightarrow>
    Run_step a (a'\<lparr>app_run := RunReturned (run_result (cancelled a'))\<rparr>)"

inductive_cases Run_stepE: "Run_step a a'"

text \<open>All goroutines, with the signal that ends the context \<open>App.Start\<close> was given.\<close>

inductive app_step :: "'w deps \<Rightarrow> app \<Rightarrow> app \<Rightarrow> bool" for d where
  signal: "\<not> cancelled a \<Longrightarrow> app_step d a (set_core (cancel (app_core a)) a)"
| informers: "app_informers a \<Longrightarrow> synced \<or> cancelled a \<Longrightarrow>
    StartInformers synced (Some (co_k8s (app_core a))) = (r, Some k) \<Longrightarrow>
    app_step d a (set_core ((app_core a)\<lparr>co_k8s := k\<rparr>) (a\<lparr>app_informers := False\<rparr>))"
| run: "Run_step a a' \<Longrightarrow> app_step d a a'"
| run_returned: "app_run a = RunReturned r \<Longrightarrow>
    app_step d a (set_core (if r = None then app_core a else cancel (app_core a)) (a\<lparr>app_run := RunDone r\<rparr>))"
| controller_begins: "i < length (co_controllers (app_core a)) \<Longrightarrow>
    co_controllers (app_core a) ! i = (ctx, CtlStarting) \<Longrightarrow> wa_synced wa \<or> ctx_done a ctx \<Longrightarrow>
    begin_controller d c wa ctxErr (co_k8s (app_core a)) = (pc, k) \<Longrightarrow>
    app_step d a (set_core (set_controller i pc ((app_core a)\<lparr>co_k8s := k\<rparr>)) a)"
| controller_ends: "i < length (co_controllers (app_core a)) \<Longrightarrow>
    co_controllers (app_core a) ! i = (ctx, CtlRunning) \<Longrightarrow> ctx_done a ctx \<Longrightarrow>
    app_step d a (set_core (set_controller i (CtlReturned ctxErr) (app_core a)) a)"
| app_returns: "cancelled a \<Longrightarrow> \<not> app_returned a \<Longrightarrow> app_step d a (a\<lparr>app_returned := True\<rparr>)"

inductive_cases app_stepE: "app_step d a a'"

text \<open>The states of an application that has been started.\<close>

inductive app_reachable :: "'w deps \<Rightarrow> config \<Rightarrow> app \<Rightarrow> bool" for d cfg where
  start: "NewKubernetesAdapter ce (cfg_Kubernetes cfg) = Inr k8s \<Longrightarrow>
    NewKubernetesLeaderElection ce (cfg_LeaderElection cfg) (cfg_Kubernetes cfg) = Inr election \<Longrightarrow>
    App_Start cfg m k8s election = Some (Inr a) \<Longrightarrow> app_reachable d cfg a"
| step: "app_reachable d cfg a \<Longrightarrow> app_step d a a' \<Longrightarrow> app_reachable d cfg a'"

end
