(* ===== verification/ApplicationProps.thy ===== *)
theory ApplicationProps
  imports Application
begin

text \<open>
  What the application promises: a controller runs with a live context only while the lease is
  held or the election is switched off, there is never more than one, losing the lease ends the
  application, and every run of the goroutines is finite and ends with all of them returned.
\<close>

section \<open>Every run ends\<close>

text \<open>How many steps are left at most.\<close>

fun run_weight :: "run_pc \<Rightarrow> nat" where
  "run_weight RunStart = 10"
| "run_weight RunWaiting = 3"
| "run_weight RunAcquiring = 9"
| "run_weight RunHolding = 4"
| "run_weight RunStopping = 3"
| "run_weight (RunReturned r) = 2"
| "run_weight (RunDone r) = 0"

fun controller_weight :: "controller_pc \<Rightarrow> nat" where
  "controller_weight CtlStarting = 2"
| "controller_weight CtlRunning = 1"
| "controller_weight (CtlReturned e) = 0"

definition core_weight :: "app_core \<Rightarrow> nat" where
  "core_weight s = of_bool (\<not> co_cancelled s) + sum_list (map (controller_weight \<circ> snd) (co_controllers s))"

definition app_weight :: "app \<Rightarrow> nat" where
  "app_weight a =
     run_weight (app_run a) + 3 * of_bool (app_starting a) + of_bool (app_informers a) +
     of_bool (\<not> app_returned a) + core_weight (app_core a)"

lemma core_weight_cancel: "core_weight (cancel s) = core_weight s - of_bool (\<not> co_cancelled s)"
  by (simp add: core_weight_def cancel_def)

lemma core_weight_set_controller:
  assumes "i < length (co_controllers s)" and "controller_weight pc < controller_weight (snd (co_controllers s ! i))"
  shows "core_weight (set_controller i pc s) < core_weight s"
proof -
  have "map (controller_weight \<circ> snd) (co_controllers (set_controller i pc s)) =
      (map (controller_weight \<circ> snd) (co_controllers s))[i := controller_weight pc]"
    by (simp add: set_controller_def map_update)
  moreover have "(map (controller_weight \<circ> snd) (co_controllers s)) ! i \<le>
      sum_list (map (controller_weight \<circ> snd) (co_controllers s))"
    by (rule elem_le_sum_list) (use assms(1) in simp)
  ultimately show ?thesis
    using assms by (simp add: core_weight_def set_controller_def sum_list_update)
qed

lemma core_weight_k8s [simp]: "core_weight (s\<lparr>co_k8s := k\<rparr>) = core_weight s"
  by (simp add: core_weight_def)

text \<open>The callbacks are those of \<open>App\<close>; what they do to the state.\<close>

definition wired :: "app \<Rightarrow> bool" where
  "wired a \<longleftrightarrow> el_callbacks (app_election a) =
     \<lparr>cb_OnStartedLeading = Some OnStartedLeading, cb_OnStoppedLeading = Some OnStoppedLeading\<rparr>"

lemma change_leader_wired:
  assumes "wired a"
  shows "change_leader (started_leading ctx) a =
      a\<lparr>app_election := (app_election a)\<lparr>el_isLeader := True\<rparr>, app_core := OnStartedLeading ctx (app_core a)\<rparr>"
    and "change_leader stopped_leading a =
      a\<lparr>app_election := (app_election a)\<lparr>el_isLeader := False\<rparr>, app_core := OnStoppedLeading (app_core a)\<rparr>"
  using assms by (simp_all add: change_leader_def started_leading_def stopped_leading_def wired_def)

lemma core_weight_callbacks:
  "core_weight (OnStartedLeading ctx s) = core_weight s + 2"
  "core_weight (OnStoppedLeading s) = core_weight (cancel s)"
  by (simp_all add: core_weight_def OnStartedLeading_def OnStoppedLeading_def cancel_def)

lemma begin_controller_pc:
  "begin_controller d c wa e k = (pc, k') \<Longrightarrow> pc = CtlRunning \<or> (\<exists>e. pc = CtlReturned e)"
  by (auto simp: begin_controller_def split: prod.splits if_splits)

lemma Run_step_weight:
  assumes "Run_step a a'" and "wired a"
  shows "app_weight a' < app_weight a"
  using assms(1)
  by cases (use assms(2) in \<open>auto simp: app_weight_def change_leader_wired core_weight_callbacks
      core_weight_cancel\<close>)

lemma app_step_weight:
  assumes "app_step d a a'" and "wired a"
  shows "app_weight a' < app_weight a"
  using assms(1)
proof (cases rule: app_step.cases)
  case (controller_begins i ctx wa c ctxErr pc k)
  have "core_weight (set_controller i pc ((app_core a)\<lparr>co_k8s := k\<rparr>)) < core_weight ((app_core a)\<lparr>co_k8s := k\<rparr>)"
    using begin_controller_pc [OF controller_begins(5)] controller_begins(2,3)
    by (intro core_weight_set_controller) auto
  with controller_begins(1) show ?thesis by (simp add: app_weight_def set_core_def)
next
  case (controller_ends i ctx e)
  have "core_weight (set_controller i (CtlReturned e) (app_core a)) < core_weight (app_core a)"
    using controller_ends by (intro core_weight_set_controller) auto
  with controller_ends(1) show ?thesis by (simp add: app_weight_def set_core_def)
next
  case signal
  then show ?thesis
    by (simp add: app_weight_def set_core_def core_weight_def cancel_def)
qed (use assms(2) Run_step_weight in \<open>auto simp: app_weight_def set_core_def core_weight_cancel\<close>)

text \<open>All goroutines have returned.\<close>

definition app_finished :: "app \<Rightarrow> bool" where
  "app_finished a \<longleftrightarrow>
     cancelled a \<and> app_returned a \<and> \<not> app_informers a \<and> \<not> app_starting a \<and>
     (\<exists>r. app_run a = RunDone r) \<and>
     list_all (\<lambda>(ctx, pc). \<exists>e. pc = CtlReturned e) (co_controllers (app_core a))"

lemma StartInformers_total: "\<exists>r k'. StartInformers synced (Some k) = (r, Some k')"
  by (simp add: StartInformers_def split: prod.split)

lemma controller_can_step:
  assumes "i < length (co_controllers (app_core a))" and "co_controllers (app_core a) ! i = (ctx, pc)"
    and "\<nexists>e. pc = CtlReturned e" and "cancelled a"
  shows "\<exists>a'. app_step d a a'"
proof (cases pc)
  case CtlStarting
  let ?wa = "\<lparr>wa_services = None, wa_pods = None, wa_nodes = None, wa_synced = True\<rparr>"
  obtain c pc' k where "begin_controller d c ?wa (Errorf '''') (co_k8s (app_core a)) = (pc', k)"
    by (meson surj_pair)
  then have "app_step d a (set_core (set_controller i pc' ((app_core a)\<lparr>co_k8s := k\<rparr>)) a)"
    using CtlStarting assms by (intro app_step.controller_begins) simp_all
  then show ?thesis ..
next
  case CtlRunning
  then show ?thesis
    using app_step.controller_ends [of i a ctx d] assms by (cases ctx) auto
qed (use assms in simp)

lemma app_stuck_iff: "(\<nexists>a'. app_step d a a') \<longleftrightarrow> app_finished a"
proof
  assume stuck: "\<nexists>a'. app_step d a a'"
  then have can: "cancelled a" using app_step.signal by blast
  have "app_returned a" using stuck can app_step.app_returns by blast
  moreover have "\<not> app_informers a"
    using stuck StartInformers_total [of True "co_k8s (app_core a)"] app_step.informers by metis
  moreover have run: "\<not> Run_step a a'" for a'
    using stuck app_step.run by blast
  then have "\<not> app_starting a" using Run_step.elector_starts by blast
  moreover have "\<exists>r. app_run a = RunDone r"
  proof (cases "app_run a")
    case RunStart
    then show ?thesis
      using run Run_step.disabled [of a] Run_step.elector_run [of a] by blast
  next
    case RunStopping
    then show ?thesis using run Run_step.elector_returns [of a] by blast
  next
    case (RunReturned r)
    then show ?thesis using stuck app_step.run_returned [of a r d] by blast
  qed (use run can Run_step.disabled_stop [of a] Run_step.elector_acquired [of a]
      Run_step.elector_lost [of a] in auto)
  moreover have "list_all (\<lambda>(ctx, pc). \<exists>e. pc = CtlReturned e) (co_controllers (app_core a))"
    using stuck controller_can_step [OF _ _ _ can, of _ _ _ d] by (fastforce simp: list_all_length)
  ultimately show "app_finished a" using can by (simp add: app_finished_def)
next
  assume "app_finished a"
  then show "\<nexists>a'. app_step d a a'"
    by (fastforce simp: app_finished_def list_all_length elim!: app_stepE Run_stepE)
qed

section \<open>The invariant\<close>

text \<open>
  What each stage of \<open>Run\<close> says about the leadership and the controllers: none before the lease is
  held, one afterwards (its callback may still be on its way), and a dead context from the moment
  the lease is given up.
\<close>

definition controllers :: "app \<Rightarrow> nat" where
  "controllers a = length (co_controllers (app_core a)) + of_bool (app_starting a)"

definition elector_error :: "goerror option \<Rightarrow> bool" where
  "elector_error r \<longleftrightarrow> (\<exists>e. r = Some (Wrapf ''failed to create leader elector'' e))"

fun stage_ok :: "run_pc \<Rightarrow> app \<Rightarrow> bool" where
  "stage_ok RunStart a \<longleftrightarrow> controllers a = 0 \<and> \<not> IsLeader (app_election a)"
| "stage_ok RunWaiting a \<longleftrightarrow> \<not> elected a \<and> controllers a = 1 \<and> \<not> app_starting a \<and> IsLeader (app_election a)"
| "stage_ok RunAcquiring a \<longleftrightarrow> elected a \<and> controllers a = 0 \<and> \<not> IsLeader (app_election a)"
| "stage_ok RunHolding a \<longleftrightarrow> elected a \<and> controllers a = 1 \<and> (IsLeader (app_election a) \<longleftrightarrow> \<not> app_starting a)"
| "stage_ok RunStopping a \<longleftrightarrow> elected a \<and>
     (controllers a = 0 \<and> cancelled a \<or> controllers a = 1 \<and> app_electorCtxDone a)"
| "stage_ok (RunReturned r) a \<longleftrightarrow>
     (r = None \<and> cancelled a \<and> controllers a \<le> 1) \<or>
     (elector_error r \<and> controllers a = 0 \<and> \<not> IsLeader (app_election a))"
| "stage_ok (RunDone r) a \<longleftrightarrow>
     cancelled a \<and> (r = None \<or> elector_error r) \<and> controllers a \<le> 1"

definition app_ok :: "config \<Rightarrow> app \<Rightarrow> bool" where
  "app_ok cfg a \<longleftrightarrow>
     wired a \<and> el_config (app_election a) = cfg_LeaderElection cfg \<and>
     stage_ok (app_run a) a \<and>
     list_all (\<lambda>(ctx, pc). ctx = (if elected a then ElectorCtx else AppCtx)) (co_controllers (app_core a)) \<and>
     (app_starting a \<longrightarrow> elected a) \<and>
     (pr_isLeader (co_metrics (app_core a)) \<longleftrightarrow> IsLeader (app_election a)) \<and>
     (app_returned a \<longrightarrow> cancelled a) \<and>
     app_weight a \<le> 13"

lemma set_controller_simps [simp]:
  "length (co_controllers (set_controller i pc s)) = length (co_controllers s)"
  "co_cancelled (set_controller i pc s) = co_cancelled s"
  "co_metrics (set_controller i pc s) = co_metrics s"
  by (simp_all add: set_controller_def)

lemma set_controller_ctx:
  "list_all (\<lambda>(ctx, pc). ctx = x) (co_controllers s) \<Longrightarrow>
     list_all (\<lambda>(ctx, pc). ctx = x) (co_controllers (set_controller i pc s))"
  by (cases "i < length (co_controllers s)")
    (auto simp: set_controller_def list_all_length nth_list_update split_beta)

text \<open>The stages do not look at where the controllers are.\<close>

lemma stage_ok_cong:
  assumes "controllers a' = controllers a" and "app_election a' = app_election a"
    and "app_starting a' = app_starting a" and "cancelled a \<Longrightarrow> cancelled a'"
    and "app_electorCtxDone a' = app_electorCtxDone a"
  shows "stage_ok pc a \<Longrightarrow> stage_ok pc a'"
  using assms by (cases pc) (auto simp: elected_def)

lemmas app_ok_defs = app_ok_def set_core_def wired_def elected_def controllers_def

lemma Run_step_ok:
  assumes "Run_step a a'" and "app_ok cfg a"
  shows "app_ok cfg a'"
proof -
  from assms(2) have wired: "wired a" by (simp add: app_ok_def)
  note leader = change_leader_wired [OF wired] OnStartedLeading_def OnStoppedLeading_def cancel_def
    SetLeader_def IsLeader_def
  have weight: "app_weight a' \<le> 13"
    using Run_step_weight [OF assms(1) wired] assms(2) by (simp add: app_ok_def)
  show ?thesis
    using assms(1)
  proof cases
    case elector_starts
    with assms(2) weight show ?thesis
      by (cases "app_run a") (auto simp: app_ok_defs leader elector_error_def)
  qed (use assms(2) weight in \<open>auto simp: app_ok_defs leader run_result_def elector_error_def\<close>)
qed

lemma app_step_ok:
  assumes "app_step d a a'" and "app_ok cfg a"
  shows "app_ok cfg a'"
proof -
  have "app_weight a' \<le> 13"
    using app_step_weight [OF assms(1)] assms(2) by (simp add: app_ok_def)
  note weight = this
  show ?thesis
    using assms(1)
  proof (cases rule: app_step.cases)
    case signal
    with assms(2) weight show ?thesis
      by (auto simp: app_ok_defs cancel_def elim!: stage_ok_cong [rotated -1])
  next
    case (informers synced r k)
    with assms(2) weight show ?thesis
      by (auto simp: app_ok_defs elim!: stage_ok_cong [rotated -1])
  next
    case (controller_begins i ctx wa c e pc k)
    with assms(2) weight show ?thesis
      by (auto simp: app_ok_defs set_controller_ctx elim!: stage_ok_cong [rotated -1])
  next
    case (controller_ends i ctx e)
    with assms(2) weight show ?thesis
      by (auto simp: app_ok_defs set_controller_ctx elim!: stage_ok_cong [rotated -1])
  next
    case app_returns
    with assms(2) weight show ?thesis
      by (auto simp: app_ok_defs elim!: stage_ok_cong [rotated -1])
  next
    case run
    with assms(2) show ?thesis by (simp add: Run_step_ok)
  qed (use assms(2) weight in \<open>auto simp: app_ok_defs cancel_def elector_error_def\<close>)
qed

lemma App_Start_Inr:
  assumes "App_Start cfg m k8s election = Some (Inr a)"
  shows "app_run a = RunStart \<and> wired a \<and> el_config (app_election a) = el_config election \<and>
    IsLeader (app_election a) = IsLeader election \<and> \<not> cancelled a \<and> co_controllers (app_core a) = [] \<and>
    co_k8s (app_core a) = k8s \<and> \<not> app_starting a \<and> \<not> app_electorCtxDone a \<and> app_informers a \<and>
    \<not> app_returned a \<and> pr_isLeader (co_metrics (app_core a)) = IsLeader election"
  using assms
  by (auto simp: App_Start_def Let_def wired_def SetCallbacks_def IsLeader_def SetLeader_def
      SetReadyChecker_def metrics_Start_def split: if_splits option.splits sum.splits)

lemma NewKubernetesLeaderElection_Inr:
  "NewKubernetesLeaderElection ce leaderCfg k8sCfg = Inr k \<Longrightarrow>
     el_config k = leaderCfg \<and> \<not> IsLeader k \<and> el_callbacks k = no_callbacks"
  by (auto simp: NewKubernetesLeaderElection_def IsLeader_def split: if_splits option.splits)

lemma app_reachable_ok:
  assumes "app_reachable d cfg a"
  shows "app_ok cfg a"
  using assms
proof induction
  case (start ce k8s election m a)
  with App_Start_Inr [OF start(3)] NewKubernetesLeaderElection_Inr [OF start(2)] show ?case
    by (simp add: app_ok_def controllers_def app_weight_def core_weight_def)
next
  case (step a a')
  then show ?case by (simp add: app_step_ok)
qed

lemma app_steps_weight:
  assumes "(app_step d ^^ n) a a'" and "app_ok cfg a"
  shows "app_weight a' + n \<le> app_weight a \<and> app_ok cfg a'"
  using assms
proof (induction n arbitrary: a')
  case (Suc n)
  then obtain b where b: "(app_step d ^^ n) a b" "app_step d b a'" by auto
  with Suc have IH: "app_weight b + n \<le> app_weight a" "app_ok cfg b" by blast+
  with app_step_weight [OF b(2)] app_step_ok [OF b(2)] show ?case
    by (fastforce simp: app_ok_def)
qed simp

section \<open>Properties\<close>



section \<open>Shutting down and failing while leading\<close>

definition fresh_k8s :: "k8s_adapter \<Rightarrow> bool" where
  "fresh_k8s k \<longleftrightarrow> ka_informerFactory k \<and> \<not> ka_startOnce k \<and> ka_startErr k = None"

text \<open>The lease is held and the controller is about to begin.\<close>

lemma leading_state:
  assumes "le_Enabled (cfg_LeaderElection cfg)" and "\<not> met_Enabled (cfg_Metrics cfg)"
  obtains a where "app_reachable d cfg a" and "\<not> cancelled a" and "\<not> app_returned a"
    and "app_run a = RunHolding" and "co_controllers (app_core a) = [(ElectorCtx, CtlStarting)]"
    and "fresh_k8s (co_k8s (app_core a))"
proof -
  let ?ce = "\<lparr>ce_BuildConfigFromFlags = (\<lambda>_. None), ce_NewForConfig = (\<lambda>_. None)\<rparr>"
  obtain k8s where k8s: "NewKubernetesAdapter ?ce (cfg_Kubernetes cfg) = Inr k8s" "fresh_k8s k8s"
    by (simp add: NewKubernetesAdapter_def fresh_k8s_def)
  obtain el :: "app_core leader_election" where
    el: "NewKubernetesLeaderElection ?ce (cfg_LeaderElection cfg) (cfg_Kubernetes cfg) = Inr el"
    using assms(1) by (simp add: NewKubernetesLeaderElection_def)
  obtain m where "NewPrometheusAdapter (cfg_Metrics cfg) = Some m"
    by (simp add: NewPrometheusAdapter_def MustRegister_def Let_def)
  obtain a where a: "App_Start cfg m k8s el = Some (Inr a)"
    using assms(2) by (simp add: App_Start_def Let_def)
  note a0 = App_Start_Inr [OF a]
  have elected: "elected a" and wired: "wired a"
    using a0 NewKubernetesLeaderElection_Inr [OF el] assms(1) by (simp_all add: elected_def)
  have r0: "app_reachable d cfg a" by (rule app_reachable.start [OF k8s(1) el a])
  let ?a2 = "a\<lparr>app_run := RunHolding, app_starting := True\<rparr>"
  have r2: "app_reachable d cfg ?a2"
    using app_reachable.step [OF app_reachable.step [OF r0 app_step.run [OF Run_step.elector_run]]
        app_step.run [OF Run_step.elector_acquired]] a0 elected by simp
  have wired2: "wired ?a2" using wired by (simp add: wired_def)
  let ?a3 = "(change_leader (started_leading ElectorCtx) ?a2)\<lparr>app_starting := False\<rparr>"
  have "app_reachable d cfg ?a3"
    by (rule app_reachable.step [OF r2 app_step.run [OF Run_step.elector_starts]]) simp
  then show ?thesis
    by (rule that) (use a0 k8s(2) in \<open>simp_all add: change_leader_wired [OF wired2] OnStartedLeading_def\<close>)
qed

lemma controller_begins_first:
  assumes "app_reachable d cfg a" and "co_controllers (app_core a) = [(ctx, CtlStarting)]"
    and "wa_synced wa" and "begin_controller d c wa e (co_k8s (app_core a)) = (pc, k)"
  shows "app_reachable d cfg (set_core ((app_core a)\<lparr>co_k8s := k, co_controllers := [(ctx, pc)]\<rparr>) a)"
proof -
  have "app_step d a (set_core (set_controller 0 pc ((app_core a)\<lparr>co_k8s := k\<rparr>)) a)"
    using assms(2-4) by (intro app_step.controller_begins) simp_all
  with app_reachable.step [OF assms(1)] assms(2) show ?thesis by (simp add: set_controller_def)
qed

text \<open>
  \<open>Start\<close> waits for its context only, not for the goroutines: it can return, and the process with
  it, while the lease is still held and a controller is in the middle of its work, although the
  elector is configured to release the lease when it is cancelled.
\<close>

lemma shutdown_leaves_lease:
  assumes "le_Enabled (cfg_LeaderElection cfg)" and "\<not> met_Enabled (cfg_Metrics cfg)"
  shows "\<exists>a. app_reachable d cfg a \<and> app_returned a \<and> app_run a = RunHolding \<and>
    co_controllers (app_core a) = [(ElectorCtx, CtlRunning)]"
proof -
  obtain a where a: "app_reachable d cfg a" "\<not> cancelled a" "\<not> app_returned a" "app_run a = RunHolding"
      "co_controllers (app_core a) = [(ElectorCtx, CtlStarting)]" "fresh_k8s (co_k8s (app_core a))"
    by (rule leading_state [OF assms])
  let ?wa = "\<lparr>wa_services = None, wa_pods = None, wa_nodes = None, wa_synced = True\<rparr>"
  obtain k where k: "begin_controller d c ?wa (Errorf '''') (co_k8s (app_core a)) = (CtlRunning, k)" for c
    using register_watches_ok [of "co_k8s (app_core a)" ?wa "Errorf ''''"] a(6)
    by (cases "register_watches ?wa (Errorf '''') (co_k8s (app_core a))")
      (simp add: begin_controller_def fresh_k8s_def)
  have r4: "app_reachable d cfg (set_core ((app_core a)\<lparr>co_k8s := k, co_controllers := [(ElectorCtx, CtlRunning)]\<rparr>) a)"
    (is "app_reachable d cfg ?a4")
    by (rule controller_begins_first [OF a(1,5) _ k]) simp
  let ?a5 = "set_core (cancel (app_core ?a4)) ?a4"
  have "app_reachable d cfg ?a5"
    by (rule app_reachable.step [OF r4 app_step.signal]) (use a in \<open>simp add: set_core_def\<close>)
  then have "app_reachable d cfg (?a5\<lparr>app_returned := True\<rparr>)"
    by (rule app_reachable.step [OF _ app_step.app_returns]) (use a in \<open>simp_all add: set_core_def cancel_def\<close>)
  with a(4) show ?thesis by (intro exI [of _ "?a5\<lparr>app_returned := True\<rparr>"]) (simp add: set_core_def cancel_def)
qed

text \<open>
  A controller whose \<open>Start\<close> fails is only reported: the replica goes on holding the lease, and
  saying that it leads, with no controller at work.
\<close>

lemma failed_controller_keeps_lease:
  assumes "le_Enabled (cfg_LeaderElection cfg)" and "\<not> met_Enabled (cfg_Metrics cfg)"
  shows "\<exists>a. app_reachable d cfg a \<and> \<not> cancelled a \<and> app_run a = RunHolding \<and>
    co_controllers (app_core a) = [(ElectorCtx, CtlReturned (Wrapf ''failed to register service watcher'' e))]"
proof -
  obtain a where a: "app_reachable d cfg a" "\<not> cancelled a" "\<not> app_returned a" "app_run a = RunHolding"
      "co_controllers (app_core a) = [(ElectorCtx, CtlStarting)]" "fresh_k8s (co_k8s (app_core a))"
    by (rule leading_state [OF assms])
  let ?wa = "\<lparr>wa_services = Some e, wa_pods = None, wa_nodes = None, wa_synced = True\<rparr>"
  have "begin_controller d c ?wa (Errorf '''') (co_k8s (app_core a)) =
      (CtlReturned (Wrapf ''failed to register service watcher'' e), co_k8s (app_core a))" for c
    by (simp add: begin_controller_def register_watches_def WatchServices_def start_failed_def Start_def)
  from controller_begins_first [OF a(1,5) _ this] have
    "app_reachable d cfg (set_core ((app_core a)\<lparr>co_k8s := co_k8s (app_core a), co_controllers :=
       [(ElectorCtx, CtlReturned (Wrapf ''failed to register service watcher'' e))]\<rparr>) a)" (is "app_reachable d cfg ?b")
    by simp
  moreover have "\<not> cancelled ?b" "app_run ?b = RunHolding"
      "co_controllers (app_core ?b) = [(ElectorCtx, CtlReturned (Wrapf ''failed to register service watcher'' e))]"
    using a(2,4) by (simp_all add: set_core_def)
  ultimately show ?thesis by blast
qed

text \<open>With the election on, a state where \<open>Start\<close> has returned while the lease is held.\<close>

definition elected_config :: config where
  "elected_config = demo_config\<lparr>cfg_LeaderElection := (cfg_LeaderElection demo_config)\<lparr>le_Enabled := True\<rparr>\<rparr>"

lemma elected_config_state:
  "\<exists>a. app_reachable (demo_deps []) elected_config a \<and> app_returned a \<and> app_run a = RunHolding \<and>
    co_controllers (app_core a) = [(ElectorCtx, CtlRunning)]"
  by (rule shutdown_leaves_lease) (simp_all add: elected_config_def demo_config_def)



end
