(* ===== verification/Wiring.thy ===== *)
theory Wiring
  imports ConfigLoader NginxSetup Logging ApplicationProps
begin

text \<open>
  \<open>internal/di/wire.go\<close> and \<open>cmd/mlb-controller/main.go\<close>: from the command line to the running
  application. What the process finds outside (files, certificates, the decoded configuration
  file for a path, the Kubernetes client library) is \<open>process_env\<close>, the same for all components.
  A panic is \<open>None\<close>; log output and the closing \<open>Sync\<close> are left out.
\<close>

section \<open>The container\<close>

record 'r process_env =
  pv_files :: files
  pv_x509 :: x509_env
  pv_loader :: "string \<Rightarrow> 'r loader_env"
  pv_client :: client_env

record container =
  ct_logger :: logger
  ct_config :: config
  ct_metrics :: prometheus
  ct_election :: "app_core leader_election"
  ct_k8s :: k8s_adapter
  ct_loadBalancers :: "(string, nginx_adapter) gomap"

text \<open>The production logger, with the bootstrap logger where it cannot be built.\<close>

definition prodLogger :: "logger \<Rightarrow> log_config \<Rightarrow> logger" where
  "prodLogger bootstrapLogger cfg =
     (if \<not> log_Enabled cfg then NewNop
      else (case logging_New (log_Level cfg) (log_Format cfg) of
              Inl _ \<Rightarrow> bootstrapLogger
            | Inr l \<Rightarrow> l))"

definition add_adapter ::
  "x509_env \<Rightarrow> (string, nginx_adapter) gomap \<Rightarrow> lb_config \<Rightarrow> goerror + (string, nginx_adapter) gomap" where
  "add_adapter x lbAdapters lb =
     (case CreateLoadBalancerAdapter x lb of
        Inl e \<Rightarrow> Inl (Wrapf (''failed to create load balancer adapter for '' @ GetName lb) e)
      | Inr ad \<Rightarrow> Inr (AList.update (GetName lb) ad lbAdapters))"

text \<open>
  \<open>NewContainer\<close>. Building the controller registers its counter with the metrics; the controller's
  state is \<open>NewController\<close>.
\<close>

definition NewContainer :: "'r process_env \<Rightarrow> string \<Rightarrow> (goerror + container) option" where
  "NewContainer p configPath =
     (case logging_New ''info'' ''json'' of
        Inl e \<Rightarrow> Some (Inl (Wrapf ''failed to initialize bootstrap logger'' e))
      | Inr bootstrapLogger \<Rightarrow>
     (case Load (FileLoader_Load (pv_files p) (pv_x509 p)) (pv_loader p configPath) of
        Inl e \<Rightarrow> Some (Inl (Wrapf ''failed to load config'' e))
      | Inr cfg \<Rightarrow>
     (case NewKubernetesAdapter (pv_client p) (cfg_Kubernetes cfg) of
        Inl e \<Rightarrow> Some (Inl (Wrapf ''failed to initialize Kubernetes client'' e))
      | Inr k8sClient \<Rightarrow>
     (case NewKubernetesLeaderElection (pv_client p) (cfg_LeaderElection cfg) (cfg_Kubernetes cfg) of
        Inl e \<Rightarrow> Some (Inl (Wrapf ''failed to initialize leader election'' e))
      | Inr election \<Rightarrow>
     (case NewPrometheusAdapter (cfg_Metrics cfg) of
        None \<Rightarrow> None
      | Some metrics \<Rightarrow>
     (let metrics = SetReadyChecker metrics in
      case fold_err (add_adapter (pv_x509 p)) [] (cfg_LoadBalancers cfg) of
        Inl e \<Rightarrow> Some (Inl e)
      | Inr lbAdapters \<Rightarrow>
     (case NewCounter ''mlb_sync_upstreams_total'' metrics of
        None \<Rightarrow> None
      | Some metrics \<Rightarrow>
          Some (Inr \<lparr>ct_logger = prodLogger bootstrapLogger (cfg_Log cfg), ct_config = cfg,
            ct_metrics = metrics, ct_election = election, ct_k8s = k8sClient,
            ct_loadBalancers = lbAdapters\<rparr>))))))))"

section \<open>The program\<close>

text \<open>
  The path of the configuration: the flag, else the environment unless it has the value of the
  image's default, else the file under \<open>/etc\<close> if it is there (\<open>stat\<close>), else the environment.
\<close>

definition resolvedConfigPath :: "string \<Rightarrow> string \<Rightarrow> (string \<Rightarrow> bool) \<Rightarrow> string" where
  "resolvedConfigPath configPath envPath stat =
     (if configPath \<noteq> '''' then configPath
      else if envPath \<noteq> '''' \<and> envPath \<noteq> ''/configs/config.yaml'' then envPath
      else if stat ''/etc/mlb-controller/config.yaml'' then ''/etc/mlb-controller/config.yaml''
      else if envPath \<noteq> '''' then envPath
      else ''/etc/mlb-controller/config.yaml'')"

text \<open>
  \<open>run\<close>: the error it returns, and the application if it was started; \<open>App.Start\<close> then blocks and
  returns no error. \<open>main\<close> turns an error into the exit code.
\<close>

definition main_run ::
  "'r process_env \<Rightarrow> string \<Rightarrow> string \<Rightarrow> (goerror option \<times> app option) option" where
  "main_run p configPath envPath =
     (case NewContainer p (resolvedConfigPath configPath envPath (fs_Stat (pv_files p))) of
        None \<Rightarrow> None
      | Some (Inl e) \<Rightarrow> Some (Some e, None)
      | Some (Inr c) \<Rightarrow>
     (case App_Start (ct_config c) (ct_metrics c) (ct_k8s c) (ct_election c) of
        None \<Rightarrow> None
      | Some (Inl e) \<Rightarrow> Some (Some e, None)
      | Some (Inr a) \<Rightarrow> Some (None, Some a)))"

definition exit_code :: "goerror option \<Rightarrow> int" where
  "exit_code err = (if err \<noteq> None then 1 else 0)"

section \<open>The adapters\<close>

lemma nginx_adapter_created:
  assumes "lb_loaded (FileLoader_Load fs x) lb" and "GetType lb = ''nginx''"
  shows "\<exists>ad. CreateLoadBalancerAdapter x lb = Inr ad \<and> lb = NginxConfig (na_config ad) \<and>
    map cl_baseURL (na_clients ad) =
      map (\<lambda>addr. ngx_Protocol (na_config ad) @ ''://'' @ JoinHostPort (addr_IP addr) (int_dec (addr_Port addr)))
        (GetAddresses lb)"
  using assms
proof (cases lb)
  case (NginxConfig c)
  then have certs: "certs_loaded (FileLoader_Load fs x) (ngx_CertPath c) (ngx_KeyPath c) (ngx_CAPath c)
      (ngx_Hostname c) (ngx_Cert c) (ngx_Key c) (ngx_CA c)" and type: "ngx_Type c = ''nginx''"
    using assms by simp_all
  from certs have "ngx_Cert c = '''' \<and> ngx_Key c = '''' \<or> good_pair x (ngx_Cert c) (ngx_Key c) (ngx_Hostname c)"
    and "ngx_CA c = '''' \<or> x5_AppendCertsFromPEM x (ngx_CA c)"
    by (auto simp: certs_loaded_def FileLoader_Load_Inr split: if_splits)
  from CreateLoadBalancerAdapter_nginx [OF type this] NginxConfig show ?thesis
    by (auto simp: new_client_def)
qed simp_all

lemma envoy_not_created:
  assumes "lb_loaded certLoader lb" and "GetType lb \<noteq> ''nginx''"
  shows "CreateLoadBalancerAdapter x lb = Inl (Errorf ''envoy adapter not implemented'')"
  using assms by (cases lb) (simp_all add: CreateLoadBalancerAdapter_def)

lemma update_fresh: "k \<notin> fst ` set m \<Longrightarrow> AList.update k v m = m @ [(k, v)]"
  by (induction m) auto

text \<open>The adapters of load balancers of the kind nginx, in order.\<close>

definition adapter_for :: "lb_config \<Rightarrow> string \<times> nginx_adapter \<Rightarrow> bool" where
  "adapter_for lb entry \<longleftrightarrow>
     fst entry = GetName lb \<and> lb = NginxConfig (na_config (snd entry)) \<and>
     map cl_baseURL (na_clients (snd entry)) =
       map (\<lambda>addr. ngx_Protocol (na_config (snd entry)) @ ''://'' @
           JoinHostPort (addr_IP addr) (int_dec (addr_Port addr))) (GetAddresses lb)"

lemma add_adapters:
  assumes "list_all (lb_loaded (FileLoader_Load fs x)) lbs" and "distinct (map GetName lbs)"
    and "fst ` set m \<inter> GetName ` set lbs = {}"
  shows "if list_all (\<lambda>lb. GetType lb = ''nginx'') lbs
    then \<exists>new. fold_err (add_adapter x) m lbs = Inr (m @ new) \<and> list_all2 adapter_for lbs new
    else \<exists>lb. lb \<in> set lbs \<and> fold_err (add_adapter x) m lbs =
      Inl (Wrapf (''failed to create load balancer adapter for '' @ GetName lb)
        (Errorf ''envoy adapter not implemented''))"
  using assms
proof (induction lbs arbitrary: m)
  case (Cons lb lbs)
  show ?case
  proof (cases "GetType lb = ''nginx''")
    case True
    with Cons.prems(1) nginx_adapter_created [of fs x lb]
    obtain ad where ad: "CreateLoadBalancerAdapter x lb = Inr ad" "adapter_for lb (GetName lb, ad)"
      by (auto simp: adapter_for_def)
    have step: "fold_err (add_adapter x) m (lb # lbs) = fold_err (add_adapter x) (m @ [(GetName lb, ad)]) lbs"
      using ad(1) Cons.prems(3) by (simp add: add_adapter_def update_fresh)
    have "if list_all (\<lambda>lb. GetType lb = ''nginx'') lbs
      then \<exists>new. fold_err (add_adapter x) (m @ [(GetName lb, ad)]) lbs = Inr ((m @ [(GetName lb, ad)]) @ new) \<and>
        list_all2 adapter_for lbs new
      else \<exists>lb'. lb' \<in> set lbs \<and> fold_err (add_adapter x) (m @ [(GetName lb, ad)]) lbs =
        Inl (Wrapf (''failed to create load balancer adapter for '' @ GetName lb')
          (Errorf ''envoy adapter not implemented''))"
      by (rule Cons.IH) (use Cons.prems in auto)
    with True ad(2) step show ?thesis
      by (auto split: if_splits)
  next
    case False
    with Cons.prems(1) show ?thesis
      by (auto simp: add_adapter_def envoy_not_created)
  qed
qed simp

lemma bootstrap_logger: "logging_New ''info'' ''json'' = Inr (Zap InfoLevel JSONEncoder)"
  by (simp add: logging_New_def parseLevel_def Let_def go_eval)

lemma prodLogger_Nop:
  assumes "config_ok cfg"
  shows "prodLogger (Zap l e) (cfg_Log cfg) = Nop \<longleftrightarrow> \<not> log_Enabled (cfg_Log cfg)"
  by (auto simp: prodLogger_def NewNop_def logging_New_def split: sum.split prod.splits option.splits)

lemma NewPrometheusAdapter_Some:
  "\<exists>m m'. NewPrometheusAdapter cfg = Some m \<and> NewCounter ''mlb_sync_upstreams_total'' (SetReadyChecker m) = Some m' \<and>
     pr_config m' = cfg"
  by (simp add: NewPrometheusAdapter_def MustRegister_def Let_def NewCounter_def SetReadyChecker_def)

lemma client_built:
  assumes "ce_BuildConfigFromFlags ce (kub_KubernetesConfig k) = None"
    and "ce_NewForConfig ce (kub_KubernetesConfig k) = None"
  shows "\<exists>a. NewKubernetesAdapter ce k = Inr a" and "\<exists>el. NewKubernetesLeaderElection ce leaderCfg k = Inr el"
  using assms by (simp_all add: NewKubernetesAdapter_def NewKubernetesLeaderElection_def)

lemma App_Start_outcome:
  assumes "pr_config m = cfg_Metrics cfg"
  shows "if met_Enabled (cfg_Metrics cfg) \<and> metrics_uri (cfg_Metrics cfg) \<in> {''/healthz'', ''/readyz''}
    then App_Start cfg m k el = None
    else \<exists>a. App_Start cfg m k el = Some (Inr a)"
proof -
  have conf: "pr_config (SetLeader b (SetReadyChecker m)) = cfg_Metrics cfg" for b
    using assms by (simp add: SetLeader_def SetReadyChecker_def)
  show ?thesis
    by (auto simp: App_Start_def Let_def metrics_Start_def Handler_None_iff conf split: option.splits)
      (metis Handler_None_iff conf insertI1 insertI2 option.distinct(1))+
qed

section \<open>Properties\<close>


text \<open>The demonstration configuration, with a file system without files.\<close>

definition demo_process :: "unit process_env" where
  "demo_process =
     \<lparr>pv_files = \<lparr>fs_Stat = (\<lambda>_. False), fs_ReadFile = (\<lambda>_. Inl (Errorf ''no such file''))\<rparr>,
      pv_x509 = \<lparr>x5_X509KeyPair = (\<lambda>_ _. Inl (Errorf ''no pair'')),
        x5_ParseCertificate = (\<lambda>_. Inl (Errorf ''no certificate'')), x5_AppendCertsFromPEM = (\<lambda>_. False),
        x5_Now = 0, x5_time_text = (\<lambda>_. '''')\<rparr>, pv_loader = (\<lambda>_. demo_env),
      pv_client = \<lparr>ce_BuildConfigFromFlags = (\<lambda>_. None), ce_NewForConfig = (\<lambda>_. None)\<rparr>\<rparr>"


end
