(* ===== verification/MetricsProps.thy ===== *)
theory MetricsProps
  imports Metrics ReconcileProps
begin

text \<open>
  What the gauge \<open>mlb_backends_total\<close> of the Prometheus adapter shows after the calls of a
  reconciliation.
\<close>

section \<open>The gauge after the calls of a controller\<close>

definition gauge :: "prometheus \<Rightarrow> 'w ctrl \<Rightarrow> string \<Rightarrow> nat option" where
  "gauge p c up = map_of (pr_backends (after_calls p c)) up"

lemma gauge_metric:
  "gauge p (metric (UpdateBackendsTotal up n) c) = (gauge p c)(up \<mapsto> n)"
  by (simp add: gauge_def after_calls_def update_conv' fun_eq_iff)

lemma gauge_same: "metric_calls c' = metric_calls c \<Longrightarrow> gauge p c' = gauge p c"
  by (simp add: gauge_def after_calls_def fun_eq_iff)

lemma apply_metrics_backends:
  assumes "\<forall>up n. UpdateBackendsTotal up n \<notin> set ops"
  shows "pr_backends (foldl apply_metric p ops) = pr_backends p"
  using assms
proof (induction ops arbitrary: p)
  case (Cons op ops)
  then show ?case by (cases op) auto
qed simp

lemma gauge_append:
  assumes "metric_calls c' = metric_calls c @ ops" and "\<forall>up n. UpdateBackendsTotal up n \<notin> set ops"
  shows "gauge p c' = gauge p c"
  by (simp add: gauge_def after_calls_def assms(1) apply_metrics_backends [OF assms(2)] fun_eq_iff)

lemma gauge_remove_loop:
  "gauge p (foldl (remove_upstream lb desired) c xs) up =
     (if map_of desired up = None \<and> slash_key lb up \<in> fst ` set xs then Some 0 else gauge p c up)"
proof (induction xs arbitrary: c)
  case (Cons x xs)
  have "gauge p (remove_upstream lb desired c x) up =
      (if map_of desired up = None \<and> fst x = slash_key lb up then Some 0 else gauge p c up)"
    by (auto simp: remove_upstream_def Let_def HasPrefix_slash TrimPrefix_slash has_key_def gauge_metric
        gauge_same [of "c\<lparr>st_Upstreams := m\<rparr>" c for m])
  with Cons.IH [of "remove_upstream lb desired c x"] show ?case
    by auto
qed simp

lemma gauge_store_loop:
  assumes "distinct (map fst desired)"
  shows "gauge p (foldl (store_upstream lb) c desired) up =
    (case map_of desired up of
       Some u \<Rightarrow> if up_PreserveExistingBackends u then gauge p c up else Some (length (up_Backends u))
     | None \<Rightarrow> gauge p c up)"
  using assms
proof (induction desired arbitrary: c)
  case (Cons e desired)
  obtain n u where e: "e = (n, u)" by fastforce
  have "map_of desired n = None" using Cons.prems by (simp add: e map_of_eq_None_iff)
  moreover have "gauge p (store_upstream lb c (n, u)) up =
      (if up = n \<and> \<not> up_PreserveExistingBackends u then Some (length (up_Backends u)) else gauge p c up)"
    by (simp add: store_upstream_def gauge_metric gauge_same [of "c\<lparr>st_Upstreams := m\<rparr>" c for m])
  ultimately show ?case
    using Cons by (auto simp: e split: option.split)
qed simp

lemma gauge_update_upstreams:
  assumes "distinct (map fst desired)"
  shows "gauge p (update_upstreams lb desired c) up =
    (case map_of desired up of
       Some u \<Rightarrow> if up_PreserveExistingBackends u then gauge p c up else Some (length (up_Backends u))
     | None \<Rightarrow> if has_key (st_Upstreams c) (slash_key lb up) then Some 0 else gauge p c up)"
proof -
  have "slash_key lb up \<in> fst ` set (st_Upstreams c) \<longleftrightarrow> has_key (st_Upstreams c) (slash_key lb up)"
    using map_of_eq_None_iff [of "st_Upstreams c" "slash_key lb up"] by (auto simp: has_key_def)
  then show ?thesis
    unfolding update_upstreams_def gauge_store_loop [OF assms] gauge_remove_loop
    by (cases "map_of desired up") simp_all
qed

lemma refresh_services_metrics: "metric_calls (refresh_services lb svcs c) = metric_calls c"
proof -
  have "metric_calls (foldl (refresh_service lb) c svcs) = metric_calls c"
    by (induction svcs arbitrary: c) (auto simp: refresh_service_def Let_def)
  then show ?thesis by (simp add: refresh_services_def Let_def)
qed

section \<open>Properties\<close>

text \<open>
  C38: what \<open>mlb_backends_total\<close> shows after a reconciliation of a load balancer, whether its
  servers could be brought up to date or not: for every upstream of the desired state that is not
  preserved the number of its backends, 0 for every upstream that was stored for this load balancer
  and is no longer desired, and what it showed before for all others. The gauge has no label for
  the load balancer, so that this holds whatever it showed for the same name on another one.
\<close>

theorem reconciliation_gauges:
  assumes "k8s_HasSynced (dep_k8s d)" and "k8s_ListServices (dep_k8s d) = Inr svcs"
  shows "gauge p (snd (syncSingleLoadBalancer d lb a c)) up =
    (case reconcile_entry (dep_k8s d) (dep_config d) (st_Upstreams c) lb svcs up of
       Some u \<Rightarrow> if up_PreserveExistingBackends u then gauge p c up else Some (length (up_Backends u))
     | None \<Rightarrow> if has_key (st_Upstreams c) (slash_key lb up) then Some 0 else gauge p c up)"
proof -
  let ?desired = "desiredState (dep_k8s d) (dep_config d) (st_Upstreams c) lb svcs"
  let ?c1 = "refresh_services lb svcs c"
  obtain r c' where run: "syncSingleLoadBalancer d lb a c = (r, c')" by fastforce
  obtain ops where "metric_calls c' = metric_calls (update_upstreams lb ?desired ?c1) @ ops"
      "\<forall>up n. UpdateBackendsTotal up n \<notin> set ops"
    using syncSingleLoadBalancer_synced(8) [OF assms run refl refl] by blast
  then have "gauge p c' up = gauge p (update_upstreams lb ?desired ?c1) up"
    by (simp add: gauge_append)
  also have "\<dots> = (case map_of ?desired up of
      Some u \<Rightarrow> if up_PreserveExistingBackends u then gauge p c up else Some (length (up_Backends u))
    | None \<Rightarrow> if has_key (st_Upstreams c) (slash_key lb up) then Some 0 else gauge p c up)"
    unfolding gauge_update_upstreams [OF desiredState_distinct] gauge_same [OF refresh_services_metrics]
      refresh_services_frame ..
  finally show ?thesis by (simp add: run desiredState_lookup)
qed

text \<open>The upstream of the small cluster shows one backend, whatever the gauge was before.\<close>

theorem reconciliation_gauges_witness:
  "gauge \<lparr>pr_registry = [], pr_backends = [(''web'', 7)], pr_sync_errors = [], pr_durations = [],
       pr_sync_upstreams = 0, pr_isLeader = False, pr_readyChecker = False,
       pr_config = \<lparr>met_Enabled = True, met_Port = 9090, met_URI = ''/metrics''\<rparr>, pr_httpServer = False\<rparr>
     (snd (syncSingleLoadBalancer (demo_deps [''web'']) ''lb1'' recording_adapter (NewController []))) ''web'' = Some 1"
proof -
  have st: "st_Upstreams (NewController []) = []" by (simp add: NewController_def)
  have "reconcile_entry (dep_k8s (demo_deps [''web''])) (dep_config (demo_deps [''web''])) [] ''lb1''
      [mapService (demo_service ''web'')] ''web'' =
    Some \<lparr>up_Name = ''web'', up_LoadBalancer = ''lb1'',
      up_Backends = [\<lparr>be_IP = ''10.0.0.1'', be_Port = 30080, be_Weight = 1\<rparr>],
      up_Type = '''', up_Config = None, up_PreserveExistingBackends = False\<rparr>"
    by (simp add: reconcile_entry_def demo_desired_entry fallback_step_def)
  with reconciliation_gauges [OF demo_HasSynced demo_list [of "[''web'']"], where c = "NewController []"
      and lb = "''lb1''" and up = "''web''", unfolded st] show ?thesis
    by simp
qed

end
