(* ===== verification/Spec2Isabelle.thy ===== *)
theory Spec2Isabelle
  imports Loops ConvergenceProps Wiring MetricsProps
begin

text \<open>
  The MLB controller: it watches the services, pods and nodes of a Kubernetes cluster and keeps the
  upstreams of NGINX load balancers equal to what the services ask for. This development is a
  shallow embedding of its Go sources under \<open>src/\<close>.

  \<^bold>\<open>How the program works.\<close> \<open>main\<close> finds the configuration file; \<open>internal/di/wire.go\<close> loads,
  completes and validates it and builds the adapters; \<open>internal/application/app.go\<close> starts the
  informers, the metrics server and the leader election. The leader runs the controller
  (\<open>internal/controller/controller.go\<close>), which works in two ways. On the event path, informer events
  update its maps and put keys of services into a work queue, and a worker computes the upstream of
  such a service from all services that name it and pushes it. Periodically, for each load
  balancer, the whole desired state is computed and handed over. The NGINX adapter
  (\<open>internal/adapters/loadbalancer/nginx\<close>) compares what it is given with the listing of each NGINX
  address and sends requests to add and remove servers.

  \<^bold>\<open>The theories.\<close>
  \<^item> \<open>Prelude\<close>, \<open>GoStrings\<close>, \<open>GoNet\<close>, \<open>GoUrl\<close>, \<open>GoRegexp\<close>, \<open>GoDuration\<close>: maps, errors as values, and
    what the code uses of the packages \<open>strings\<close>, \<open>strconv\<close>, \<open>net\<close>, \<open>net/url\<close>, \<open>regexp\<close> and \<open>time\<close>.
  \<^item> \<open>DomainModel\<close>: the structs of \<open>domain/model\<close> and \<open>domain/config\<close> and the events.
  \<^item> \<open>BackendMerge\<close>, \<open>IpReplacement\<close>: \<open>mergeBackends\<close>; \<open>util/ip_replacement.go\<close>.
  \<^item> \<open>Controller\<close>: the state \<open>ctrl\<close> of \<open>ControllerImpl\<close>, its work items, events and syncs;
    \<open>ControllerProps\<close>, \<open>EventPath\<close>, \<open>EventProps\<close> have the event path's lemmas and properties.
  \<^item> \<open>KubernetesAdapter\<close>, \<open>AdapterProps\<close>, \<open>Cluster\<close>, \<open>Informers\<close>: \<open>adapters/kubernetes/client.go\<close>. The
    locale \<open>kubernetes_port\<close> is what the controller relies on; the adapter interprets it.
  \<^item> \<open>Reconciliation\<close>, \<open>ReconcileProps\<close>: the periodic path and its specification \<open>desired_entry\<close>.
  \<^item> \<open>System\<close>, \<open>Loops\<close>: the controller as a transition system, and its goroutines as loops in it.
  \<^item> \<open>NginxText\<close>, \<open>NginxAdapter\<close>, \<open>NginxProps\<close>, \<open>NginxSetup\<close>: the NGINX adapter and its client, the
    listing's grammar, and how adapters are built (with \<open>adapters/loadbalancer/factory.go\<close>).
  \<^item> \<open>NginxServer\<close>, \<open>Convergence\<close>, \<open>ServerDemo\<close>, \<open>ConvergenceProps\<close>: the adapter and the controller
    against running NGINX servers. The laws of the servers are hypotheses (\<open>nginx_servers\<close>, over
    what each server serves), and a simulated server meets them.
  \<^item> \<open>Interleaving\<close>, \<open>Concurrency\<close>: the goroutines of \<open>SyncUpstream\<close> and \<open>SyncAllUpstreams\<close> as threads
    of atomic actions, interleaved in any way; calls of the adapter as relations over schedules.
  \<^item> \<open>Validation\<close>, \<open>ValidationProps\<close>, \<open>Defaults\<close>, \<open>Certificates\<close>, \<open>ConfigLoader\<close>: \<open>util/validation.go\<close>, the
    validators, \<open>domain/config/default.go\<close>, the certificate loader and \<open>adapters/config/viper.go\<close>.
  \<^item> \<open>Logging\<close>, \<open>Metrics\<close>, \<open>MetricsProps\<close>: \<open>adapters/logging/zap.go\<close> and
    \<open>adapters/metrics/prometheus.go\<close>, and what its gauge shows after a reconciliation.
  \<^item> \<open>LeaderElection\<close>, \<open>Application\<close>, \<open>ApplicationProps\<close>: \<open>adapters/leaderelection/kubernetes.go\<close> and
    \<open>application/app.go\<close> with the goroutines they start.
  \<^item> \<open>Wiring\<close>: \<open>di/wire.go\<close> and \<open>cmd/mlb-controller/main.go\<close>.

  \<^bold>\<open>What is shown.\<close> Merging backends adds weights per address whatever the order of a map. Both
  paths of the controller push the same upstream, the one the specification gives for all services
  of that name; neither empties an upstream unless that is allowed; deletions drain, failed items
  are retried, and events enqueue every service they concern. The state invariant holds in every
  reachable state. The NGINX plan turns any listing into the desired one with nothing needless;
  its requests decode to what was meant; a rendered listing is parsed back; at most three attempts
  are made. Against servers that obey the laws of the upstream module, one reconciliation leaves
  every server with exactly the backends that the services ask for, and any sequence of calls of
  the adapter implements an abstract specification whose state is what is served; this holds
  however the goroutines of a call interleave, and each call ends. Validation accepts exactly the valid configurations, whose replacement rules cannot conflict; the loader
  returns only configurations fit to run with. The program starts as expected from a loaded
  configuration; a controller has a live context only while the lease is held; the application
  always comes to an end.

  \<^bold>\<open>Bounds and fuel.\<close> \<open>do_attempts\<close> counts down from the three attempts of \<open>doRequest\<close>, so it is
  structural. All other loops of the code are over lists and maps. The transition system of the
  application has a measure, with at most 13 steps from any reachable state. Ports are 32-bit and
  weights 64-bit words that wrap around; other numbers of the configuration are integers, as they
  are only compared.

  \<^bold>\<open>What the model assumes.\<close>
  \<^item> A Go map is an association list with distinct keys; ranging over it takes the order of the list.
    Where the order could matter, there is a property that it does not.
  \<^item> A handler that holds the state lock, or works off one item, is one step. The functions run the
    goroutines of an adapter's clients one after the other; \<open>Concurrency\<close> shows that their order does
    not matter, with a request and its retries as one atomic action. The code's waits on semaphores
    are left out: a wait only removes interleavings. Two calls of an adapter are
    taken not to overlap; the code does not exclude it, and \<open>stale_state_undoes_push\<close> shows what
    already their order can do.
  \<^item> Listers, \<open>AddEventHandler\<close>, \<open>WaitForCacheSync\<close>, the elector of client-go, the HTTP server and
    network, the file system, \<open>crypto/tls\<close>, \<open>crypto/x509\<close>, viper, mapstructure, zap and the
    instruments of Prometheus are parameters, as is the floating-point step of \<open>ParseDuration\<close>.
    Hypotheses about them state documented behaviour: a lister finds a listed object by its name
    (\<open>listers_ok\<close>); the elector takes the steps of \<open>Run_step\<close>; an NGINX server lists what it serves,
    and adds and removes what it is told (\<open>nginx_servers\<close>).
  \<^item> A clock is read once per function. Nil pointers in places where the program never puts them are
    left out. Regular expressions and \<open>url.Parse\<close> are those of Go 1.24.

  \<^bold>\<open>Not modelled:\<close> log output, and where the code logs; histogram buckets and the help texts of
  metrics; timers and tickers beyond what they deliver; the dialer's settings; the interfaces under
  \<open>internal/ports\<close>, which have no code of their own.
\<close>

end
